(* ===== verification/Prelude.thy ===== *)
theory Prelude
  imports Main "HOL-Library.State_Monad" "HOL-Library.Sublist"
begin

text \<open>
  Shared vocabulary of the development: the collections the component proofs use, the
  state-passing actions in which the stores and handlers are written, two small program logics for
  them (\<open>keeps\<close>: an invariant is preserved, \<open>ensures\<close>: a Hoare triple), and the
  list facts several components need.
\<close>

named_theorems keeps_intros "rules that split an action for an invariant proof"
named_theorems ensures_intros "rules that split an action for a Hoare triple"
named_theorems quiet_intros "actions that leave the database alone"
named_theorems run_simps "symbolic execution of the basic actions"

subsection \<open>Actions\<close>

text \<open>
  A Go function that talks to the outside world is an action: it takes the world and returns its
  result with the world after it. Go's pair \<open>(value, error)\<close> is the sum \<open>error + value\<close>.
\<close>

type_synonym ('w, 'a) action = "('w, 'a) state"

abbreviation ret :: "'a \<Rightarrow> ('w, 'a) action" where
  "ret \<equiv> State_Monad.return"

definition gets :: "('w \<Rightarrow> 'a) \<Rightarrow> ('w, 'a) action" where
  "gets f = State (\<lambda>w. (f w, w))"

definition modify :: "('w \<Rightarrow> 'w) \<Rightarrow> ('w, unit) action" where
  "modify f = State (\<lambda>w. ((), f w))"

lemma run_gets [simp, run_simps]: "run_state (gets f) w = (f w, w)"
  by (simp add: gets_def)

lemma run_modify [simp, run_simps]: "run_state (modify f) w = ((), f w)"
  by (simp add: modify_def)

subsection \<open>Preservation of an invariant\<close>

definition keeps :: "('w \<Rightarrow> bool) \<Rightarrow> ('w, 'a) action \<Rightarrow> bool" where
  "keeps I m \<longleftrightarrow> (\<forall>w. I w \<longrightarrow> I (snd (run_state m w)))"

lemma keepsI: "(\<And>w a w'. I w \<Longrightarrow> run_state m w = (a, w') \<Longrightarrow> I w') \<Longrightarrow> keeps I m"
  by (metis keeps_def prod.collapse)

lemma keepsD: "keeps I m \<Longrightarrow> I w \<Longrightarrow> run_state m w = (a, w') \<Longrightarrow> I w'"
  by (metis keeps_def snd_conv)

lemma keeps_ret [keeps_intros]: "keeps I (ret a)"
  by (simp add: keeps_def)

lemma keeps_gets [keeps_intros]: "keeps I (gets f)"
  by (simp add: keeps_def)

lemma keeps_modify: "(\<And>w. I w \<Longrightarrow> I (f w)) \<Longrightarrow> keeps I (modify f)"
  by (simp add: keeps_def)

lemma keeps_bind [keeps_intros]:
  "keeps I m \<Longrightarrow> (\<And>a. keeps I (f a)) \<Longrightarrow> keeps I (m \<bind> f)"
  by (simp add: keeps_def split: prod.splits) (metis snd_conv)

lemma keeps_if [keeps_intros]:
  "(b \<Longrightarrow> keeps I m) \<Longrightarrow> (\<not> b \<Longrightarrow> keeps I n) \<Longrightarrow> keeps I (if b then m else n)"
  by simp

lemma keeps_sum [keeps_intros]:
  "(\<And>e. x = Inl e \<Longrightarrow> keeps I (f e)) \<Longrightarrow> (\<And>a. x = Inr a \<Longrightarrow> keeps I (g a)) \<Longrightarrow>
   keeps I (case x of Inl e \<Rightarrow> f e | Inr a \<Rightarrow> g a)"
  by (simp split: sum.split)

lemma keeps_option [keeps_intros]:
  "(x = None \<Longrightarrow> keeps I m) \<Longrightarrow> (\<And>a. x = Some a \<Longrightarrow> keeps I (f a)) \<Longrightarrow>
   keeps I (case x of None \<Rightarrow> m | Some a \<Rightarrow> f a)"
  by (simp split: option.split)

lemma keeps_prod [keeps_intros]:
  "(\<And>a b. x = (a, b) \<Longrightarrow> keeps I (f a b)) \<Longrightarrow> keeps I (case x of (a, b) \<Rightarrow> f a b)"
  by (simp split: prod.split)

lemma keeps_let [keeps_intros]: "(\<And>y. y = x \<Longrightarrow> keeps I (f y)) \<Longrightarrow> keeps I (let y = x in f y)"
  by simp

subsection \<open>Hoare triples\<close>

definition ensures :: "('w \<Rightarrow> bool) \<Rightarrow> ('w, 'a) action \<Rightarrow> ('a \<Rightarrow> 'w \<Rightarrow> bool) \<Rightarrow> bool" where
  "ensures P m Q \<longleftrightarrow> (\<forall>w. P w \<longrightarrow> (case run_state m w of (a, w') \<Rightarrow> Q a w'))"

lemma ensuresI:
  "(\<And>w a w'. P w \<Longrightarrow> run_state m w = (a, w') \<Longrightarrow> Q a w') \<Longrightarrow> ensures P m Q"
  by (auto simp: ensures_def split: prod.split)

lemma ensuresD: "ensures P m Q \<Longrightarrow> P w \<Longrightarrow> run_state m w = (a, w') \<Longrightarrow> Q a w'"
  by (auto simp: ensures_def)

lemma ensures_ret [ensures_intros]: "(\<And>w. P w \<Longrightarrow> Q a w) \<Longrightarrow> ensures P (ret a) Q"
  by (simp add: ensures_def)

lemma ensures_bind:
  "ensures P m R \<Longrightarrow> (\<And>a. ensures (R a) (f a) Q) \<Longrightarrow> ensures P (m \<bind> f) Q"
  by (fastforce simp: ensures_def split: prod.splits)

lemma ensures_if [ensures_intros]:
  "(b \<Longrightarrow> ensures P m Q) \<Longrightarrow> (\<not> b \<Longrightarrow> ensures P n Q) \<Longrightarrow> ensures P (if b then m else n) Q"
  by simp

lemma ensures_sum [ensures_intros]:
  "(\<And>e. x = Inl e \<Longrightarrow> ensures P (f e) Q) \<Longrightarrow> (\<And>a. x = Inr a \<Longrightarrow> ensures P (g a) Q) \<Longrightarrow>
   ensures P (case x of Inl e \<Rightarrow> f e | Inr a \<Rightarrow> g a) Q"
  by (simp split: sum.split)

lemma ensures_option [ensures_intros]:
  "(x = None \<Longrightarrow> ensures P m Q) \<Longrightarrow> (\<And>a. x = Some a \<Longrightarrow> ensures P (f a) Q) \<Longrightarrow>
   ensures P (case x of None \<Rightarrow> m | Some a \<Rightarrow> f a) Q"
  by (simp split: option.split)

lemma ensures_strengthen: "ensures P m Q \<Longrightarrow> (\<And>w. P' w \<Longrightarrow> P w) \<Longrightarrow> ensures P' m Q"
  by (simp add: ensures_def)

lemma ensures_weaken:
  "ensures P m Q \<Longrightarrow> (\<And>a w. Q a w \<Longrightarrow> Q' a w) \<Longrightarrow> ensures P m Q'"
  by (auto simp: ensures_def split: prod.splits)

subsection \<open>Lists\<close>

lemma find_Some_iff_ex: "find P xs \<noteq> None \<longleftrightarrow> (\<exists>x \<in> set xs. P x)"
  by (induction xs) auto

lemma find_list_ex: "find P xs \<noteq> None \<longleftrightarrow> list_ex P xs"
  by (induction xs) auto

lemma find_SomeD: "find P xs = Some x \<Longrightarrow> x \<in> set xs \<and> P x"
  by (induction xs) (auto split: if_splits)

lemma find_NoneD: "find P xs = None \<Longrightarrow> x \<in> set xs \<Longrightarrow> \<not> P x"
  by (induction xs) (auto split: if_splits)

lemma find_unique:
  "distinct (map k xs) \<Longrightarrow> x \<in> set xs \<Longrightarrow> find (\<lambda>y. k y = k x) xs = Some x"
  by (induction xs) (auto simp: image_iff)

lemma find_append: "find P (xs @ ys) = (case find P xs of None \<Rightarrow> find P ys | Some x \<Rightarrow> Some x)"
  by (induction xs) auto

lemma sum_list_filter_snoc:
  "(\<Sum>x \<leftarrow> filter P (xs @ [y]). f x) = (\<Sum>x \<leftarrow> filter P xs. f x) + (if P y then f y else (0::int))"
  by simp

lemma sum_list_remove_one:
  assumes "distinct xs" and "y \<in> set xs" and "P y"
  shows "(\<Sum>x \<leftarrow> filter P (filter (\<lambda>x. x \<noteq> y) xs). f x) = (\<Sum>x \<leftarrow> filter P xs. f x) - (f y :: int)"
  using assms
proof (induction xs)
  case Nil
  then show ?case by simp
next
  case (Cons a xs)
  show ?case
  proof (cases "a = y")
    case True
    with Cons.prems have "filter (\<lambda>x. x \<noteq> y) xs = xs"
      by (auto intro!: filter_True)
    with True Cons.prems show ?thesis by simp
  next
    case False
    with Cons show ?thesis by auto
  qed
qed

end
