(* ===== verification/Go_Strings.thy ===== *)
theory Go_Strings
  imports Prelude
begin

text \<open>
  What the program uses of Go's \<open>strings\<close>, \<open>strconv\<close> and \<open>encoding/hex\<close>. A Go
  string is a sequence of bytes: a \<open>string\<close> of HOL, whose characters are the numbers 0 to 255.
\<close>

subsection \<open>Bytes\<close>

abbreviation byte :: "char \<Rightarrow> nat" where
  "byte c \<equiv> of_char c"

definition is_digit :: "char \<Rightarrow> bool" where
  "is_digit c \<longleftrightarrow> 48 \<le> byte c \<and> byte c \<le> 57"

definition digit_val :: "char \<Rightarrow> nat" where
  "digit_val c = byte c - 48"

definition is_ascii :: "char \<Rightarrow> bool" where
  "is_ascii c \<longleftrightarrow> byte c < 128"

definition ascii_lower :: "char \<Rightarrow> char" where
  "ascii_lower c = (if 65 \<le> byte c \<and> byte c \<le> 90 then char_of (byte c + 32) else c)"

text \<open>Parsing one byte: required (\<open>eat\<close>), or skipped when it is there (\<open>skip_opt\<close>).\<close>

fun eat :: "char \<Rightarrow> string \<Rightarrow> string option" where
  "eat c [] = None"
| "eat c (x # xs) = (if x = c then Some xs else None)"

fun skip_opt :: "char \<Rightarrow> string \<Rightarrow> string" where
  "skip_opt c [] = []"
| "skip_opt c (x # xs) = (if x = c then xs else x # xs)"

subsection \<open>\<open>strings.TrimSpace\<close>\<close>

text \<open>
  The UTF-8 encodings of the code points with Unicode's White\_Space property, which is what
  \<open>unicode.IsSpace\<close> tests.
\<close>

definition space_seqs :: "string list" where
  "space_seqs =
     [[CHR 0x09], [CHR 0x0A], [CHR 0x0B], [CHR 0x0C], [CHR 0x0D], [CHR 0x20],
      [CHR 0xC2, CHR 0x85], [CHR 0xC2, CHR 0xA0], [CHR 0xE1, CHR 0x9A, CHR 0x80],
      [CHR 0xE2, CHR 0x80, CHR 0x80], [CHR 0xE2, CHR 0x80, CHR 0x81],
      [CHR 0xE2, CHR 0x80, CHR 0x82], [CHR 0xE2, CHR 0x80, CHR 0x83],
      [CHR 0xE2, CHR 0x80, CHR 0x84], [CHR 0xE2, CHR 0x80, CHR 0x85],
      [CHR 0xE2, CHR 0x80, CHR 0x86], [CHR 0xE2, CHR 0x80, CHR 0x87],
      [CHR 0xE2, CHR 0x80, CHR 0x88], [CHR 0xE2, CHR 0x80, CHR 0x89],
      [CHR 0xE2, CHR 0x80, CHR 0x8A], [CHR 0xE2, CHR 0x80, CHR 0xA8],
      [CHR 0xE2, CHR 0x80, CHR 0xA9], [CHR 0xE2, CHR 0x80, CHR 0xAF],
      [CHR 0xE2, CHR 0x81, CHR 0x9F], [CHR 0xE3, CHR 0x80, CHR 0x80]]"

function strip_front :: "string list \<Rightarrow> string \<Rightarrow> string" where
  "strip_front ws s =
     (case find (\<lambda>w. w \<noteq> [] \<and> prefix w s) ws of
        None \<Rightarrow> s
      | Some w \<Rightarrow> strip_front ws (drop (length w) s))"
  by pat_completeness auto
termination
proof (relation "measure (\<lambda>(ws, s). length s)", simp)
  fix ws :: "string list" and s w
  assume "find (\<lambda>w. w \<noteq> [] \<and> prefix w s) ws = Some w"
  then have "w \<noteq> []" and "prefix w s" by (auto dest: find_SomeD)
  then show "((ws, drop (length w) s), (ws, s)) \<in> measure (\<lambda>(ws, s). length s)"
    by (cases s) auto
qed

declare strip_front.simps [simp del]

definition trim_space :: "string \<Rightarrow> string" where
  "trim_space s = rev (strip_front (map rev space_seqs) (rev (strip_front space_seqs s)))"

lemma strip_front_suffix: "suffix (strip_front ws s) s"
proof (induction ws s rule: strip_front.induct)
  case (1 ws s)
  show ?case
  proof (cases "find (\<lambda>w. w \<noteq> [] \<and> prefix w s) ws")
    case None
    then show ?thesis by (simp add: strip_front.simps [of ws s])
  next
    case (Some w)
    from "1.IH" [OF Some] have "suffix (strip_front ws (drop (length w) s)) s"
      by (meson suffix_drop suffix_order.trans)
    with Some show ?thesis by (simp add: strip_front.simps [of ws s])
  qed
qed

lemma strip_front_clean: "find (\<lambda>w. w \<noteq> [] \<and> prefix w (strip_front ws s)) ws = None"
proof (induction ws s rule: strip_front.induct)
  case (1 ws s)
  then show ?case
    by (cases "find (\<lambda>w. w \<noteq> [] \<and> prefix w s) ws") (simp_all add: strip_front.simps [of ws s])
qed

lemma strip_front_id:
  "find (\<lambda>w. w \<noteq> [] \<and> prefix w s) ws = None \<Longrightarrow> strip_front ws s = s"
  by (simp add: strip_front.simps [of ws s])

lemma strip_front_none:
  "(\<And>w. w \<in> set ws \<Longrightarrow> w \<noteq> [] \<Longrightarrow> \<not> prefix w s) \<Longrightarrow> strip_front ws s = s"
  by (rule strip_front_id) (auto simp: find_None_iff)

text \<open>A trimmed string neither starts nor ends with white space, so trimming again changes nothing.\<close>

lemma trim_space_idem [simp]: "trim_space (trim_space s) = trim_space s"
proof -
  let ?l = "strip_front space_seqs s"
  let ?r = "strip_front (map rev space_seqs) (rev ?l)"
  have "prefix (rev ?r) ?l"
    using strip_front_suffix [of "map rev space_seqs" "rev ?l"]
    by (simp add: suffix_to_prefix)
  moreover have "find (\<lambda>w. w \<noteq> [] \<and> prefix w ?l) space_seqs = None"
    by (rule strip_front_clean)
  ultimately have "find (\<lambda>w. w \<noteq> [] \<and> prefix w (rev ?r)) space_seqs = None"
    unfolding find_None_iff using prefix_order.trans by blast
  then have "strip_front space_seqs (rev ?r) = rev ?r" by (rule strip_front_id)
  moreover have "strip_front (map rev space_seqs) ?r = ?r"
    by (rule strip_front_id) (rule strip_front_clean)
  ultimately show ?thesis by (simp add: trim_space_def)
qed

text \<open>
  Strings whose ends are printable ASCII characters are left alone, and ASCII white space around
  them is dropped; these two facts evaluate \<open>trim_space\<close> on examples.
\<close>

definition printable :: "char \<Rightarrow> bool" where
  "printable c \<longleftrightarrow> 33 \<le> byte c \<and> byte c < 128"

lemma space_seqs_ends:
  "list_all (\<lambda>w. \<not> printable (hd w) \<and> \<not> printable (last w)) space_seqs"
  by (simp add: space_seqs_def printable_def)

lemma trim_space_printable:
  assumes "s \<noteq> []" and "printable (hd s)" and "printable (last s)"
  shows "trim_space s = s"
proof -
  have ends: "\<not> printable (hd w)" "\<not> printable (last w)" if "w \<in> set space_seqs" for w
    using that space_seqs_ends by (auto simp: list_all_iff)
  have "\<not> prefix w s" if "w \<in> set space_seqs" and "w \<noteq> []" for w
    using that ends [OF that(1)] assms(2) by (auto simp: prefix_def)
  then have "strip_front space_seqs s = s"
    by (intro strip_front_none) auto
  moreover have "\<not> prefix (rev w) (rev s)" if "w \<in> set space_seqs" and "w \<noteq> []" for w
    using that ends [OF that(1)] assms(3) by (auto simp: prefix_def rev_eq_append_conv)
  then have "strip_front (map rev space_seqs) (rev s) = rev s"
    by (intro strip_front_none) auto
  ultimately show ?thesis by (simp add: trim_space_def)
qed

lemma trim_space_Nil [simp]: "trim_space [] = []"
  by (simp add: trim_space_def strip_front_none)

subsection \<open>Numbers\<close>

fun nat_of_digits :: "nat \<Rightarrow> string \<Rightarrow> nat" where
  "nat_of_digits acc [] = acc"
| "nat_of_digits acc (c # cs) = nat_of_digits (10 * acc + digit_val c) cs"

definition max_int64 :: int where
  "max_int64 = 9223372036854775807"

definition min_int64 :: int where
  "min_int64 = - 9223372036854775808"

definition int64_ok :: "int \<Rightarrow> bool" where
  "int64_ok n \<longleftrightarrow> min_int64 \<le> n \<and> n \<le> max_int64"

text \<open>
  \<open>n, _ := strconv.Atoi(x)\<close> on a string of decimal digits: the value, the largest \<open>int\<close>
  when it is out of range (\<open>Atoi\<close> returns that value along with its range error), and 0 on the
  empty string.
\<close>

definition atoi_digits :: "string \<Rightarrow> int" where
  "atoi_digits s = (if s = [] then 0 else min (int (nat_of_digits 0 s)) max_int64)"

fun span_digits :: "string \<Rightarrow> string \<times> string" where
  "span_digits [] = ([], [])"
| "span_digits (c # cs) =
     (if is_digit c then (case span_digits cs of (ds, r) \<Rightarrow> (c # ds, r)) else ([], c # cs))"

lemma span_digits_append:
  "list_all is_digit ds \<Longrightarrow> (case r of [] \<Rightarrow> True | c # _ \<Rightarrow> \<not> is_digit c) \<Longrightarrow>
   span_digits (ds @ r) = (ds, r)"
  by (induction ds) (auto split: list.splits)

fun digits_of_nat :: "nat \<Rightarrow> string" where
  "digits_of_nat n =
     (if n < 10 then [char_of (48 + n)] else digits_of_nat (n div 10) @ [char_of (48 + n mod 10)])"

declare digits_of_nat.simps [simp del]

lemma digit_char:
  assumes "k < 10"
  shows "is_digit (char_of (48 + k))" and "digit_val (char_of (48 + k)) = k"
  using assms by (simp_all add: is_digit_def digit_val_def)

lemma nat_of_digits_append:
  "nat_of_digits acc (xs @ ys) = nat_of_digits (nat_of_digits acc xs) ys"
  by (induction acc xs rule: nat_of_digits.induct) auto

lemma digits_of_nat_digits: "list_all is_digit (digits_of_nat n)"
proof (induction n rule: digits_of_nat.induct)
  case (1 n)
  then show ?case by (simp add: digits_of_nat.simps [of n] digit_char)
qed

lemma nat_of_digits_of_nat [simp]: "nat_of_digits 0 (digits_of_nat n) = n"
proof (induction n rule: digits_of_nat.induct)
  case (1 n)
  then show ?case
    by (auto simp: digits_of_nat.simps [of n] nat_of_digits_append digit_char)
qed

lemma digits_of_nat_nonempty [simp]: "digits_of_nat n \<noteq> []"
  by (simp add: digits_of_nat.simps [of n])

text \<open>\<open>strconv.Itoa\<close> and \<open>strconv.FormatInt(n, 10)\<close>.\<close>

definition itoa :: "int \<Rightarrow> string" where
  "itoa n = (if n < 0 then ''-'' @ digits_of_nat (nat (- n)) else digits_of_nat (nat n))"

subsection \<open>Joining with a separator\<close>

text \<open>
  Keys built as \<open>a + ":" + b\<close> tell their parts apart when the first part has no colon.
\<close>

lemma colon_join_inj:
  "a @ CHR '':'' # b = a' @ CHR '':'' # b' \<Longrightarrow> CHR '':'' \<notin> set a \<Longrightarrow> CHR '':'' \<notin> set a' \<Longrightarrow>
   a = a' \<and> b = b'"
proof (induction a arbitrary: a')
  case Nil
  then show ?case by (cases a') auto
next
  case (Cons x a)
  then show ?case by (cases a') auto
qed

end
