(* ===== verification/Encodings.thy ===== *)
theory Encodings
  imports Go_Strings "HOL-Library.Word"
begin

text \<open>
  Text encodings at the edges of the program: \<open>encoding/hex\<close>, and the text form of UUIDs. Every
  id of the database is a UUID that crosses the Go boundary as a string and is cast back at the
  SQL edge (\<open>::uuid\<close> and \<open>::text\<close> in every statement of \<open>internal/store\<close>). Both are
  instances of one interface, a codec.
\<close>

subsection \<open>Codecs\<close>

locale codec =
  fixes enc :: "'a \<Rightarrow> 'b"
    and dec :: "'b \<Rightarrow> 'a option"
  assumes dec_enc [simp]: "dec (enc x) = Some x"
begin

lemma enc_inject: "enc x = enc y \<longleftrightarrow> x = y"
  by (metis dec_enc option.inject)

lemma enc_dec: "dec s = Some x \<Longrightarrow> dec (enc x) = dec s"
  by simp

lemma map_enc_inject: "map enc xs = map enc ys \<longleftrightarrow> xs = ys"
  by (simp add: inj_map_eq_map inj_on_def enc_inject)

end

subsection \<open>Hexadecimal\<close>

definition hex_digit :: "nat \<Rightarrow> char" where
  "hex_digit n = char_of (if n < 10 then 48 + n else 87 + n)"

definition hex_val :: "char \<Rightarrow> nat option" where
  "hex_val c =
     (let b = byte c
      in if 48 \<le> b \<and> b \<le> 57 then Some (b - 48)
         else if 97 \<le> b \<and> b \<le> 102 then Some (b - 87)
         else if 65 \<le> b \<and> b \<le> 70 then Some (b - 55)
         else None)"

lemma hex_val_digit [simp]: "n < 16 \<Longrightarrow> hex_val (hex_digit n) = Some n"
  by (auto simp: hex_val_def hex_digit_def)

fun hex_encode :: "string \<Rightarrow> string" where
  "hex_encode [] = []"
| "hex_encode (c # cs) = hex_digit (byte c div 16) # hex_digit (byte c mod 16) # hex_encode cs"

text \<open>\<open>hex.DecodeString\<close>, where \<open>None\<close> is its error (a bad digit or an odd length).\<close>

fun hex_decode :: "string \<Rightarrow> string option" where
  "hex_decode [] = Some []"
| "hex_decode [c] = None"
| "hex_decode (a # b # cs) =
     (case (hex_val a, hex_val b, hex_decode cs) of
        (Some x, Some y, Some r) \<Rightarrow> Some (char_of (16 * x + y) # r)
      | _ \<Rightarrow> None)"

lemma hex_decode_encode: "hex_decode (hex_encode s) = Some s"
proof (induction s)
  case Nil
  then show ?case by simp
next
  case (Cons c s)
  have b: "byte c < 256" by simp
  from b have "byte c div 16 < 16" by linarith
  with Cons show ?case by simp
qed

interpretation hex: codec hex_encode hex_decode
  by unfold_locales (rule hex_decode_encode)

lemma length_hex_encode [simp]: "length (hex_encode s) = 2 * length s"
  by (induction s) auto

lemma take_hex_encode: "take (2 * n) (hex_encode s) = hex_encode (take n s)"
proof (induction s arbitrary: n)
  case Nil
  then show ?case by simp
next
  case (Cons c s)
  then show ?case by (cases n) auto
qed

subsection \<open>UUIDs\<close>

type_synonym uuid = "128 word"

fun nibbles :: "nat \<Rightarrow> nat \<Rightarrow> nat list" where
  "nibbles 0 n = []"
| "nibbles (Suc k) n = nibbles k (n div 16) @ [n mod 16]"

definition nat_of_nibbles :: "nat list \<Rightarrow> nat" where
  "nat_of_nibbles ns = foldl (\<lambda>acc d. 16 * acc + d) 0 ns"

text \<open>
  \<open>id::text\<close>: 32 lower-case hexadecimal digits in groups of 8, 4, 4, 4 and 12.
\<close>

definition uuid_text :: "uuid \<Rightarrow> string" where
  "uuid_text u =
     (let h = map hex_digit (nibbles 32 (unat u))
      in take 8 h @ ''-'' @ take 4 (drop 8 h) @ ''-'' @ take 4 (drop 12 h) @ ''-'' @
         take 4 (drop 16 h) @ ''-'' @ drop 20 h)"

text \<open>
  \<open>$1::uuid\<close>, PostgreSQL's documented input syntax: digits of either case, optional braces around
  the whole, and an optional hyphen after any group of four digits.
\<close>

fun uuid_nibbles :: "nat \<Rightarrow> string \<Rightarrow> (nat list \<times> string) option" where
  "uuid_nibbles 0 s = Some ([], s)"
| "uuid_nibbles (Suc n) s =
     (case s of
        a # b # r \<Rightarrow>
          (case (hex_val a, hex_val b) of
             (Some x, Some y) \<Rightarrow>
               (let r' = (if odd (15 - n) \<and> 0 < n then skip_opt (CHR ''-'') r else r)
                in map_option (\<lambda>(ns, q). (x # y # ns, q)) (uuid_nibbles n r'))
           | _ \<Rightarrow> None)
      | _ \<Rightarrow> None)"

definition uuid_in :: "string \<Rightarrow> uuid option" where
  "uuid_in s =
     (case eat (CHR ''{'') s of
        Some t \<Rightarrow>
          (case uuid_nibbles 16 t of
             None \<Rightarrow> None
           | Some (ns, r) \<Rightarrow> if r = ''}'' then Some (word_of_nat (nat_of_nibbles ns)) else None)
      | None \<Rightarrow>
          (case uuid_nibbles 16 s of
             None \<Rightarrow> None
           | Some (ns, r) \<Rightarrow> if r = [] then Some (word_of_nat (nat_of_nibbles ns)) else None))"

lemma length_nibbles [simp]: "length (nibbles k n) = k"
  by (induction k arbitrary: n) auto

lemma nibbles_small: "d \<in> set (nibbles k n) \<Longrightarrow> d < 16"
  by (induction k arbitrary: n) auto

lemma nat_of_nibbles_nibbles: "nat_of_nibbles (nibbles k n) = n mod 16 ^ k"
proof (induction k arbitrary: n)
  case 0
  then show ?case by (simp add: nat_of_nibbles_def)
next
  case (Suc k)
  have "nat_of_nibbles (nibbles (Suc k) n) = 16 * nat_of_nibbles (nibbles k (n div 16)) + n mod 16"
    by (simp add: nat_of_nibbles_def)
  also have "\<dots> = 16 * (n div 16 mod 16 ^ k) + n mod 16"
    by (simp only: Suc.IH)
  also have "\<dots> = n mod 16 ^ Suc k"
    by (simp add: mod_mult2_eq)
  finally show ?case .
qed

text \<open>
  One group of four digits: the parser skips the hyphen after it when digits remain.
\<close>

lemma uuid_nibbles_group:
  assumes "even n" and "n \<le> 14" and "a < 16" and "b < 16" and "c < 16" and "d < 16"
  shows "uuid_nibbles (Suc (Suc n))
           (hex_digit a # hex_digit b # hex_digit c # hex_digit d # r) =
         map_option (\<lambda>(ns, q). (a # b # c # d # ns, q))
           (uuid_nibbles n (if 0 < n then skip_opt (CHR ''-'') r else r))"
proof -
  have "even (15 - Suc n)" and "odd (15 - n)"
    using assms(1,2) by (auto simp: even_diff_nat)
  then show ?thesis
    using assms(3-6) by (simp add: Let_def option.map_comp comp_def case_prod_beta')
qed

lemma hex_digit_neq:
  assumes "d < 16" and "hex_val c = None"
  shows "hex_digit d \<noteq> c"
  using assms by (metis hex_val_digit option.distinct(1))

lemma skip_hyphen_digit [simp]:
  "d < 16 \<Longrightarrow> skip_opt (CHR ''-'') (hex_digit d # r) = hex_digit d # r"
  using hex_digit_neq [of d "CHR ''-''"] by (simp add: hex_val_def)

lemma skip_opt_same: "skip_opt c (c # r) = r"
  by simp

text \<open>The hyphenated text of any 32 digits parses to those digits.\<close>

lemma uuid_nibbles_format:
  assumes "length ns = 32" and "\<forall>d \<in> set ns. d < 16"
  shows "uuid_nibbles 16
      (let h = map hex_digit ns
       in take 8 h @ ''-'' @ take 4 (drop 8 h) @ ''-'' @ take 4 (drop 12 h) @ ''-'' @
          take 4 (drop 16 h) @ ''-'' @ drop 20 h) = Some (ns, [])"
proof -
  have split4: "\<exists>a b c d r. xs = a # b # c # d # r \<and> length r = n"
    if "length xs = Suc (Suc (Suc (Suc n)))" for xs :: "nat list" and n
    using that by (auto simp: length_Suc_conv)
  have "length ns = Suc (Suc (Suc (Suc 28)))" using assms(1) by simp
  from split4 [OF this] obtain a0 a1 a2 a3 r1
    where n1: "ns = a0 # a1 # a2 # a3 # r1" and "length r1 = Suc (Suc (Suc (Suc 24)))" by auto
  from split4 [OF this(2)] obtain b0 b1 b2 b3 r2
    where n2: "r1 = b0 # b1 # b2 # b3 # r2" and "length r2 = Suc (Suc (Suc (Suc 20)))" by auto
  from split4 [OF this(2)] obtain c0 c1 c2 c3 r3
    where n3: "r2 = c0 # c1 # c2 # c3 # r3" and "length r3 = Suc (Suc (Suc (Suc 16)))" by auto
  from split4 [OF this(2)] obtain d0 d1 d2 d3 r4
    where n4: "r3 = d0 # d1 # d2 # d3 # r4" and "length r4 = Suc (Suc (Suc (Suc 12)))" by auto
  from split4 [OF this(2)] obtain e0 e1 e2 e3 r5
    where n5: "r4 = e0 # e1 # e2 # e3 # r5" and "length r5 = Suc (Suc (Suc (Suc 8)))" by auto
  from split4 [OF this(2)] obtain f0 f1 f2 f3 r6
    where n6: "r5 = f0 # f1 # f2 # f3 # r6" and "length r6 = Suc (Suc (Suc (Suc 4)))" by auto
  from split4 [OF this(2)] obtain g0 g1 g2 g3 r7
    where n7: "r6 = g0 # g1 # g2 # g3 # r7" and "length r7 = Suc (Suc (Suc (Suc 0)))" by auto
  from split4 [OF this(2)] obtain h0 h1 h2 h3 where n8: "r7 = [h0, h1, h2, h3]" by auto
  note groups =
    uuid_nibbles_group [of 14, simplified] uuid_nibbles_group [of 12, simplified]
    uuid_nibbles_group [of 10, simplified] uuid_nibbles_group [of 8, simplified]
    uuid_nibbles_group [of 6, simplified] uuid_nibbles_group [of 4, simplified]
    uuid_nibbles_group [of 2, simplified] uuid_nibbles_group [of 0, unfolded numeral_2_eq_2 [symmetric]]
  show ?thesis
    using assms(2)
    by (simp add: n1 n2 n3 n4 n5 n6 n7 n8 groups Let_def skip_opt_same del: skip_opt.simps(2))
qed

lemma uuid_in_text: "uuid_in (uuid_text u) = Some u"
proof -
  let ?ns = "nibbles 32 (unat u)"
  have digits: "\<forall>d \<in> set ?ns. d < 16" by (auto dest: nibbles_small)
  have parse: "uuid_nibbles 16 (uuid_text u) = Some (?ns, [])"
    unfolding uuid_text_def by (rule uuid_nibbles_format) (auto dest: nibbles_small)
  obtain d ds where ns: "?ns = d # ds"
    by (cases ?ns) (auto dest: arg_cong [where f = length])
  with digits have "hex_digit d \<noteq> CHR ''{''"
    by (intro hex_digit_neq) (auto simp: hex_val_def)
  with ns have plain: "eat (CHR ''{'') (uuid_text u) = None"
    by (simp add: uuid_text_def Let_def)
  have "unat u < 2 ^ LENGTH(128)" by (rule unsigned_less)
  then have "nat_of_nibbles ?ns = unat u" by (simp add: nat_of_nibbles_nibbles)
  with plain parse show ?thesis by (simp add: uuid_in_def)
qed

interpretation uuids: codec uuid_text uuid_in
  by unfold_locales (rule uuid_in_text)

text \<open>A text that is a uuid has no colon, so it can be told apart inside keys like \<open>a:b\<close>.\<close>

lemma uuid_nibbles_colon:
  "uuid_nibbles k s = Some (ns, r) \<Longrightarrow> CHR '':'' \<in> set s \<Longrightarrow> CHR '':'' \<in> set r"
proof (induction k s arbitrary: ns r rule: uuid_nibbles.induct)
  case (1 s)
  then show ?case by simp
next
  case (2 n s)
  from "2.prems"(1) obtain a b q x y where s: "s = a # b # q"
    and x: "hex_val a = Some x" and y: "hex_val b = Some y"
    by (auto split: list.splits option.splits)
  have "a \<noteq> CHR '':''" "b \<noteq> CHR '':''" using x y by (auto simp: hex_val_def)
  with "2.prems"(2) s have "CHR '':'' \<in> set q" by auto
  moreover have "CHR '':'' \<in> set (skip_opt (CHR ''-'') q)" if "CHR '':'' \<in> set q"
    using that by (cases q) auto
  ultimately show ?case
    using 2(1) [OF s refl _ x y refl] "2.prems"(1) by (auto simp: s x y Let_def split: if_splits)
qed

lemma uuid_in_no_colon: "uuid_in s = Some u \<Longrightarrow> CHR '':'' \<notin> set s"
proof
  assume "uuid_in s = Some u" and colon: "CHR '':'' \<in> set s"
  then consider ns t where "s = CHR ''{'' # t" "uuid_nibbles 16 t = Some (ns, ''}'')"
    | ns where "uuid_nibbles 16 s = Some (ns, [])"
    by (cases s) (auto simp: uuid_in_def split: option.splits if_splits)
  then show False using colon by cases (auto dest: uuid_nibbles_colon)
qed

end
