(* ===== verification/Go_Json.thy ===== *)
theory Go_Json
  imports Go_Strings
begin

text \<open>
  JSON documents, and decoding into a struct the way \<open>encoding/json\<close> does it: keys match the
  field names up to case, unknown keys are ignored (or refused, after \<open>DisallowUnknownFields\<close>),
  \<open>null\<close> leaves a field alone, and a value of the wrong type leaves its field alone and is
  reported at the end, after every other field has been decoded. Documents come from the request
  decoder and from JSONB columns, so they are given as parsed values; an absent document (no
  bytes, SQL NULL) is \<open>None\<close>.
\<close>

datatype json =
    JNull
  | JBool bool
  | JInt int \<comment> \<open>a number literal without fraction and exponent\<close>
  | JFrac string \<comment> \<open>any other number literal\<close>
  | JStr string
  | JArr "json list"
  | JObj "(string \<times> json) list"

subsection \<open>Keys\<close>

text \<open>
  The case folding of keys. Besides ASCII letters, the long s (C5 BF) and the Kelvin sign
  (E2 84 AA) fold to an ASCII letter; nothing else does.
\<close>

function fold_key :: "string \<Rightarrow> string" where
  "fold_key [] = []"
| "fold_key (c # cs) =
     (if byte c = 197 \<and> prefix [char_of (191 :: nat)] cs then CHR ''s'' # fold_key (drop 1 cs)
      else if byte c = 226 \<and> prefix [char_of (132 :: nat), char_of (170 :: nat)] cs
        then CHR ''k'' # fold_key (drop 2 cs)
      else ascii_lower c # fold_key cs)"
  by pat_completeness auto
termination
  by (relation "measure length") auto

subsection \<open>Decoding\<close>

text \<open>A setter decodes a value into a struct; its flag says that there was no type error.\<close>

type_synonym 'r setter = "json \<Rightarrow> 'r \<Rightarrow> 'r \<times> bool"

fun set_string :: "(string \<Rightarrow> 'r \<Rightarrow> 'r) \<Rightarrow> 'r setter" where
  "set_string upd JNull r = (r, True)"
| "set_string upd (JStr s) r = (upd s r, True)"
| "set_string upd _ r = (r, False)"

fun set_int :: "(int \<Rightarrow> 'r \<Rightarrow> 'r) \<Rightarrow> 'r setter" where
  "set_int upd JNull r = (r, True)"
| "set_int upd (JInt n) r = (if int64_ok n then (upd n r, True) else (r, False))"
| "set_int upd _ r = (r, False)"

fun set_bool :: "(bool \<Rightarrow> 'r \<Rightarrow> 'r) \<Rightarrow> 'r setter" where
  "set_bool upd JNull r = (r, True)"
| "set_bool upd (JBool b) r = (upd b r, True)"
| "set_bool upd _ r = (r, False)"

text \<open>\<open>json.RawMessage\<close> keeps any value, \<open>null\<close> included.\<close>

definition set_raw :: "(json option \<Rightarrow> 'r \<Rightarrow> 'r) \<Rightarrow> 'r setter" where
  "set_raw upd j r = (upd (Some j) r, True)"

text \<open>Pointers: \<open>null\<close> is the nil pointer.\<close>

fun set_string_ptr :: "(string option \<Rightarrow> 'r \<Rightarrow> 'r) \<Rightarrow> 'r setter" where
  "set_string_ptr upd JNull r = (upd None r, True)"
| "set_string_ptr upd (JStr s) r = (upd (Some s) r, True)"
| "set_string_ptr upd _ r = (r, False)"

fun set_int_ptr :: "(int option \<Rightarrow> 'r \<Rightarrow> 'r) \<Rightarrow> 'r setter" where
  "set_int_ptr upd JNull r = (upd None r, True)"
| "set_int_ptr upd (JInt n) r = (if int64_ok n then (upd (Some n) r, True) else (r, False))"
| "set_int_ptr upd _ r = (r, False)"

fun set_bool_ptr :: "(bool option \<Rightarrow> 'r \<Rightarrow> 'r) \<Rightarrow> 'r setter" where
  "set_bool_ptr upd JNull r = (upd None r, True)"
| "set_bool_ptr upd (JBool b) r = (upd (Some b) r, True)"
| "set_bool_ptr upd _ r = (r, False)"

text \<open>A slice of \<open>'e\<close>: each element is decoded into a zero value.\<close>

fun set_slice :: "'e \<Rightarrow> 'e setter \<Rightarrow> ('e list \<Rightarrow> 'r \<Rightarrow> 'r) \<Rightarrow> 'r setter" where
  "set_slice zero dec upd JNull r = (upd [] r, True)"
| "set_slice zero dec upd (JArr js) r =
     (let es = map (\<lambda>j. dec j zero) js in (upd (map fst es) r, list_all snd es))"
| "set_slice zero dec upd _ r = (r, False)"

fun decode_fields ::
  "bool \<Rightarrow> (string \<times> 'r setter) list \<Rightarrow> (string \<times> json) list \<Rightarrow> 'r \<Rightarrow> 'r \<times> bool"
where
  "decode_fields strict fs [] r = (r, True)"
| "decode_fields strict fs ((k, v) # kvs) r =
     (let (r1, ok1) =
        (case find (\<lambda>(n, _). n = fold_key k) fs of
           None \<Rightarrow> (r, \<not> strict)
         | Some (_, dec) \<Rightarrow> dec v r);
      (r2, ok2) = decode_fields strict fs kvs r1
      in (r2, ok1 \<and> ok2))"

fun decode_struct :: "bool \<Rightarrow> (string \<times> 'r setter) list \<Rightarrow> 'r setter" where
  "decode_struct strict fs JNull r = (r, True)"
| "decode_struct strict fs (JObj kvs) r = decode_fields strict fs kvs r"
| "decode_struct strict fs _ r = (r, False)"

text \<open>
  \<open>decodeJSON\<close> of \<open>internal/httpserver/server.go\<close>: the body, if it is JSON at all, decoded with
  unknown fields refused; \<open>None\<close> is its error. The 4 MiB cap only turns long bodies into
  bodies that are not JSON.
\<close>

definition decodeJSON :: "(string \<times> 'r setter) list \<Rightarrow> 'r \<Rightarrow> json option \<Rightarrow> 'r option" where
  "decodeJSON fs zero body =
     (case body of
        None \<Rightarrow> None
      | Some j \<Rightarrow> (case decode_struct True fs j zero of (r, ok) \<Rightarrow> if ok then Some r else None))"

text \<open>What every setter preserves, decoding preserves.\<close>

lemma decode_fields_invariant:
  assumes "\<And>n s v r. (n, s) \<in> set fs \<Longrightarrow> I r \<Longrightarrow> I (fst (s v r))" and "I r"
  shows "I (fst (decode_fields strict fs kvs r))"
  using assms
proof (induction strict fs kvs r rule: decode_fields.induct)
  case (1 strict fs r)
  then show ?case by simp
next
  case (2 strict fs k v kvs r)
  let ?step = "case find (\<lambda>(n, _). n = fold_key k) fs of
      None \<Rightarrow> (r, \<not> strict) | Some (_, dec) \<Rightarrow> dec v r"
  have "I (fst ?step)"
    using 2(2,3) by (auto split: option.split dest!: find_SomeD)
  then have "I (fst (decode_fields strict fs kvs (fst ?step)))"
    using 2(1) [of "?step" "fst ?step" "snd ?step"] 2(2) by simp
  then show ?case by (simp add: Let_def case_prod_beta')
qed

lemma decode_struct_invariant:
  assumes "\<And>n s v r. (n, s) \<in> set fs \<Longrightarrow> I r \<Longrightarrow> I (fst (s v r))" and "I r"
  shows "I (fst (decode_struct strict fs j r))"
  using assms decode_fields_invariant [of fs I r] by (cases j) auto

subsection \<open>Encoding\<close>

text \<open>
  \<open>json.Marshal\<close> of a document (a Go map is given with its keys in order, which is how they are
  written). Strings are escaped for HTML as well; a string is taken to be valid UTF-8.
\<close>

definition hex_nibble :: "nat \<Rightarrow> char" where
  "hex_nibble n = char_of (if n < 10 then 48 + n else 87 + n)"

definition u_escape :: "nat \<Rightarrow> string" where
  "u_escape b =
     [char_of (92 :: nat)] @ ''u00'' @ [hex_nibble (b div 16), hex_nibble (b mod 16)]"

fun escape :: "string \<Rightarrow> string" where
  "escape [] = []"
| "escape (c # cs) =
     (let b = byte c; bs = char_of (92 :: nat)
      in if b = 34 \<or> b = 92 then bs # c # escape cs
         else if b = 8 then bs # CHR ''b'' # escape cs
         else if b = 12 then bs # CHR ''f'' # escape cs
         else if b = 10 then bs # CHR ''n'' # escape cs
         else if b = 13 then bs # CHR ''r'' # escape cs
         else if b = 9 then bs # CHR ''t'' # escape cs
         else if b < 32 \<or> b = 60 \<or> b = 62 \<or> b = 38 then u_escape b @ escape cs
         else if b = 226 \<and> prefix [char_of (128 :: nat), char_of (168 :: nat)] cs
           then bs # ''u2028'' @ escape (drop 2 cs)
         else if b = 226 \<and> prefix [char_of (128 :: nat), char_of (169 :: nat)] cs
           then bs # ''u2029'' @ escape (drop 2 cs)
         else c # escape cs)"

definition quoted :: "string \<Rightarrow> string" where
  "quoted s = [char_of (34 :: nat)] @ escape s @ [char_of (34 :: nat)]"

fun comma_sep :: "string list \<Rightarrow> string" where
  "comma_sep [] = []"
| "comma_sep [x] = x"
| "comma_sep (x # y # xs) = x @ '','' @ comma_sep (y # xs)"

fun marshal :: "json \<Rightarrow> string" where
  "marshal JNull = ''null''"
| "marshal (JBool b) = (if b then ''true'' else ''false'')"
| "marshal (JInt n) = itoa n"
| "marshal (JFrac s) = s"
| "marshal (JStr s) = quoted s"
| "marshal (JArr js) = ''['' @ comma_sep (map marshal js) @ '']''"
| "marshal (JObj kvs) =
     ''{'' @ comma_sep (map (\<lambda>(k, v). quoted k @ '':'' @ marshal v) kvs) @ ''}''"

text \<open>A list of strings (\<open>[]string\<close>) read from a document; \<open>None\<close> is a type error.\<close>

definition string_list :: "json \<Rightarrow> string list option" where
  "string_list j =
     (case set_slice [] (set_string (\<lambda>s _. s)) (\<lambda>xs _. xs) j [] of (xs, ok) \<Rightarrow>
        if ok then Some xs else None)"

end
