(* ===== verification/Go_Time.thy ===== *)
theory Go_Time
  imports Go_Strings
begin

text \<open>
  Instants and durations of Go's \<open>time\<close> package. An instant (\<open>time.Time\<close>, up to its location
  and monotonic reading, which the program never inspects) is an \<open>int\<close>: nanoseconds since
  1970-01-01T00:00:00Z. A duration is a 64-bit signed number of nanoseconds; where it is computed
  it is a \<open>64 word\<close>, where it is compared it is the \<open>int\<close> it denotes.
\<close>

type_synonym instant = int
type_synonym duration = int

definition second :: duration where "second = 1000000000"
definition minute :: duration where "minute = 60 * second"
definition hour :: duration where "hour = 60 * minute"

lemmas duration_defs = second_def minute_def hour_def

definition time_before :: "instant \<Rightarrow> instant \<Rightarrow> bool" where
  "time_before t u \<longleftrightarrow> t < u"

definition time_after :: "instant \<Rightarrow> instant \<Rightarrow> bool" where
  "time_after t u \<longleftrightarrow> u < t"

subsection \<open>The calendar\<close>

definition is_leap :: "nat \<Rightarrow> bool" where
  "is_leap y \<longleftrightarrow> 4 dvd y \<and> (\<not> 100 dvd y \<or> 400 dvd y)"

definition days_in :: "nat \<Rightarrow> nat \<Rightarrow> nat" where
  "days_in m y =
     (if m = 2 then (if is_leap y then 29 else 28)
      else if m = 4 \<or> m = 6 \<or> m = 9 \<or> m = 11 then 30 else 31)"

text \<open>Days from 0000-01-01 to the first day of a year, and from there to the first of a month.\<close>

definition days_before_year :: "nat \<Rightarrow> nat" where
  "days_before_year y = 365 * y + (y + 3) div 4 - (y + 99) div 100 + (y + 399) div 400"

definition days_before_month :: "nat \<Rightarrow> nat \<Rightarrow> nat" where
  "days_before_month m y = (\<Sum>i \<leftarrow> [1..<m]. days_in i y)"

definition unix_nanos :: "nat \<Rightarrow> nat \<Rightarrow> nat \<Rightarrow> nat \<Rightarrow> nat \<Rightarrow> nat \<Rightarrow> nat \<Rightarrow> int" where
  "unix_nanos y mo d h mi s ns =
     (let days = int (days_before_year y + days_before_month mo y + (d - 1)) - 719528
      in ((days * 24 + int h) * 60 + int mi) * minute + int s * second + int ns)"

subsection \<open>\<open>time.Parse(time.RFC3339, v)\<close>\<close>

text \<open>
  The parser of the standard library on the layout \<open>2006-01-02T15:04:05Z07:00\<close>, with its
  leniencies: an hour of one digit, a fraction after the seconds although the layout has none (of
  which nine digits count), a comma for the decimal point, and offsets up to 24:60. Each step takes
  the rest of the value and gives the number read with what follows.
\<close>

definition two_digits :: "bool \<Rightarrow> string \<Rightarrow> (nat \<times> string) option" where
  "two_digits fixed s =
     (case s of
        [] \<Rightarrow> None
      | a # r \<Rightarrow>
          if \<not> is_digit a then None
          else (case r of
                  b # q \<Rightarrow>
                    if is_digit b then Some (10 * digit_val a + digit_val b, q)
                    else if fixed then None else Some (digit_val a, r)
                | [] \<Rightarrow> if fixed then None else Some (digit_val a, r)))"

definition four_digits :: "string \<Rightarrow> (nat \<times> string) option" where
  "four_digits s =
     (if 4 \<le> length s \<and> list_all is_digit (take 4 s)
      then Some (nat_of_digits 0 (take 4 s), drop 4 s) else None)"

definition in_range :: "nat \<Rightarrow> nat \<Rightarrow> (nat \<times> string) option \<Rightarrow> (nat \<times> string) option" where
  "in_range lo hi p = (case p of Some (n, r) \<Rightarrow> if lo \<le> n \<and> n \<le> hi then p else None | None \<Rightarrow> None)"

definition fraction :: "string \<Rightarrow> nat \<times> string" where
  "fraction s =
     (case s of
        a # b # r \<Rightarrow>
          if (a = CHR ''.'' \<or> a = CHR '','') \<and> is_digit b
          then (case span_digits (b # r) of
                  (ds, q) \<Rightarrow> (nat_of_digits 0 (take 9 ds) * 10 ^ (9 - length (take 9 ds)), q))
          else (0, s)
      | _ \<Rightarrow> (0, s))"

text \<open>The zone: its offset in seconds and what follows.\<close>

definition zone :: "string \<Rightarrow> (int \<times> string) option" where
  "zone s =
     (case eat (CHR ''Z'') s of
        Some r \<Rightarrow> Some (0, r)
      | None \<Rightarrow>
          if length s < 6 \<or> s ! 3 \<noteq> CHR '':'' then None
          else (case (in_range 0 24 (two_digits True (take 2 (drop 1 s))),
                      in_range 0 60 (two_digits True (take 2 (drop 4 s)))) of
                  (Some (h, _), Some (m, _)) \<Rightarrow>
                    let off = (int h * 60 + int m) * 60
                    in if s ! 0 = CHR ''+'' then Some (off, drop 6 s)
                       else if s ! 0 = CHR ''-'' then Some (- off, drop 6 s)
                       else None
                | _ \<Rightarrow> None))"

definition parse_rfc3339 :: "string \<Rightarrow> instant option" where
  "parse_rfc3339 v = do {
     (y, v) \<leftarrow> four_digits v;
     v \<leftarrow> eat (CHR ''-'') v;
     (mo, v) \<leftarrow> in_range 1 12 (two_digits True v);
     v \<leftarrow> eat (CHR ''-'') v;
     (d, v) \<leftarrow> two_digits True v;
     v \<leftarrow> eat (CHR ''T'') v;
     (h, v) \<leftarrow> in_range 0 23 (two_digits False v);
     v \<leftarrow> eat (CHR '':'') v;
     (mi, v) \<leftarrow> in_range 0 59 (two_digits True v);
     v \<leftarrow> eat (CHR '':'') v;
     (s, v) \<leftarrow> in_range 0 59 (two_digits True v);
     (let (ns, v) = fraction v
      in do {
        (off, v) \<leftarrow> zone v;
        (if v = [] \<and> 1 \<le> d \<and> d \<le> days_in mo y
         then Some (unix_nanos y mo d h mi s ns - off * second) else None)
      })
   }"

subsection \<open>JSON timestamps\<close>

text \<open>
  \<open>parseTimePtr\<close> of \<open>internal/httpserver/server.go\<close>: a missing or empty string is no time; the
  outer \<open>None\<close> is the error.
\<close>

definition parseTimePtr :: "string option \<Rightarrow> instant option option" where
  "parseTimePtr v =
     (case v of
        None \<Rightarrow> Some None
      | Some s \<Rightarrow>
          if s = [] then Some None
          else (case parse_rfc3339 s of None \<Rightarrow> None | Some t \<Rightarrow> Some (Some t)))"

end
