(* ===== verification/Schema.thy ===== *)
theory Schema
  imports Encodings Go_Json Go_Time
begin

text \<open>
  The database: the tables of \<open>db/migrations\<close> as lists of rows in insertion order, and the
  constraints PostgreSQL enforces on them. A column of type \<open>uuid\<close> is a \<open>uuid\<close>, a timestamp
  an \<open>instant\<close>, a \<open>jsonb\<close> column a \<open>json\<close> (nullable: \<open>json option\<close>), an \<open>int\<close>
  column an \<open>int\<close> in the range of \<open>int4\<close>. The surrogate keys of type \<open>bigserial\<close>, which
  no query selects by, are left out, and so are columns nothing reads.

  Go keeps ids as text and casts them in the statement (\<open>$1::uuid\<close>). A Go struct filled from a
  row (\<open>store.User\<close>, \<open>store.Event\<close>, ...) is represented by the row; its \<open>ID\<close> is the text
  of the row's id.
\<close>

subsection \<open>Rows\<close>

record org =
  o_id :: uuid
  o_slug :: string
  o_name :: string

record user =
  u_id :: uuid
  u_org :: uuid
  u_email :: string
  u_name :: string
  u_hash :: string
  u_role :: string
  u_created :: instant

record session =
  s_token :: string
  s_user :: uuid
  s_expires :: instant

record event =
  e_id :: uuid
  e_org :: uuid
  e_slug :: string
  e_name :: string
  e_state :: string
  e_starts :: "instant option"
  e_ends :: "instant option"
  e_freeze :: "instant option"
  e_bonus :: int
  e_created :: instant

record team =
  tm_id :: uuid
  tm_org :: uuid
  tm_name :: string
  tm_invite :: string
  tm_created :: instant

record member =
  mb_user :: uuid
  mb_team :: uuid
  mb_role :: string

record event_team =
  et_event :: uuid
  et_team :: uuid

record challenge =
  c_id :: uuid
  c_event :: uuid
  c_title :: string
  c_category :: string
  c_desc :: string
  c_state :: string
  c_scoring :: json
  c_position :: int
  c_created :: instant
  c_block :: "uuid option"
  c_lib :: "uuid option"
  c_rev :: "int option"
  c_tags :: "string list"
  c_schedule :: "json option"
  c_unlock :: "json option"
  c_instance :: "json option"

record flag =
  fl_ec :: uuid
  fl_hash :: string
  fl_case :: bool

record submission =
  sb_event :: uuid
  sb_ec :: uuid
  sb_team :: uuid
  sb_user :: uuid
  sb_hash :: string
  sb_correct :: bool
  sb_at :: instant
  sb_ip :: "string option"

record score_event =
  se_event :: uuid
  se_team :: uuid
  se_kind :: string
  se_source :: string
  se_ref :: string
  se_points :: int
  se_at :: instant
  se_meta :: json

record entry =
  b_event :: uuid
  b_team :: uuid
  b_points :: int
  b_solves :: int
  b_last :: "instant option"

record lib_challenge =
  l_id :: uuid
  l_org :: uuid
  l_slug :: string
  l_title :: string
  l_category :: string
  l_difficulty :: "int option"
  l_author :: "string option"
  l_tags :: "string list"
  l_rev :: int
  l_archived :: "instant option"
  l_created :: instant

record revision =
  r_lib :: uuid
  r_rev :: int
  r_desc :: string
  r_scoring :: json
  r_flags :: json
  r_conn :: "string option"
  r_by :: "uuid option"
  r_created :: instant

record block =
  k_id :: uuid
  k_event :: uuid
  k_name :: string
  k_position :: int
  k_color :: "string option"
  k_schedule :: "json option"
  k_unlock :: "json option"
  k_created :: instant

record saved_view =
  v_id :: uuid
  v_event :: uuid
  v_user :: uuid
  v_name :: string
  v_filter :: json

record audit =
  a_event :: uuid
  a_actor :: "uuid option"
  a_action :: string
  a_target :: string
  a_meta :: json

record bulk_job =
  j_id :: uuid
  j_event :: uuid
  j_actor :: "uuid option"
  j_action :: string
  j_affected :: int
  j_undo :: "json option"
  j_undone :: bool

record plugin =
  p_id :: string
  p_name :: string
  p_base_url :: string
  p_secret :: string
  p_token :: string
  p_capabilities :: json
  p_events :: json

record running =
  i_id :: uuid
  i_ec :: uuid
  i_team :: uuid
  i_host :: string
  i_port :: int
  i_status :: string
  i_extends :: int
  i_expires :: instant
  i_created :: instant

record notice =
  n_id :: uuid
  n_event :: uuid
  n_title :: string
  n_content :: string
  n_created :: instant

record challenge_file =
  f_id :: uuid
  f_ec :: uuid
  f_name :: string
  f_type :: string
  f_size :: int
  f_sha256 :: string
  f_data :: string

record database =
  orgs :: "org list"
  users :: "user list"
  sessions :: "session list"
  events :: "event list"
  teams :: "team list"
  members :: "member list"
  event_teams :: "event_team list"
  challenges :: "challenge list" \<comment> \<open>\<open>event_challenges\<close>\<close>
  flags :: "flag list"
  submissions :: "submission list"
  score_events :: "score_event list"
  board :: "entry list" \<comment> \<open>\<open>scoreboard_entries\<close>\<close>
  library :: "lib_challenge list" \<comment> \<open>\<open>challenges\<close>\<close>
  revisions :: "revision list" \<comment> \<open>\<open>challenge_revisions\<close>\<close>
  blocks :: "block list"
  saved_views :: "saved_view list"
  audit_log :: "audit list"
  bulk_jobs :: "bulk_job list"
  plugins :: "plugin list"
  instances :: "running list"
  notifications :: "notice list"
  files :: "challenge_file list"

definition empty_db :: database where
  "empty_db = \<lparr>orgs = [], users = [], sessions = [], events = [], teams = [], members = [],
     event_teams = [], challenges = [], flags = [], submissions = [], score_events = [], board = [],
     library = [], revisions = [], blocks = [], saved_views = [], audit_log = [], bulk_jobs = [],
     plugins = [], instances = [], notifications = [], files = []\<rparr>"

subsection \<open>Statements\<close>

text \<open>
  A statement takes the transaction's time (\<open>now()\<close>), an unused uuid (\<open>gen_random_uuid()\<close>) and
  the database, and gives an error or its result with the database after it. \<open>ConnError\<close> is the
  error of the client when the server did not answer.
\<close>

datatype sql_error =
    UniqueViolation
  | ForeignKeyViolation
  | OutOfRange \<comment> \<open>a number that does not fit the column\<close>
  | BadUuid \<comment> \<open>text that is no uuid\<close>
  | Message string \<comment> \<open>an error the store's own code makes\<close>
  | ConnError

type_synonym 'a stmt = "instant \<Rightarrow> uuid \<Rightarrow> database \<Rightarrow> sql_error + 'a \<times> database"

definition query :: "(database \<Rightarrow> 'a) \<Rightarrow> 'a stmt" where
  "query f now u d = Inr (f d, d)"

definition require :: "bool \<Rightarrow> sql_error \<Rightarrow> sql_error + 'a \<Rightarrow> sql_error + 'a" where
  "require b e r = (if b then r else Inl e)"

definition cast_uuid :: "string \<Rightarrow> (uuid \<Rightarrow> sql_error + 'a) \<Rightarrow> sql_error + 'a" where
  "cast_uuid s k = (case uuid_in s of None \<Rightarrow> Inl BadUuid | Some u \<Rightarrow> k u)"

fun cast_uuids :: "string list \<Rightarrow> (uuid list \<Rightarrow> sql_error + 'a) \<Rightarrow> sql_error + 'a" where
  "cast_uuids [] k = k []"
| "cast_uuids (s # ss) k = cast_uuid s (\<lambda>u. cast_uuids ss (\<lambda>us. k (u # us)))"

text \<open>A nullable uuid parameter: \<open>nilIfEmpty\<close> of \<open>internal/store/store.go\<close>, or a pointer.\<close>

definition nilIfEmpty :: "string \<Rightarrow> string option" where
  "nilIfEmpty s = (if s = [] then None else Some s)"

definition cast_uuid_opt :: "string option \<Rightarrow> (uuid option \<Rightarrow> sql_error + 'a) \<Rightarrow> sql_error + 'a" where
  "cast_uuid_opt v k = (case v of None \<Rightarrow> k None | Some s \<Rightarrow> cast_uuid s (\<lambda>u. k (Some u)))"

definition int4_ok :: "int \<Rightarrow> bool" where
  "int4_ok n \<longleftrightarrow> - 2147483648 \<le> n \<and> n \<le> 2147483647"

definition int2_ok :: "int \<Rightarrow> bool" where
  "int2_ok n \<longleftrightarrow> - 32768 \<le> n \<and> n \<le> 32767"

lemma query_Inr [simp, run_simps]: "query f now u d = Inr r \<longleftrightarrow> r = (f d, d)"
  by (auto simp: query_def)

lemma query_not_Inl [simp, run_simps]: "query f now u d \<noteq> Inl e"
  by (simp add: query_def)

lemma require_Inr [simp, run_simps]: "require b e r = Inr x \<longleftrightarrow> b \<and> r = Inr x"
  by (simp add: require_def)

lemma require_True [simp]: "require True e r = r"
  by (simp add: require_def)

lemma require_False [simp]: "require False e r = Inl e"
  by (simp add: require_def)

lemma cast_uuid_Inr [simp, run_simps]:
  "cast_uuid s k = Inr x \<longleftrightarrow> (\<exists>u. uuid_in s = Some u \<and> k u = Inr x)"
  by (auto simp: cast_uuid_def split: option.split)

lemma cast_uuid_Some: "uuid_in s = Some u \<Longrightarrow> cast_uuid s k = k u"
  by (simp add: cast_uuid_def)

lemma cast_uuid_text [simp]: "cast_uuid (uuid_text u) k = k u"
  by (simp add: cast_uuid_def uuid_in_text)

lemma cast_uuid_opt_Inr [run_simps]:
  "cast_uuid_opt v k = Inr x \<longleftrightarrow>
     (case v of None \<Rightarrow> k None = Inr x | Some s \<Rightarrow> \<exists>u. uuid_in s = Some u \<and> k (Some u) = Inr x)"
  by (auto simp: cast_uuid_opt_def split: option.split)

lemma cast_uuids_Inr [run_simps]:
  "cast_uuids ss k = Inr x \<longleftrightarrow> (\<exists>us. map uuid_in ss = map Some us \<and> k us = Inr x)"
proof (induction ss arbitrary: k)
  case Nil
  then show ?case by simp
next
  case (Cons s ss)
  then show ?case by (auto simp: Cons_eq_map_conv)
qed

lemma cast_uuids_text [simp]: "cast_uuids (map uuid_text us) k = k us"
  by (induction us arbitrary: k) auto

subsection \<open>Constraints\<close>

text \<open>
  \<open>fresh_key\<close> says that no row has the key yet, \<open>exists_row\<close> that a referenced row exists.
\<close>

definition fresh_key :: "('r \<Rightarrow> 'k) \<Rightarrow> 'k \<Rightarrow> 'r list \<Rightarrow> bool" where
  "fresh_key key k rows \<longleftrightarrow> \<not> list_ex (\<lambda>r. key r = k) rows"

definition exists_row :: "('r \<Rightarrow> 'k) \<Rightarrow> 'k \<Rightarrow> 'r list \<Rightarrow> bool" where
  "exists_row key k rows \<longleftrightarrow> list_ex (\<lambda>r. key r = k) rows"

lemma fresh_key_iff: "fresh_key key k rows \<longleftrightarrow> k \<notin> key ` set rows"
  by (auto simp: fresh_key_def list_ex_iff)

lemma exists_row_iff: "exists_row key k rows \<longleftrightarrow> k \<in> key ` set rows"
  by (auto simp: exists_row_def list_ex_iff)

definition update_where :: "('r \<Rightarrow> bool) \<Rightarrow> ('r \<Rightarrow> 'r) \<Rightarrow> 'r list \<Rightarrow> 'r list" where
  "update_where P f rows = map (\<lambda>r. if P r then f r else r) rows"

definition count_where :: "('r \<Rightarrow> bool) \<Rightarrow> 'r list \<Rightarrow> nat" where
  "count_where P rows = length (filter P rows)"

lemma set_update_where: "set (update_where P f rows) = (\<lambda>r. if P r then f r else r) ` set rows"
  by (simp add: update_where_def)

lemma map_update_where:
  "(\<And>r. g (f r) = g r) \<Longrightarrow> map g (update_where P f rows) = map g rows"
  by (simp add: update_where_def)

lemma update_where_none: "(\<And>r. r \<in> set rows \<Longrightarrow> \<not> P r) \<Longrightarrow> update_where P f rows = rows"
  by (simp add: update_where_def map_idI)

lemma find_update_where:
  assumes "\<And>r. key (f r) = key r"
  shows "find (\<lambda>r. key r = k) (update_where (\<lambda>r. key r = k') f rows) =
           (if k = k' then map_option f (find (\<lambda>r. key r = k) rows) else find (\<lambda>r. key r = k) rows)"
  using assms by (induction rows) (auto simp: update_where_def)

lemma find_fresh: "fresh_key key k rows \<Longrightarrow> find (\<lambda>r. key r = k) rows = None"
  by (auto simp: fresh_key_def find_None_iff list_ex_iff)

lemma find_not_fresh: "\<not> fresh_key key k rows \<Longrightarrow> \<exists>r. find (\<lambda>r. key r = k) rows = Some r \<and> key r = k"
  by (metis (mono_tags, lifting) find_None_iff find_SomeD fresh_key_def list_ex_iff not_None_eq)

lemma find_key: "distinct (map k xs) \<Longrightarrow> x \<in> set xs \<Longrightarrow> find (\<lambda>y. k y = k x) xs = Some x"
  by (induction xs) (auto simp: rev_image_eqI)

lemma find_snoc_fresh: "fresh_key key (key x) xs \<Longrightarrow> find (\<lambda>y. key y = key x) (xs @ [x]) = Some x"
  by (induction xs) (auto simp: fresh_key_def)

end
