(* ===== verification/Budget.thy ===== *)
theory Budget
  imports Prelude
begin

text \<open>
  The contract of a component that grants requests out of a budget. A request (of type \<open>'r\<close>) is
  granted or refused; \<open>left s\<close> bounds what the state \<open>s\<close> may still grant to the requests one
  counts (\<open>counts\<close>), as long as all requests are admissible (\<open>ok\<close>).
\<close>

locale budget =
  fixes step :: "'r \<Rightarrow> 's \<Rightarrow> bool \<times> 's"
    and inv :: "'s \<Rightarrow> bool"
    and ok :: "'r \<Rightarrow> bool"
    and counts :: "'r \<Rightarrow> bool"
    and left :: "'s \<Rightarrow> nat"
  assumes inv_step: "inv s \<Longrightarrow> inv (snd (step r s))"
    and spend: "inv s \<Longrightarrow> ok r \<Longrightarrow> counts r \<Longrightarrow> fst (step r s) \<Longrightarrow> left (snd (step r s)) < left s"
    and never_more: "inv s \<Longrightarrow> ok r \<Longrightarrow> left (snd (step r s)) \<le> left s"
begin

primrec run :: "'r list \<Rightarrow> 's \<Rightarrow> (bool list \<times> 's)" where
  "run [] s = ([], s)"
| "run (r # rs) s = (case step r s of (g, s') \<Rightarrow> case run rs s' of (gs, t) \<Rightarrow> (g # gs, t))"

text \<open>How many of the counted requests a run grants.\<close>

definition granted :: "'r list \<Rightarrow> 's \<Rightarrow> nat" where
  "granted rs s = length (filter (\<lambda>(r, g). counts r \<and> g) (zip rs (fst (run rs s))))"

lemma run_inv: "inv s \<Longrightarrow> inv (snd (run rs s))"
proof (induction rs arbitrary: s)
  case Nil
  then show ?case by simp
next
  case (Cons r rs)
  then show ?case using inv_step [of s r] by (auto split: prod.splits) (metis snd_conv)
qed

theorem granted_le_left: "inv s \<Longrightarrow> \<forall>r \<in> set rs. ok r \<Longrightarrow> granted rs s \<le> left s"
proof (induction rs arbitrary: s)
  case Nil
  then show ?case by (simp add: granted_def)
next
  case (Cons r rs)
  obtain g s' where st: "step r s = (g, s')" by fastforce
  have "granted (r # rs) s = (if counts r \<and> g then 1 else 0) + granted rs s'"
    by (simp add: granted_def st split: prod.split)
  moreover have "granted rs s' \<le> left s'"
    using Cons.IH [of s'] Cons.prems inv_step [of s r] st by simp
  moreover have "(if counts r \<and> g then 1 else 0) + left s' \<le> left s"
    using spend [of s r] never_more [of s r] Cons.prems st by auto
  ultimately show ?case by simp
qed

end

end
