(* ===== verification/Ratelimit.thy ===== *)
theory Ratelimit
  imports Budget Go_Time
begin

text \<open>
  \<open>internal/ratelimit/ratelimit.go\<close>: the in-memory fixed-window limiter in front of flag
  submissions. The mutex makes every call one step, so a run is a sequence of calls, each with the
  clock reading \<open>Allow\<close> takes.
\<close>

record bucket =
  bk_count :: int
  bk_reset_at :: instant

record limiter =
  lm_buckets :: "string \<rightharpoonup> bucket"
  lm_limit :: int
  lm_window :: duration

definition new_limiter :: "int \<Rightarrow> duration \<Rightarrow> limiter" where
  "new_limiter limit window = \<lparr>lm_buckets = Map.empty, lm_limit = limit, lm_window = window\<rparr>"

definition fresh_bucket :: "string \<Rightarrow> instant \<Rightarrow> limiter \<Rightarrow> limiter" where
  "fresh_bucket key now l =
     l\<lparr>lm_buckets := (lm_buckets l)(key \<mapsto> \<lparr>bk_count = 1, bk_reset_at = now + lm_window l\<rparr>)\<rparr>"

definition allow :: "string \<times> instant \<Rightarrow> limiter \<Rightarrow> bool \<times> limiter" where
  "allow r l =
     (case r of (key, now) \<Rightarrow>
        (case lm_buckets l key of
           None \<Rightarrow> (True, fresh_bucket key now l)
         | Some b \<Rightarrow>
             if time_after now (bk_reset_at b) then (True, fresh_bucket key now l)
             else if bk_count b \<ge> lm_limit l then (False, l)
             else (True, l\<lparr>lm_buckets := (lm_buckets l)(key \<mapsto> b\<lparr>bk_count := bk_count b + 1\<rparr>)\<rparr>)))"

text \<open>A run of calls and the answers they get.\<close>

primrec allow_all :: "(string \<times> instant) list \<Rightarrow> limiter \<Rightarrow> bool list \<times> limiter" where
  "allow_all [] l = ([], l)"
| "allow_all (r # rs) l =
     (case allow r l of (g, l') \<Rightarrow> case allow_all rs l' of (gs, m) \<Rightarrow> (g # gs, m))"

lemma fst_allow_all_Cons:
  "fst (allow_all (r # rs) l) = fst (allow r l) # fst (allow_all rs (snd (allow r l)))"
  by (simp add: case_prod_beta')

lemma snd_allow_all_Cons:
  "snd (allow_all (r # rs) l) = snd (allow_all rs (snd (allow r l)))"
  by (simp add: case_prod_beta')

lemmas allow_all_Cons = fst_allow_all_Cons snd_allow_all_Cons

declare allow_all.simps(2) [simp del]

definition allowed_hits :: "string \<Rightarrow> (string \<times> instant) list \<Rightarrow> limiter \<Rightarrow> nat" where
  "allowed_hits key rs l =
     length (filter (\<lambda>(r, g). fst r = key \<and> g) (zip rs (fst (allow_all rs l))))"

subsection \<open>The budget of an interval\<close>

text \<open>What one window grants: the first hit always, then up to the limit.\<close>

definition window_quota :: "limiter \<Rightarrow> nat" where
  "window_quota l = nat (max 1 (lm_limit l))"

text \<open>
  What a limiter can still grant to \<open>key\<close> up to the instant \<open>hi\<close>, if no call comes before
  \<open>hi - window\<close>: the rest of the current bucket, and one more window if that bucket runs out
  before \<open>hi\<close>.
\<close>

definition hits_left :: "string \<Rightarrow> instant \<Rightarrow> limiter \<Rightarrow> nat" where
  "hits_left key hi l =
     (case lm_buckets l key of
        None \<Rightarrow> window_quota l
      | Some b \<Rightarrow> nat (lm_limit l - bk_count b) + (if hi \<le> bk_reset_at b then 0 else window_quota l))"

definition counting :: "limiter \<Rightarrow> bool" where
  "counting l \<longleftrightarrow> (\<forall>k b. lm_buckets l k = Some b \<longrightarrow> 1 \<le> bk_count b)"

definition within_window :: "duration \<Rightarrow> instant \<Rightarrow> string \<times> instant \<Rightarrow> bool" where
  "within_window w lo r \<longleftrightarrow> lo \<le> snd r \<and> snd r \<le> lo + w"

lemma new_limiter_simps [simp]:
  "counting (new_limiter n w)" "lm_window (new_limiter n w) = w" "lm_limit (new_limiter n w) = n"
  "lm_buckets (new_limiter n w) = Map.empty"
  by (simp_all add: counting_def new_limiter_def)

lemma allow_window [simp]: "lm_window (snd (allow r l)) = lm_window l"
  by (auto simp: allow_def fresh_bucket_def split: prod.split option.split)

lemma allow_limit [simp]: "lm_limit (snd (allow r l)) = lm_limit l"
  by (auto simp: allow_def fresh_bucket_def split: prod.split option.split)

lemma allow_counting: "counting l \<Longrightarrow> counting (snd (allow r l))"
  by (fastforce simp: allow_def fresh_bucket_def counting_def split: prod.split option.split)

lemma allow_spends:
  assumes "counting l" and "lm_window l = w" and "within_window w lo (key, now)"
    and "fst (allow (key, now) l)"
  shows "hits_left key (lo + w) (snd (allow (key, now) l)) < hits_left key (lo + w) l"
  using assms
  by (auto simp: allow_def hits_left_def fresh_bucket_def window_quota_def within_window_def
      time_after_def split: option.splits if_splits)

lemma allow_never_more:
  assumes "counting l" and "lm_window l = w" and "within_window w lo r"
  shows "hits_left key (lo + w) (snd (allow r l)) \<le> hits_left key (lo + w) l"
  using assms
  by (cases r) (auto simp: allow_def hits_left_def fresh_bucket_def window_quota_def
      within_window_def time_after_def split: option.splits if_splits)

interpretation rate: budget allow "\<lambda>l. counting l \<and> lm_window l = w" "within_window w lo"
  "\<lambda>r. fst r = key" "hits_left key (lo + w)" for w lo key
  by unfold_locales (auto simp: allow_counting allow_never_more allow_spends)

lemma run_allow_all: "rate.run rs l = allow_all rs l"
  by (induction rs arbitrary: l) (auto simp: allow_all.simps)

lemma granted_allowed_hits: "rate.granted key rs l = allowed_hits key rs l"
  by (simp add: rate.granted_def allowed_hits_def run_allow_all)

lemma allow_all_counting:
  "counting l \<Longrightarrow> counting (snd (allow_all rs l)) \<and> lm_window (snd (allow_all rs l)) = lm_window l"
  using rate.run_inv [of l "lm_window l" rs] by (simp add: run_allow_all)

lemma allow_all_limit [simp]: "lm_limit (snd (allow_all rs l)) = lm_limit l"
  by (induction rs arbitrary: l) (simp_all add: allow_all_Cons)

lemma hits_left_quota: "counting l \<Longrightarrow> hits_left key hi l \<le> 2 * window_quota l - 1"
  by (fastforce simp: hits_left_def window_quota_def counting_def split: option.split)

subsection \<open>What the limiter guarantees\<close>

text \<open>
  C26. However the calls before and between them are placed, the calls for one key in any interval
  as long as the window are granted less than twice: at most \<open>2 n - 1\<close> of them for a limit of \<open>n\<close>
  (and one for a limit below 1), since a bucket that is left over from before the interval has
  already spent its first hit there.
\<close>

theorem allow_rate_bound:
  assumes "\<forall>r \<in> set rs. within_window w lo r"
  shows "allowed_hits key rs (snd (allow_all pre (new_limiter n w))) \<le> 2 * nat (max 1 n) - 1"
proof -
  let ?l = "snd (allow_all pre (new_limiter n w))"
  have inv: "counting ?l \<and> lm_window ?l = w"
    using allow_all_counting [of "new_limiter n w" pre] by simp
  have "allowed_hits key rs ?l \<le> hits_left key (lo + w) ?l"
    using rate.granted_le_left [OF inv assms] by (simp add: granted_allowed_hits)
  also have "\<dots> \<le> 2 * window_quota ?l - 1"
    using inv by (intro hits_left_quota) simp
  finally show ?thesis
    by (simp add: window_quota_def)
qed

theorem allow_rate_bound_witness:
  "allowed_hits ''k'' [(''k'', 5), (''k'', 11), (''k'', 12)]
     (snd (allow_all [(''k'', 0)] (new_limiter 2 10))) \<le> 3 \<and>
   fst (allow_all [(''k'', 5), (''k'', 11), (''k'', 12)]
     (snd (allow_all [(''k'', 0)] (new_limiter 2 10)))) = [True, True, True]"
  using allow_rate_bound [of "[(''k'', 5), (''k'', 11), (''k'', 12)]" 10 5 "''k''" "[(''k'', 0)]" 2]
  by (simp add: within_window_def allow_def fresh_bucket_def time_after_def allow_all_Cons)

lemma allow_all_full_bucket:
  assumes "lm_buckets l key = Some b" and "t \<le> bk_reset_at b" and "1 \<le> bk_count b"
  shows "fst (allow_all (replicate k (key, t)) l) =
    (let q = nat (lm_limit l - bk_count b) in replicate (min k q) True @ replicate (k - q) False)"
  using assms
proof (induction k arbitrary: l b)
  case 0
  then show ?case by simp
next
  case (Suc k)
  show ?case
  proof (cases "bk_count b \<ge> lm_limit l")
    case True
    with Suc.prems have "allow (key, t) l = (False, l)"
      by (simp add: allow_def time_after_def)
    with True Suc.IH [OF Suc.prems] show ?thesis by (simp add: Let_def allow_all_Cons)
  next
    case False
    let ?b = "b\<lparr>bk_count := bk_count b + 1\<rparr>"
    let ?l = "l\<lparr>lm_buckets := (lm_buckets l)(key \<mapsto> ?b)\<rparr>"
    from False Suc.prems have step: "allow (key, t) l = (True, ?l)"
      by (simp add: allow_def time_after_def)
    have q: "nat (lm_limit l - bk_count b) = Suc (nat (lm_limit l - (bk_count b + 1)))"
      using False by simp
    have "fst (allow_all (replicate k (key, t)) ?l) =
        (let q = nat (lm_limit l - (bk_count b + 1)) in replicate (min k q) True @ replicate (k - q) False)"
      using Suc.IH [of ?l ?b] Suc.prems by simp
    with step show ?thesis by (simp add: Let_def q allow_all_Cons)
  qed
qed

text \<open>
  A burst: of \<open>k\<close> calls for a key that has no open window, exactly the first \<open>n\<close> are granted
  and the rest refused; a limit of 0 (or below) still lets the first call of a window through.
\<close>

theorem allow_burst:
  assumes "\<And>b. lm_buckets l key = Some b \<Longrightarrow> bk_reset_at b < t" and "0 \<le> lm_window l"
  shows "fst (allow_all (replicate k (key, t)) l) =
    (let q = nat (max 1 (lm_limit l)) in replicate (min k q) True @ replicate (k - q) False)"
proof (cases k)
  case 0
  then show ?thesis by simp
next
  case (Suc j)
  let ?l = "fresh_bucket key t l"
  let ?b = "\<lparr>bk_count = 1, bk_reset_at = t + lm_window l\<rparr>"
  have step: "allow (key, t) l = (True, ?l)"
    using assms(1) by (auto simp: allow_def time_after_def split: option.split)
  have rest: "fst (allow_all (replicate j (key, t)) ?l) =
      (let q = nat (lm_limit l - 1) in replicate (min j q) True @ replicate (j - q) False)"
    using allow_all_full_bucket [of ?l key ?b t j] assms(2) by (simp add: fresh_bucket_def)
  have q: "nat (max 1 (lm_limit l)) = Suc (nat (lm_limit l - 1))" by simp
  show ?thesis
    using step rest by (simp add: Suc q Let_def allow_all_Cons)
qed

theorem allow_burst_witness:
  "fst (allow_all (replicate 3 (''k'', 7)) (new_limiter 2 60)) = [True, True, False] \<and>
   fst (allow_all (replicate 2 (''k'', 7)) (new_limiter 0 60)) = [True, False]"
proof -
  have "fst (allow_all (replicate 3 (''k'', 7)) (new_limiter 2 60)) =
      (let q = nat (max 1 (lm_limit (new_limiter 2 60))) in
       replicate (min 3 q) True @ replicate (3 - q) False)"
    by (rule allow_burst) simp_all
  moreover have "fst (allow_all (replicate 2 (''k'', 7)) (new_limiter 0 60)) =
      (let q = nat (max 1 (lm_limit (new_limiter 0 60))) in
       replicate (min 2 q) True @ replicate (2 - q) False)"
    by (rule allow_burst) simp_all
  ultimately show ?thesis by (simp add: Let_def numeral_eq_Suc)
qed

end
