(* ===== verification/World.thy ===== *)
theory World
  imports Schema Ratelimit
begin

text \<open>
  The world a request handler acts on, and how the code reaches the database in it. A statement
  outside a transaction is one round trip; a transaction is a round trip each for \<open>BEGIN\<close>, the
  statements and \<open>COMMIT\<close>. Every round trip may fail: it is \<open>Done\<close>, or \<open>Refused\<close> (it had no
  effect), or \<open>Lost\<close> (it had its effect and the answer did not arrive). The outcomes, the clock
  readings, the generated uuids and the random tokens are streams the world holds and consumes, so
  that a theorem about all worlds is one about all of them.

  A refusal also stands for those of PostgreSQL's reasons that are not modelled, such as a zero byte in
  a text. Requests run one at a time here; \<open>Races\<close> and \<open>Rush\<close> take up what concurrency adds.
\<close>

datatype outcome = Done | Refused | Lost

text \<open>
  What the server sends out: Redis commands, and the goroutines that call the plugins' webhooks.
\<close>

datatype effect =
    CacheDel string
  | CacheSet string \<comment> \<open>the page just answered, kept for two seconds under the key\<close>
  | Publish string string json \<comment> \<open>event, type, data\<close>
  | Deliver string string string string string string
      \<comment> \<open>a webhook: url, event, delivery id, timestamp, signature, body\<close>

record world =
  db :: database
  net :: "nat \<Rightarrow> outcome"
  clock :: "nat \<Rightarrow> instant"
  uuids :: "nat \<Rightarrow> uuid"
  tokens :: "nat \<Rightarrow> string option" \<comment> \<open>\<open>None\<close>: the system has no randomness\<close>
  dice :: "nat \<Rightarrow> nat" \<comment> \<open>\<open>math/rand\<close>\<close>
  limits :: limiter
  outbox :: "effect list"

abbreviation (input) pop :: "(nat \<Rightarrow> 'a) \<Rightarrow> nat \<Rightarrow> 'a" where
  "pop s \<equiv> (\<lambda>n. s (Suc n))"

text \<open>The streams after one round trip.\<close>

definition tick :: "world \<Rightarrow> world" where
  "tick w = w\<lparr>net := pop (net w), clock := pop (clock w), uuids := pop (uuids w)\<rparr>"

lemma tick_simps [simp, run_simps]:
  "db (tick w) = db w" "limits (tick w) = limits w" "outbox (tick w) = outbox w"
  "tokens (tick w) = tokens w" "dice (tick w) = dice w"
  by (simp_all add: tick_def)

lemma tick_uuids: "range (uuids (tick w)) \<subseteq> range (uuids w)"
  by (auto simp: tick_def)

subsection \<open>Go's clock and randomness\<close>

definition time_now :: "(world, instant) action" where
  "time_now = State (\<lambda>w. (clock w 0, w\<lparr>clock := pop (clock w)\<rparr>))"

definition random_token :: "(world, string option) action" where
  "random_token = State (\<lambda>w. (tokens w 0, w\<lparr>tokens := pop (tokens w)\<rparr>))"

text \<open>\<open>rand.Intn(n)\<close>\<close>

definition intn :: "nat \<Rightarrow> (world, nat) action" where
  "intn n = State (\<lambda>w. (dice w 0 mod n, w\<lparr>dice := pop (dice w)\<rparr>))"

definition emit :: "effect \<Rightarrow> (world, unit) action" where
  "emit x = modify (\<lambda>w. w\<lparr>outbox := outbox w @ [x]\<rparr>)"

subsection \<open>Statements\<close>

text \<open>\<open>pool.QueryRow\<close>, \<open>pool.Query\<close> and \<open>pool.Exec\<close>: a statement of its own.\<close>

definition db_call :: "'a stmt \<Rightarrow> (world, sql_error + 'a) action" where
  "db_call st = State (\<lambda>w.
     case st (clock w 0) (uuids w 0) (db w) of
       Inl e \<Rightarrow> (Inl (if net w 0 = Done then e else ConnError), tick w)
     | Inr (a, d) \<Rightarrow>
         (case net w 0 of
            Done \<Rightarrow> (Inr a, (tick w)\<lparr>db := d\<rparr>)
          | Refused \<Rightarrow> (Inl ConnError, tick w)
          | Lost \<Rightarrow> (Inl ConnError, (tick w)\<lparr>db := d\<rparr>)))"

text \<open>The same on a transaction begun at \<open>now\<close>.\<close>

definition tx_call :: "instant \<Rightarrow> 'a stmt \<Rightarrow> (world, sql_error + 'a) action" where
  "tx_call now st = State (\<lambda>w.
     if net w 0 \<noteq> Done then (Inl ConnError, tick w)
     else (case st now (uuids w 0) (db w) of
             Inl e \<Rightarrow> (Inl e, tick w)
           | Inr (a, d) \<Rightarrow> (Inr a, (tick w)\<lparr>db := d\<rparr>)))"

datatype store_error = NotFound | Conflict | Failed sql_error

text \<open>
  How the body of a transaction ends: by returning (the deferred \<open>Rollback\<close> then discards what it
  did), or by committing and returning a value, unless the commit fails.
\<close>

datatype 'a tx_end = Rollback "store_error + 'a" | Commit 'a

definition transaction ::
  "(instant \<Rightarrow> (world, 'a tx_end) action) \<Rightarrow> (world, store_error + 'a) action"
where
  "transaction body = do {
     start \<leftarrow> State (\<lambda>w. ((net w 0, clock w 0), tick w));
     saved \<leftarrow> gets db;
     (if fst start \<noteq> Done then ret (Inl (Failed ConnError))
      else do {
        r \<leftarrow> body (snd start);
        (case r of
           Rollback v \<Rightarrow> do { modify (\<lambda>w. w\<lparr>db := saved\<rparr>); ret v }
         | Commit a \<Rightarrow> do {
             end \<leftarrow> State (\<lambda>w. (net w 0, tick w));
             (case end of
                Done \<Rightarrow> ret (Inr a)
              | Refused \<Rightarrow> do { modify (\<lambda>w. w\<lparr>db := saved\<rparr>); ret (Inl (Failed ConnError)) }
              | Lost \<Rightarrow> ret (Inl (Failed ConnError)))
           })
      })
   }"

text \<open>The usual treatments of a result: an error is returned, a missing row is \<open>ErrNotFound\<close>.\<close>

definition failed :: "sql_error + 'a \<Rightarrow> store_error + 'a" where
  "failed r = (case r of Inl e \<Rightarrow> Inl (Failed e) | Inr a \<Rightarrow> Inr a)"

definition row_or_not_found :: "sql_error + 'a option \<Rightarrow> store_error + 'a" where
  "row_or_not_found r =
     (case r of Inl e \<Rightarrow> Inl (Failed e) | Inr None \<Rightarrow> Inl NotFound | Inr (Some a) \<Rightarrow> Inr a)"

definition conflict_if_unique :: "sql_error + 'a \<Rightarrow> store_error + 'a" where
  "conflict_if_unique r =
     (case r of
        Inl e \<Rightarrow> Inl (if e = UniqueViolation then Conflict else Failed e)
      | Inr a \<Rightarrow> Inr a)"

text \<open>\<open>UPDATE ... WHERE id = $1\<close> that reports whether it met a row.\<close>

definition affected_or_not_found :: "sql_error + nat \<Rightarrow> store_error + unit" where
  "affected_or_not_found r =
     (case r of Inl e \<Rightarrow> Inl (Failed e) | Inr n \<Rightarrow> if n = 0 then Inl NotFound else Inr ())"

text \<open>Inside a transaction: run a statement, and on an error do what the code does with it.\<close>

definition tx_try ::
  "instant \<Rightarrow> 'a stmt \<Rightarrow> (sql_error \<Rightarrow> store_error + 'b) \<Rightarrow> ('a \<Rightarrow> (world, 'b tx_end) action) \<Rightarrow>
   (world, 'b tx_end) action"
where
  "tx_try now st on_err k = do {
     r \<leftarrow> tx_call now st;
     (case r of Inl e \<Rightarrow> ret (Rollback (on_err e)) | Inr a \<Rightarrow> k a)
   }"

abbreviation (input) fail :: "sql_error \<Rightarrow> store_error + 'b" where
  "fail \<equiv> \<lambda>e. Inl (Failed e)"

subsection \<open>Weakest preconditions\<close>

text \<open>
  \<open>wp m Q w\<close>: running \<open>m\<close> in \<open>w\<close> ends with a result and a world that satisfy \<open>Q\<close>. The equations
  compute it along the code; the rules for the round trips forget which of the faults happened.
\<close>

definition wp :: "('w, 'a) action \<Rightarrow> ('a \<Rightarrow> 'w \<Rightarrow> bool) \<Rightarrow> 'w \<Rightarrow> bool" where
  "wp m Q w = (case run_state m w of (a, w') \<Rightarrow> Q a w')"

lemma wpD: "wp m Q w \<Longrightarrow> run_state m w = (a, w') \<Longrightarrow> Q a w'"
  by (simp add: wp_def)

lemma wpI: "(\<And>a w'. run_state m w = (a, w') \<Longrightarrow> Q a w') \<Longrightarrow> wp m Q w"
  by (simp add: wp_def split: prod.split)

lemma wp_ret [simp]: "wp (ret a) Q w = Q a w"
  by (simp add: wp_def)

lemma wp_bind [simp]: "wp (m \<bind> f) Q w = wp m (\<lambda>a. wp (f a) Q) w"
  by (simp add: wp_def split: prod.splits)

lemma wp_gets [simp]: "wp (gets f) Q w = Q (f w) w"
  by (simp add: wp_def)

lemma wp_modify [simp]: "wp (modify f) Q w = Q () (f w)"
  by (simp add: wp_def)

lemma wp_State: "wp (State f) Q w = (case f w of (a, w') \<Rightarrow> Q a w')"
  by (simp add: wp_def)

lemma wp_emit [simp]: "wp (emit x) Q w = Q () (w\<lparr>outbox := outbox w @ [x]\<rparr>)"
  by (simp add: emit_def)

lemma wp_time_now [simp]: "wp time_now Q w = Q (clock w 0) (w\<lparr>clock := pop (clock w)\<rparr>)"
  by (simp add: time_now_def wp_State)

lemma wp_intn [simp]: "wp (intn n) Q w = Q (dice w 0 mod n) (w\<lparr>dice := pop (dice w)\<rparr>)"
  by (simp add: intn_def wp_State)

lemma wp_random_token [simp]:
  "wp random_token Q w = Q (tokens w 0) (w\<lparr>tokens := pop (tokens w)\<rparr>)"
  by (simp add: random_token_def wp_State)

lemma wp_mono: "wp m Q w \<Longrightarrow> (\<And>a w'. Q a w' \<Longrightarrow> Q' a w') \<Longrightarrow> wp m Q' w"
  by (simp add: wp_def split: prod.splits)

lemma wp_conj: "wp m Q w \<Longrightarrow> wp m Q' w \<Longrightarrow> wp m (\<lambda>a w'. Q a w' \<and> Q' a w') w"
  by (simp add: wp_def split: prod.splits)

lemma wp_True [simp]: "wp m (\<lambda>a w'. True) w"
  by (simp add: wp_def split: prod.splits)

lemma wp_sum:
  "(\<And>e. x = Inl e \<Longrightarrow> wp (f e) Q w) \<Longrightarrow> (\<And>a. x = Inr a \<Longrightarrow> wp (g a) Q w) \<Longrightarrow>
   wp (case x of Inl e \<Rightarrow> f e | Inr a \<Rightarrow> g a) Q w"
  by (simp split: sum.split)

lemma wp_option:
  "(x = None \<Longrightarrow> wp m Q w) \<Longrightarrow> (\<And>a. x = Some a \<Longrightarrow> wp (f a) Q w) \<Longrightarrow>
   wp (case x of None \<Rightarrow> m | Some a \<Rightarrow> f a) Q w"
  by (simp split: option.split)

lemma wp_if: "(b \<Longrightarrow> wp m Q w) \<Longrightarrow> (\<not> b \<Longrightarrow> wp n Q w) \<Longrightarrow> wp (if b then m else n) Q w"
  by simp

lemma keeps_wp: "keeps I m \<longleftrightarrow> (\<forall>w. I w \<longrightarrow> wp m (\<lambda>a w'. I w') w)"
  by (simp add: keeps_def wp_def split_beta)

lemma wp_db_call:
  assumes "\<And>a d. st (clock w 0) (uuids w 0) (db w) = Inr (a, d) \<Longrightarrow>
             Q (Inr a) ((tick w)\<lparr>db := d\<rparr>) \<and> Q (Inl ConnError) ((tick w)\<lparr>db := d\<rparr>)"
    and "\<And>e. e = ConnError \<or> st (clock w 0) (uuids w 0) (db w) = Inl e \<Longrightarrow> Q (Inl e) (tick w)"
  shows "wp (db_call st) Q w"
  using assms by (simp add: db_call_def wp_State split: sum.split prod.split outcome.split)

lemma wp_tx_call:
  assumes "\<And>a d. st now (uuids w 0) (db w) = Inr (a, d) \<Longrightarrow> Q (Inr a) ((tick w)\<lparr>db := d\<rparr>)"
    and "\<And>e. e = ConnError \<or> st now (uuids w 0) (db w) = Inl e \<Longrightarrow> Q (Inl e) (tick w)"
  shows "wp (tx_call now st) Q w"
  using assms by (simp add: tx_call_def wp_State split: sum.split prod.split)

lemma wp_tx_try:
  assumes "\<And>a d. st now (uuids w 0) (db w) = Inr (a, d) \<Longrightarrow> wp (k a) Q ((tick w)\<lparr>db := d\<rparr>)"
    and "\<And>e. e = ConnError \<or> st now (uuids w 0) (db w) = Inl e \<Longrightarrow> Q (Rollback (on_err e)) (tick w)"
  shows "wp (tx_try now st on_err k) Q w"
  using assms unfolding tx_try_def wp_bind by (intro wp_tx_call) simp_all

text \<open>
  A transaction commits what its body did, or leaves the database as it was; an error says which of
  the two only when it is not that of the commit.
\<close>

lemma wp_transaction:
  assumes "wp (body (clock w 0))
      (\<lambda>r w'. case r of
         Rollback v \<Rightarrow> Q v (w'\<lparr>db := db w\<rparr>)
       | Commit a \<Rightarrow> Q (Inr a) (tick w') \<and> Q (Inl (Failed ConnError)) (tick w') \<and>
           Q (Inl (Failed ConnError)) ((tick w')\<lparr>db := db w\<rparr>)) (tick w)"
    and "Q (Inl (Failed ConnError)) (tick w)"
  shows "wp (transaction body) Q w"
  using assms(2) wp_mono [OF assms(1)]
  by (simp add: transaction_def wp_State)
     (auto elim!: wp_mono [OF assms(1)] split: tx_end.splits outcome.splits simp: wp_State)

text \<open>A query does not change the database.\<close>

lemma wp_query:
  assumes "Q (Inr (f (db w))) (tick w)" and "\<And>e. Q (Inl e) (tick w)"
  shows "wp (db_call (query f)) Q w"
  using assms by (intro wp_db_call) (auto simp: tick_def)

subsection \<open>A network without faults\<close>

definition reliable :: "world \<Rightarrow> bool" where
  "reliable w \<longleftrightarrow> (\<forall>n. net w n = Done)"

lemma reliable_simps [simp]:
  "reliable (w\<lparr>db := d\<rparr>) = reliable w"
  "reliable (w\<lparr>outbox := ob\<rparr>) = reliable w" "reliable (w\<lparr>clock := c\<rparr>) = reliable w"
  "reliable (w\<lparr>tokens := tk\<rparr>) = reliable w" "reliable (w\<lparr>dice := di\<rparr>) = reliable w"
  "reliable (w\<lparr>limits := l\<rparr>) = reliable w"
  by (simp_all add: reliable_def tick_def)

lemma reliable_tick [simp]: "reliable w \<Longrightarrow> reliable (tick w)"
  by (simp add: reliable_def tick_def)

lemma wp_db_call_reliable:
  assumes "reliable w"
    and "\<And>e. st (clock w 0) (uuids w 0) (db w) = Inl e \<Longrightarrow> Q (Inl e) (tick w)"
    and "\<And>a d. st (clock w 0) (uuids w 0) (db w) = Inr (a, d) \<Longrightarrow> Q (Inr a) ((tick w)\<lparr>db := d\<rparr>)"
  shows "wp (db_call st) Q w"
  using assms by (simp add: db_call_def wp_State reliable_def split: sum.split prod.split)

lemma wp_query_reliable:
  assumes "reliable w" and "Q (Inr (f (db w))) (tick w)"
  shows "wp (db_call (query f)) Q w"
  using assms by (intro wp_db_call_reliable) (auto simp: tick_def)

subsection \<open>Quiet actions\<close>

text \<open>Quiet actions leave the database and the limiter alone: queries, and what goes out.\<close>

definition still :: "world \<Rightarrow> world \<Rightarrow> bool" where
  "still w w' \<longleftrightarrow> db w' = db w \<and> limits w' = limits w \<and> (reliable w \<longrightarrow> reliable w') \<and>
     range (uuids w') \<subseteq> range (uuids w)"

lemma still_trans: "still w w' \<Longrightarrow> still w' w'' \<Longrightarrow> still w w''"
  using subset_trans [of "range (uuids w'')" "range (uuids w')" "range (uuids w)"]
  by (simp add: still_def)

definition quiet :: "(world, 'a) action \<Rightarrow> bool" where
  "quiet m \<longleftrightarrow> (\<forall>w. still w (snd (run_state m w)))"

lemma quiet_wp:
  assumes "quiet m" and "\<And>a w'. db w' = db w \<Longrightarrow> limits w' = limits w \<Longrightarrow>
                          (reliable w \<Longrightarrow> reliable w') \<Longrightarrow> Q a w'"
  shows "wp m Q w"
  using assms by (simp add: quiet_def still_def wp_def split: prod.split) (metis snd_conv)

lemma quiet_still: "quiet m \<Longrightarrow> wp m (\<lambda>a w'. still w w') w"
  by (simp add: quiet_def wp_def split_beta)

lemma quiet_ret [simp, quiet_intros]: "quiet (ret a)"
  by (simp add: quiet_def still_def)

lemma quiet_emit [simp, quiet_intros]: "quiet (emit x)"
  by (simp add: quiet_def still_def emit_def)

lemma quiet_time_now [simp, quiet_intros]: "quiet time_now"
  by (simp add: quiet_def still_def time_now_def)

lemma quiet_intn [simp, quiet_intros]: "quiet (intn n)"
  by (simp add: quiet_def still_def intn_def)

lemma quiet_random_token [simp, quiet_intros]: "quiet random_token"
  by (simp add: quiet_def still_def random_token_def)

lemma quiet_bind [quiet_intros]:
  assumes "quiet m" and "\<And>a. quiet (f a)"
  shows "quiet (m \<bind> f)"
  unfolding quiet_def
proof
  fix w
  obtain a w1 where m: "run_state m w = (a, w1)" by fastforce
  with assms have "still w w1" "still w1 (snd (run_state (f a) w1))" by (auto simp: quiet_def dest: spec [of _ w])
  then show "still w (snd (run_state (m \<bind> f) w))" using m by (simp add: still_trans)
qed

lemma quiet_if [quiet_intros]: "quiet m \<Longrightarrow> quiet n \<Longrightarrow> quiet (if b then m else n)"
  by simp

lemma quiet_query [simp, quiet_intros]: "quiet (db_call (query f))"
  unfolding quiet_def still_def db_call_def using tick_uuids
  by (auto simp: query_def reliable_tick split: outcome.split)

text \<open>Statements that only read.\<close>

definition reads :: "'a stmt \<Rightarrow> bool" where
  "reads st \<longleftrightarrow> (\<forall>now u d a d'. st now u d = Inr (a, d') \<longrightarrow> d' = d)"

lemma reads_cast [quiet_intros]:
  "(\<And>i. reads (\<lambda>now u d. st i now u d)) \<Longrightarrow> reads (\<lambda>now u d. cast_uuid s (\<lambda>i. st i now u d))"
  by (auto simp: reads_def)

lemma reads_query [quiet_intros]: "reads (query f)"
  by (auto simp: reads_def)

lemma reads_Inr [simp, quiet_intros]: "reads (\<lambda>now u d. Inr (f now u d, d))"
  by (auto simp: reads_def)

lemma reads_let: "reads (st x) \<Longrightarrow> reads (let y = x in st y)"
  by simp

lemma quiet_reads [quiet_intros]: "reads st \<Longrightarrow> quiet (db_call st)"
  unfolding quiet_def still_def reads_def db_call_def using tick_uuids
  by (auto split: outcome.split sum.split prod.split simp: reliable_tick)

lemma quiet_sum [quiet_intros]:
  "(\<And>e. quiet (f e)) \<Longrightarrow> (\<And>a. quiet (g a)) \<Longrightarrow> quiet (case x of Inl e \<Rightarrow> f e | Inr a \<Rightarrow> g a)"
  by (simp split: sum.split)

lemma quiet_option [quiet_intros]:
  "quiet m \<Longrightarrow> (\<And>a. quiet (f a)) \<Longrightarrow> quiet (case x of None \<Rightarrow> m | Some a \<Rightarrow> f a)"
  by (simp split: option.split)

lemma quiet_store_error [quiet_intros]:
  "quiet m \<Longrightarrow> quiet n \<Longrightarrow> (\<And>e. quiet (f e)) \<Longrightarrow>
   quiet (case x of NotFound \<Rightarrow> m | Conflict \<Rightarrow> n | Failed e \<Rightarrow> f e)"
  by (simp split: store_error.split)

lemma quiet_prod [quiet_intros]: "(\<And>a b. quiet (f a b)) \<Longrightarrow> quiet (case x of (a, b) \<Rightarrow> f a b)"
  by (simp split: prod.split)

lemma keeps_store_error [keeps_intros]:
  "keeps I m \<Longrightarrow> keeps I n \<Longrightarrow> (\<And>e. keeps I (f e)) \<Longrightarrow>
   keeps I (case x of NotFound \<Rightarrow> m | Conflict \<Rightarrow> n | Failed e \<Rightarrow> f e)"
  by (simp split: store_error.split)

lemma keeps_db_call:
  "(\<And>now u d a d'. I d \<Longrightarrow> st now u d = Inr (a, d') \<Longrightarrow> I d') \<Longrightarrow> keeps (\<lambda>w. I (db w)) (db_call st)"
  unfolding keeps_wp by (auto intro!: wp_db_call)

lemma keeps_query [keeps_intros]: "keeps (\<lambda>w. I (db w)) (db_call (query f))"
  by (rule keeps_db_call) auto

lemma keeps_quiet: "quiet m \<Longrightarrow> keeps (\<lambda>w. I (db w)) m"
  by (simp add: keeps_def quiet_def still_def)

subsection \<open>Lookups\<close>

text \<open>What a lookup leaves as it was; it does use up outcomes and clock readings.\<close>

definition undisturbed :: "world \<Rightarrow> world \<Rightarrow> bool" where
  "undisturbed w w' \<longleftrightarrow> db w' = db w \<and> limits w' = limits w \<and> outbox w' = outbox w \<and>
     (reliable w \<longrightarrow> reliable w') \<and> range (clock w') \<subseteq> range (clock w)"

lemma undisturbedD:
  assumes "undisturbed w w'"
  shows "db w' = db w" "reliable w \<Longrightarrow> reliable w'" "t \<in> range (clock w') \<Longrightarrow> t \<in> range (clock w)"
  using assms by (auto simp: undisturbed_def)

lemma undisturbed_refl [simp]: "undisturbed w w"
  by (simp add: undisturbed_def)

lemma undisturbed_trans: "undisturbed w w' \<Longrightarrow> undisturbed w' w'' \<Longrightarrow> undisturbed w w''"
  unfolding undisturbed_def by (metis subset_trans)

lemma undisturbed_tick [simp]: "undisturbed w (tick w)"
  by (auto simp: undisturbed_def) (simp add: tick_def)

lemma wp_time_now_undisturbed:
  assumes "\<And>t w'. undisturbed w w' \<Longrightarrow> t \<in> range (clock w) \<Longrightarrow> Q t w'"
  shows "wp time_now Q w"
proof -
  have "undisturbed w (w\<lparr>clock := pop (clock w)\<rparr>)" by (auto simp: undisturbed_def)
  with assms show ?thesis by simp
qed

lemma tick_same_db [simp]: "(tick w)\<lparr>db := db w\<rparr> = tick w"
  by (simp add: tick_def)

text \<open>
  A reading statement, whose answer depends neither on the time nor on the uuid it is given: either
  it answers from the database, or there was a fault.
\<close>

lemma wp_read:
  assumes "reads st" and "\<And>now u. st now u (db w) = st 0 0 (db w)"
    and "\<And>r w'. undisturbed w w' \<Longrightarrow>
           r = map_sum (\<lambda>e. e) fst (st 0 0 (db w)) \<or> \<not> reliable w \<and> r = Inl ConnError \<Longrightarrow> Q r w'"
  shows "wp (db_call st) Q w"
proof -
  have st: "st (clock w 0) (uuids w 0) (db w) = st 0 0 (db w)" by (rule assms(2))
  have rel: "reliable w \<Longrightarrow> net w 0 = Done" by (simp add: reliable_def)
  show ?thesis
  proof (cases "st 0 0 (db w)")
    case (Inl e)
    then show ?thesis
      using st rel assms(3) [of "tick w"] by (auto simp: db_call_def wp_State)
  next
    case (Inr ad)
    moreover obtain a d where "ad = (a, d)" by fastforce
    moreover from this Inr assms(1) have "d = db w" by (auto simp: reads_def)
    ultimately have ok: "Q (Inr a) (tick w)" and fault: "\<not> reliable w \<Longrightarrow> Q (Inl ConnError) (tick w)"
      and eq: "st (clock w 0) (uuids w 0) (db w) = Inr (a, db w)"
      using st assms(3) [of "tick w"] by auto
    show ?thesis
      using ok fault rel eq by (cases "net w 0") (auto simp: db_call_def wp_State)
  qed
qed

lemma wp_sure_read:
  assumes "reliable w" and "reads st" and "\<And>now u. st now u (db w) = st 0 0 (db w)"
    and "st 0 0 (db w) = Inr (a, d)" and "\<And>w'. undisturbed w w' \<Longrightarrow> Q (Inr a) w'"
  shows "wp (db_call st) Q w"
  using assms by (intro wp_read [OF assms(2,3)]) auto

lemma row_or_not_found_Inr [simp]: "row_or_not_found r = Inr a \<longleftrightarrow> r = Inr (Some a)"
  by (auto simp: row_or_not_found_def split: sum.split option.split)

lemma failed_Inr [simp]: "failed r = Inr a \<longleftrightarrow> r = Inr a"
  by (auto simp: failed_def split: sum.split)

lemma failed_simps: "failed (Inr a) = Inr a" "failed (Inl e) = Inl (Failed e)"
  by (simp_all add: failed_def)

lemma map_sum_fst_Inr [simp]: "map_sum f fst r = Inr a \<longleftrightarrow> (\<exists>d. r = Inr (a, d))"
  by (cases r) auto

text \<open>A statement whose error is returned: \<open>if err != nil { return ..., err }\<close>.\<close>

definition or_fail ::
  "'a stmt \<Rightarrow> ('a \<Rightarrow> (world, store_error + 'b) action) \<Rightarrow> (world, store_error + 'b) action"
where
  "or_fail st k = do {
     r \<leftarrow> db_call st;
     (case r of Inl e \<Rightarrow> ret (Inl (Failed e)) | Inr a \<Rightarrow> k a)
   }"

lemma wp_or_fail:
  assumes "reads st" and "\<And>now u. st now u (db w) = st 0 0 (db w)"
    and "\<And>a d w'. undisturbed w w' \<Longrightarrow> st 0 0 (db w) = Inr (a, d) \<Longrightarrow> wp (k a) Q w'"
    and "\<And>e w'. undisturbed w w' \<Longrightarrow> (reliable w \<Longrightarrow> st 0 0 (db w) = Inl e) \<Longrightarrow> Q (Inl (Failed e)) w'"
  shows "wp (or_fail st k) Q w"
  unfolding or_fail_def wp_bind
proof (rule wp_read [OF assms(1,2)])
  fix r w'
  assume "undisturbed w w'"
    and "r = map_sum (\<lambda>e. e) fst (st 0 0 (db w)) \<or> \<not> reliable w \<and> r = Inl ConnError"
  then show "wp (case r of Inl e \<Rightarrow> ret (Inl (Failed e)) | Inr a \<Rightarrow> k a) Q w'"
    using assms(3,4) by (cases "st 0 0 (db w)") auto
qed

lemma quiet_or_fail [quiet_intros]: "reads st \<Longrightarrow> (\<And>a. quiet (k a)) \<Longrightarrow> quiet (or_fail st k)"
  unfolding or_fail_def by (intro quiet_intros)

end
