(* ===== verification/Invariants.thy ===== *)
theory Invariants
  imports World
begin

text \<open>
  Invariants of the database that every piece of a program keeps. An invariant may speak of the ids
  the server will hand out from now on (\<open>gen_random_uuid()\<close>), which become fewer with every round
  trip; the locale has the rules that carry such an invariant through the code, whatever fails.
\<close>

definition ids_left :: "world \<Rightarrow> uuid set" where
  "ids_left w = range (uuids w)"

lemma ids_left_simps [simp]: "ids_left (w\<lparr>db := d\<rparr>) = ids_left w" "uuids w n \<in> ids_left w"
  by (simp_all add: ids_left_def)

lemma ids_left_tick [simp]: "ids_left (tick w) \<subseteq> ids_left w"
  by (simp add: ids_left_def tick_uuids)

definition holds :: "(uuid set \<Rightarrow> database \<Rightarrow> bool) \<Rightarrow> world \<Rightarrow> bool" where
  "holds I w \<longleftrightarrow> I (ids_left w) (db w)"

definition preserves :: "(uuid set \<Rightarrow> database \<Rightarrow> bool) \<Rightarrow> (world, 'a) action \<Rightarrow> bool" where
  "preserves I m \<longleftrightarrow>
     (\<forall>w. holds I w \<longrightarrow> wp m (\<lambda>_ w'. ids_left w' \<subseteq> ids_left w \<and> holds I w') w)"

text \<open>A statement that keeps the invariant with the id it is given.\<close>

definition stmt_keeps :: "(uuid set \<Rightarrow> database \<Rightarrow> bool) \<Rightarrow> 'a stmt \<Rightarrow> bool" where
  "stmt_keeps I st \<longleftrightarrow>
     (\<forall>now u U d a d'. I U d \<longrightarrow> u \<in> U \<longrightarrow> st now u d = Inr (a, d') \<longrightarrow> I U d')"

lemma stmt_keepsI:
  "(\<And>now u U d a d'. I U d \<Longrightarrow> u \<in> U \<Longrightarrow> st now u d = Inr (a, d') \<Longrightarrow> I U d') \<Longrightarrow> stmt_keeps I st"
  by (auto simp: stmt_keeps_def)

lemma stmt_keepsD: "stmt_keeps I st \<Longrightarrow> I U d \<Longrightarrow> u \<in> U \<Longrightarrow> st now u d = Inr (a, d') \<Longrightarrow> I U d'"
  by (auto simp: stmt_keeps_def)

lemma preservesI:
  "(\<And>w. holds I w \<Longrightarrow> wp m (\<lambda>_ w'. ids_left w' \<subseteq> ids_left w \<and> holds I w') w) \<Longrightarrow> preserves I m"
  by (simp add: preserves_def)

lemma preservesD:
  "preserves I m \<Longrightarrow> holds I w \<Longrightarrow> wp m (\<lambda>_ w'. ids_left w' \<subseteq> ids_left w \<and> holds I w') w"
  by (simp add: preserves_def)

lemma preserves_run: "preserves I m \<Longrightarrow> holds I w \<Longrightarrow> run_state m w = (a, w') \<Longrightarrow> holds I w'"
  by (drule (1) preservesD) (auto dest: wpD)

subsection \<open>Along the code\<close>

named_theorems preserves_intros \<open>rules that show that code preserves an invariant\<close>

lemma preserves_ret [preserves_intros]: "preserves I (ret a)"
  by (simp add: preserves_def)

lemma preserves_bind [preserves_intros]:
  assumes "preserves I m" and "\<And>a. preserves I (f a)"
  shows "preserves I (m \<bind> f)"
proof (rule preservesI, unfold wp_bind)
  fix w assume "holds I w"
  from preservesD [OF assms(1) this]
  show "wp m (\<lambda>a. wp (f a) (\<lambda>_ w'. ids_left w' \<subseteq> ids_left w \<and> holds I w')) w"
  proof (rule wp_mono, elim conjE)
    fix a and w' :: world
    assume le: "ids_left w' \<subseteq> ids_left w" and "holds I w'"
    from preservesD [OF assms(2) this(2)]
    show "wp (f a) (\<lambda>_ w'. ids_left w' \<subseteq> ids_left w \<and> holds I w') w'"
      by (rule wp_mono) (use le in blast)
  qed
qed

lemma preserves_if [preserves_intros]:
  "preserves I m \<Longrightarrow> preserves I n \<Longrightarrow> preserves I (if b then m else n)"
  by simp

lemma preserves_sum [preserves_intros]:
  "(\<And>e. preserves I (f e)) \<Longrightarrow> (\<And>a. preserves I (g a)) \<Longrightarrow>
   preserves I (case x of Inl e \<Rightarrow> f e | Inr a \<Rightarrow> g a)"
  by (simp split: sum.split)

lemma preserves_option [preserves_intros]:
  "preserves I m \<Longrightarrow> (\<And>a. preserves I (f a)) \<Longrightarrow>
   preserves I (case x of None \<Rightarrow> m | Some a \<Rightarrow> f a)"
  by (simp split: option.split)

lemma preserves_store_error [preserves_intros]:
  "preserves I m \<Longrightarrow> preserves I n \<Longrightarrow> (\<And>e. preserves I (f e)) \<Longrightarrow>
   preserves I (case x of NotFound \<Rightarrow> m | Conflict \<Rightarrow> n | Failed e \<Rightarrow> f e)"
  by (simp split: store_error.split)

lemma preserves_prod [preserves_intros]:
  "(\<And>a b. preserves I (f a b)) \<Longrightarrow> preserves I (case x of (a, b) \<Rightarrow> f a b)"
  by (simp split: prod.split)

lemma preserves_let [preserves_intros]: "preserves I (f x) \<Longrightarrow> preserves I (let y = x in f y)"
  by simp

text \<open>A conjunction of invariants, and what is known of the whole of a piece of code.\<close>

lemma preserves_conj:
  "preserves I m \<Longrightarrow> preserves J m \<Longrightarrow> preserves (\<lambda>U d. I U d \<and> J U d) m"
  unfolding preserves_def holds_def by (blast intro: wp_mono [OF wp_conj])

lemma preserves_post:
  assumes "preserves (\<lambda>U d. True) m"
    and "\<And>w. holds I w \<Longrightarrow> wp m (\<lambda>_ w'. \<forall>U. I U (db w) \<longrightarrow> I U (db w')) w"
    and "\<And>U V d. I U d \<Longrightarrow> V \<subseteq> U \<Longrightarrow> I V d"
  shows "preserves I m"
proof (rule preservesI)
  fix w assume w: "holds I w"
  have "wp m (\<lambda>_ w'. ids_left w' \<subseteq> ids_left w) w"
    using preservesD [OF assms(1), of w] by (simp add: holds_def)
  from wp_conj [OF this assms(2) [OF w]]
  show "wp m (\<lambda>_ w'. ids_left w' \<subseteq> ids_left w \<and> holds I w') w"
    by (rule wp_mono) (use w assms(3) in \<open>auto simp: holds_def\<close>)
qed

locale db_invariant =
  fixes I :: "uuid set \<Rightarrow> database \<Rightarrow> bool"
  assumes fewer_ids: "I U d \<Longrightarrow> V \<subseteq> U \<Longrightarrow> I V d"
begin

lemma quiet: "quiet m \<Longrightarrow> preserves I m"
  unfolding preserves_def holds_def
proof (intro allI impI)
  fix w assume w: "I (ids_left w) (db w)"
  assume "quiet m"
  then show "wp m (\<lambda>_ w'. ids_left w' \<subseteq> ids_left w \<and> I (ids_left w') (db w')) w"
    by (rule wp_mono [OF quiet_still]) (use w fewer_ids in \<open>simp add: still_def ids_left_def\<close>)
qed

lemma after_tick: "I (ids_left w) d \<Longrightarrow> I (ids_left (tick w)) d"
  by (erule fewer_ids) simp

lemma db_call:
  assumes "stmt_keeps I st"
  shows "preserves I (db_call st)"
proof (rule preservesI)
  fix w assume w: "holds I w"
  have "I (ids_left (tick w)) d" if "st (clock w 0) (uuids w 0) (db w) = Inr (a, d)" for a d
    by (rule after_tick, rule stmt_keepsD [OF assms _ _ that]) (use w in \<open>simp_all add: holds_def\<close>)
  then show "wp (db_call st) (\<lambda>_ w'. ids_left w' \<subseteq> ids_left w \<and> holds I w') w"
    using w by (intro wp_db_call) (auto simp: holds_def intro: after_tick)
qed

lemma tx_try:
  assumes "stmt_keeps I st" and "\<And>a. preserves I (k a)"
  shows "preserves I (tx_try now st on_err k)"
proof (rule preservesI)
  fix w assume w: "holds I w"
  show "wp (tx_try now st on_err k) (\<lambda>_ w'. ids_left w' \<subseteq> ids_left w \<and> holds I w') w"
  proof (rule wp_tx_try)
    fix a d
    assume "st now (uuids w 0) (db w) = Inr (a, d)"
    from stmt_keepsD [OF assms(1) _ _ this] have "holds I (tick w\<lparr>db := d\<rparr>)"
      using w by (simp add: holds_def after_tick)
    from preservesD [OF assms(2) this]
    show "wp (k a) (\<lambda>_ w'. ids_left w' \<subseteq> ids_left w \<and> holds I w') (tick w\<lparr>db := d\<rparr>)"
      by (rule wp_mono) (simp add: subset_trans [OF _ ids_left_tick])
  qed (use w in \<open>simp add: holds_def after_tick\<close>)
qed

lemma transaction:
  assumes "\<And>now. preserves I (body now)"
  shows "preserves I (transaction body)"
proof (rule preservesI)
  fix w assume w: "holds I w"
  then have t: "holds I (tick w)" by (simp add: holds_def after_tick)
  show "wp (transaction body) (\<lambda>_ w'. ids_left w' \<subseteq> ids_left w \<and> holds I w') w"
  proof (rule wp_transaction)
    show "wp (body (clock w 0)) (\<lambda>r w'. case r of
         Rollback v \<Rightarrow> ids_left (w'\<lparr>db := db w\<rparr>) \<subseteq> ids_left w \<and> holds I (w'\<lparr>db := db w\<rparr>)
       | Commit a \<Rightarrow> (ids_left (tick w') \<subseteq> ids_left w \<and> holds I (tick w')) \<and>
           (ids_left (tick w') \<subseteq> ids_left w \<and> holds I (tick w')) \<and>
           ids_left ((tick w')\<lparr>db := db w\<rparr>) \<subseteq> ids_left w \<and> holds I ((tick w')\<lparr>db := db w\<rparr>))
       (tick w)"
    proof (rule wp_mono [OF preservesD [OF assms t]], elim conjE)
      fix r and w' :: world
      assume le: "ids_left w' \<subseteq> ids_left (tick w)" and h: "holds I w'"
      have w1: "ids_left w' \<subseteq> ids_left w" using le ids_left_tick by (rule subset_trans)
      have w2: "ids_left (tick w') \<subseteq> ids_left w" using ids_left_tick w1 by (rule subset_trans)
      have "holds I (tick w')" using h by (simp add: holds_def after_tick)
      moreover have "I (ids_left w') (db w)" "I (ids_left (tick w')) (db w)"
        using w w1 w2 fewer_ids by (auto simp: holds_def)
      ultimately show "case r of
         Rollback v \<Rightarrow> ids_left (w'\<lparr>db := db w\<rparr>) \<subseteq> ids_left w \<and> holds I (w'\<lparr>db := db w\<rparr>)
       | Commit a \<Rightarrow> (ids_left (tick w') \<subseteq> ids_left w \<and> holds I (tick w')) \<and>
           (ids_left (tick w') \<subseteq> ids_left w \<and> holds I (tick w')) \<and>
           ids_left ((tick w')\<lparr>db := db w\<rparr>) \<subseteq> ids_left w \<and> holds I ((tick w')\<lparr>db := db w\<rparr>)"
        using w1 w2 by (simp add: holds_def split: tx_end.split)
    qed
  qed (use t in simp)
qed

end

subsection \<open>Code that leaves some tables alone\<close>

text \<open>The tables are given by what \<open>rows\<close> reads of the database.\<close>

definition frames :: "(database \<Rightarrow> 'r) \<Rightarrow> (world, 'a) action \<Rightarrow> bool" where
  "frames rows m \<longleftrightarrow> (\<forall>c. preserves (\<lambda>U d. rows d = c) m)"

definition frames_stmt :: "(database \<Rightarrow> 'r) \<Rightarrow> 'a stmt \<Rightarrow> bool" where
  "frames_stmt rows st \<longleftrightarrow> (\<forall>now u d a d'. st now u d = Inr (a, d') \<longrightarrow> rows d' = rows d)"

interpretation frame: db_invariant "\<lambda>U d. rows d = c" for rows and c
  by unfold_locales

lemma frames_stmtI:
  "(\<And>now u d a d'. st now u d = Inr (a, d') \<Longrightarrow> rows d' = rows d) \<Longrightarrow> frames_stmt rows st"
  by (simp add: frames_stmt_def)

lemma frames_stmt_keeps: "frames_stmt rows st \<Longrightarrow> stmt_keeps (\<lambda>U d. rows d = c) st"
  by (auto simp: frames_stmt_def stmt_keeps_def)

lemma frames_preserves:
  assumes "frames rows m" and same: "\<And>U d d'. rows d' = rows d \<Longrightarrow> I U d \<Longrightarrow> I U d'"
    and fewer: "\<And>U V d. I U d \<Longrightarrow> V \<subseteq> U \<Longrightarrow> I V d"
  shows "preserves I m"
proof (rule preservesI)
  fix w assume w: "holds I w"
  have "preserves (\<lambda>U d. rows d = rows (db w)) m"
    using assms(1) unfolding frames_def by blast
  then have "wp m (\<lambda>_ w'. ids_left w' \<subseteq> ids_left w \<and> holds (\<lambda>U d. rows d = rows (db w)) w') w"
    by (rule preservesD) (simp add: holds_def)
  then show "wp m (\<lambda>_ w'. ids_left w' \<subseteq> ids_left w \<and> holds I w') w"
  proof (rule wp_mono, elim conjE)
    fix w' :: world
    assume le: "ids_left w' \<subseteq> ids_left w" and "holds (\<lambda>U d. rows d = rows (db w)) w'"
    then have "I (ids_left w) (db w')" using same w by (simp add: holds_def)
    then show "ids_left w' \<subseteq> ids_left w \<and> holds I w'" using le fewer by (simp add: holds_def)
  qed
qed

lemma frames_weaken:
  assumes "frames rows m" and same: "\<And>d d'. rows d' = rows d \<Longrightarrow> f d' = f d"
  shows "frames f m"
  unfolding frames_def [of f]
proof
  fix c show "preserves (\<lambda>U d. f d = c) m" by (rule frames_preserves [OF assms(1)], drule same, simp_all)
qed

lemma frames_quiet: "quiet m \<Longrightarrow> frames rows m"
  by (simp add: frames_def frame.quiet)

lemma frames_db_call: "frames_stmt rows st \<Longrightarrow> frames rows (db_call st)"
  by (simp add: frames_def frame.db_call frames_stmt_keeps)

lemma frames_tx_try: "frames_stmt rows st \<Longrightarrow> (\<And>a. frames rows (k a)) \<Longrightarrow> frames rows (tx_try now st on_err k)"
  by (simp add: frames_def frame.tx_try frames_stmt_keeps)

lemma frames_transaction: "(\<And>now. frames rows (body now)) \<Longrightarrow> frames rows (transaction body)"
  by (simp add: frames_def frame.transaction)

lemma frames_ret: "frames rows (ret a)"
  by (simp add: frames_def preserves_ret)

lemma frames_bind: "frames rows m \<Longrightarrow> (\<And>a. frames rows (f a)) \<Longrightarrow> frames rows (m \<bind> f)"
  by (simp add: frames_def preserves_bind)

lemma frames_sum:
  "(\<And>e. frames rows (f e)) \<Longrightarrow> (\<And>a. frames rows (g a)) \<Longrightarrow> frames rows (case x of Inl e \<Rightarrow> f e | Inr a \<Rightarrow> g a)"
  by (simp add: frames_def preserves_sum)

lemma frames_option:
  "frames rows m \<Longrightarrow> (\<And>a. frames rows (f a)) \<Longrightarrow> frames rows (case x of None \<Rightarrow> m | Some a \<Rightarrow> f a)"
  by (simp add: frames_def preserves_option)

lemma frames_prod: "(\<And>a b. frames rows (f a b)) \<Longrightarrow> frames rows (case x of (a, b) \<Rightarrow> f a b)"
  by (simp add: frames_def preserves_prod)

lemma frames_if: "frames rows m \<Longrightarrow> frames rows n \<Longrightarrow> frames rows (if b then m else n)"
  by simp

lemmas frames_rules = frames_bind frames_ret frames_db_call frames_stmtI

end
