(* ===== verification/Base64.thy ===== *)
theory Base64
  imports Encodings
begin

text \<open>
  \<open>encoding/base64\<close>, as the program uses it: \<open>StdEncoding\<close> and \<open>RawStdEncoding\<close> for files and
  password hashes, \<open>RawURLEncoding\<close> for tokens. A decoder skips line breaks, as Go's do, and does
  not look at the unused bits of the last character.
\<close>

definition std_alphabet :: string where
  "std_alphabet = ''ABCDEFGHIJKLMNOPQRSTUVWXYZabcdefghijklmnopqrstuvwxyz0123456789+/''"

definition url_alphabet :: string where
  "url_alphabet = ''ABCDEFGHIJKLMNOPQRSTUVWXYZabcdefghijklmnopqrstuvwxyz0123456789-_''"

fun index_in :: "string \<Rightarrow> char \<Rightarrow> nat option" where
  "index_in [] c = None"
| "index_in (x # xs) c = (if x = c then Some 0 else map_option Suc (index_in xs c))"

fun raw_encode :: "string \<Rightarrow> string \<Rightarrow> string" where
  "raw_encode al (a # b # c # r) =
     al ! (byte a div 4) # al ! ((byte a mod 4) * 16 + byte b div 16) #
     al ! ((byte b mod 16) * 4 + byte c div 64) # al ! (byte c mod 64) # raw_encode al r"
| "raw_encode al [a, b] =
     [al ! (byte a div 4), al ! ((byte a mod 4) * 16 + byte b div 16), al ! ((byte b mod 16) * 4)]"
| "raw_encode al [a] = [al ! (byte a div 4), al ! ((byte a mod 4) * 16)]"
| "raw_encode al [] = []"

fun decode_quads :: "nat list \<Rightarrow> string option" where
  "decode_quads (x # y # z # t # r) =
     map_option (\<lambda>s. char_of (x * 4 + y div 16) # char_of ((y mod 16) * 16 + z div 4) #
       char_of ((z mod 4) * 64 + t) # s) (decode_quads r)"
| "decode_quads [x, y, z] = Some [char_of (x * 4 + y div 16), char_of ((y mod 16) * 16 + z div 4)]"
| "decode_quads [x, y] = Some [char_of (x * 4 + y div 16)]"
| "decode_quads [x] = None"
| "decode_quads [] = Some []"

fun digits :: "string \<Rightarrow> string \<Rightarrow> nat list option" where
  "digits al [] = Some []"
| "digits al (c # cs) =
     (case (index_in al c, digits al cs) of (Some n, Some ns) \<Rightarrow> Some (n # ns) | _ \<Rightarrow> None)"

definition is_break :: "char \<Rightarrow> bool" where
  "is_break c \<longleftrightarrow> byte c = 10 \<or> byte c = 13"

definition raw_decode :: "string \<Rightarrow> string \<Rightarrow> string option" where
  "raw_decode al s =
     (case digits al (filter (\<lambda>c. \<not> is_break c) s) of None \<Rightarrow> None | Some ns \<Rightarrow> decode_quads ns)"

text \<open>With padding: the text fills whole groups of four.\<close>

definition pad :: "string \<Rightarrow> string" where
  "pad s = s @ replicate ((4 - length s mod 4) mod 4) (CHR ''='')"

definition unpad :: "string \<Rightarrow> string" where
  "unpad s =
     (if suffix ''=='' s then take (length s - 2) s
      else if suffix ''='' s then take (length s - 1) s else s)"

definition std_encode :: "string \<Rightarrow> string" where
  "std_encode s = pad (raw_encode std_alphabet s)"

definition std_decode :: "string \<Rightarrow> string option" where
  "std_decode s =
     (let t = filter (\<lambda>c. \<not> is_break c) s
      in if length t mod 4 \<noteq> 0 then None else raw_decode std_alphabet (unpad t))"

subsection \<open>Decoding inverts encoding\<close>

definition good_alphabet :: "string \<Rightarrow> bool" where
  "good_alphabet al \<longleftrightarrow> length al = 64 \<and> list_all (\<lambda>n. index_in al (al ! n) = Some n) [0..<64] \<and>
     list_all (\<lambda>c. \<not> is_break c \<and> c \<noteq> CHR ''='') al"

lemma good_std: "good_alphabet std_alphabet"
  by code_simp

lemma good_url: "good_alphabet url_alphabet"
  by code_simp

lemma good_nth:
  assumes "good_alphabet al" and "n < 64"
  shows "index_in al (al ! n) = Some n" "\<not> is_break (al ! n)" "al ! n \<noteq> CHR ''=''"
  using assms by (auto simp: good_alphabet_def list_all_iff)

lemma byte_less: "byte c < 256"
  by simp

text \<open>The six-bit digits of a text, which the encoder writes in its alphabet.\<close>

fun sextets :: "string \<Rightarrow> nat list" where
  "sextets (a # b # c # r) =
     [byte a div 4, (byte a mod 4) * 16 + byte b div 16, (byte b mod 16) * 4 + byte c div 64,
      byte c mod 64] @ sextets r"
| "sextets [a, b] = [byte a div 4, (byte a mod 4) * 16 + byte b div 16, (byte b mod 16) * 4]"
| "sextets [a] = [byte a div 4, (byte a mod 4) * 16]"
| "sextets [] = []"

lemma raw_encode_sextets: "raw_encode al s = map ((!) al) (sextets s)"
  by (induction s rule: sextets.induct) auto

lemma sextet_bounds:
  fixes a b c :: nat
  assumes "a < 256" "b < 256" "c < 256"
  shows "a div 4 < 64" "(a mod 4) * 16 + b div 16 < 64" "(b mod 16) * 4 + c div 64 < 64"
    "(a mod 4) * 16 < 64" "(b mod 16) * 4 < 64"
proof -
  have "a mod 4 < 4" "b div 16 < 16" "b mod 16 < 16" "c div 64 < 4" "a div 4 < 64"
    using assms by (auto simp: less_mult_imp_div_less)
  then show "a div 4 < 64" "(a mod 4) * 16 + b div 16 < 64" "(b mod 16) * 4 + c div 64 < 64"
    "(a mod 4) * 16 < 64" "(b mod 16) * 4 < 64" by linarith+
qed

lemma sextets_range: "n \<in> set (sextets s) \<Longrightarrow> n < 64"
  by (induction s rule: sextets.induct) (auto simp: sextet_bounds [OF byte_less byte_less byte_less])

lemma regroup:
  fixes a b c :: nat
  assumes "a < 256" "b < 256" "c < 256"
  shows "a div 4 * 4 + ((a mod 4) * 16 + b div 16) div 16 = a"
    "((a mod 4) * 16 + b div 16) mod 16 * 16 + ((b mod 16) * 4 + c div 64) div 4 = b"
    "((b mod 16) * 4 + c div 64) mod 4 * 64 + c mod 64 = c"
proof -
  have b: "b div 16 < 16" "c div 64 < 4" using assms by (auto simp: less_mult_imp_div_less)
  have "((a mod 4) * 16 + b div 16) div 16 = a mod 4" "((a mod 4) * 16 + b div 16) mod 16 = b div 16"
    "((b mod 16) * 4 + c div 64) div 4 = b mod 16" "((b mod 16) * 4 + c div 64) mod 4 = c div 64"
    using b by simp_all
  then show "a div 4 * 4 + ((a mod 4) * 16 + b div 16) div 16 = a"
    "((a mod 4) * 16 + b div 16) mod 16 * 16 + ((b mod 16) * 4 + c div 64) div 4 = b"
    "((b mod 16) * 4 + c div 64) mod 4 * 64 + c mod 64 = c"
    by simp_all
qed

lemma decode_sextets: "decode_quads (sextets s) = Some s"
proof (induction s rule: sextets.induct)
  case (1 a b c r)
  then show ?case
    using regroup [of "byte a" "byte b" "byte c"] by simp
next
  case (2 a b)
  then show ?case using regroup [of "byte a" "byte b" 0] by simp
next
  case (3 a)
  then show ?case using regroup [of "byte a" 0 0] by simp
qed simp

lemma digits_map:
  assumes "good_alphabet al" and "\<And>n. n \<in> set ns \<Longrightarrow> n < 64"
  shows "digits al (map ((!) al) ns) = Some ns"
  using assms by (induction ns) (auto simp: good_nth)

lemma raw_decode_encode:
  assumes "good_alphabet al"
  shows "raw_decode al (raw_encode al s) = Some s"
proof -
  have "filter (\<lambda>c. \<not> is_break c) (raw_encode al s) = raw_encode al s"
    using good_nth(2) [OF assms] sextets_range by (auto simp: raw_encode_sextets filter_id_conv)
  moreover have "digits al (raw_encode al s) = Some (sextets s)"
    unfolding raw_encode_sextets by (rule digits_map [OF assms]) (rule sextets_range)
  ultimately show ?thesis by (simp add: raw_decode_def decode_sextets)
qed

interpretation raw_std: codec "raw_encode std_alphabet" "raw_decode std_alphabet"
  by unfold_locales (rule raw_decode_encode [OF good_std])

interpretation raw_url: codec "raw_encode url_alphabet" "raw_decode url_alphabet"
  by unfold_locales (rule raw_decode_encode [OF good_url])

lemma length_raw_encode: "length (raw_encode al s) mod 4 \<noteq> 1"
  by (induction al s rule: raw_encode.induct) (auto simp: mod_Suc)

lemma no_padding_in: "good_alphabet al \<Longrightarrow> CHR ''='' \<notin> set (raw_encode al s)"
  using good_nth(3) sextets_range unfolding raw_encode_sextets by fastforce

lemma unpad_pad:
  assumes "CHR ''='' \<notin> set s" and "length s mod 4 \<noteq> 1"
  shows "unpad (pad s) = s"
proof -
  have "length s mod 4 = 0 \<or> length s mod 4 = 2 \<or> length s mod 4 = 3" using assms(2) by linarith
  moreover have "\<not> suffix ''=='' (s @ ''='')" and "\<not> suffix ''='' s"
    using assms(1) by (auto simp: suffix_def append_eq_append_conv2 Cons_eq_append_conv)
  ultimately show ?thesis
    using assms(1) by (auto simp: pad_def unpad_def numeral_2_eq_2 suffix_def)
qed

lemma std_decode_encode: "std_decode (std_encode s) = Some s"
proof -
  let ?e = "raw_encode std_alphabet s"
  have "filter (\<lambda>c. \<not> is_break c) ?e = ?e"
    using good_nth(2) [OF good_std] sextets_range by (auto simp: raw_encode_sextets filter_id_conv)
  then have keep: "filter (\<lambda>c. \<not> is_break c) (pad ?e) = pad ?e"
    by (simp add: pad_def is_break_def)
  have "length (pad ?e) mod 4 = 0"
    by (simp add: pad_def) (metis mod_add_left_eq le_add_diff_inverse mod_add_right_eq mod_less_divisor
        mod_self nat_less_le zero_less_numeral)
  then show ?thesis
    using unpad_pad [OF no_padding_in [OF good_std] length_raw_encode]
    by (simp add: std_decode_def std_encode_def keep Let_def raw_std.dec_enc)
qed

interpretation std: codec std_encode std_decode
  by unfold_locales (rule std_decode_encode)

end
