(* ===== verification/Platform.thy ===== *)
theory Platform
  imports Go_Json
begin

text \<open>
  What the program calls and this repository does not contain. The definitions that use it take it
  as their argument \<open>P\<close>, and nothing is assumed of it but what a theorem states.
  \<^item> \<open>sha256\<close>, \<open>hmac\<close>: \<open>crypto/sha256\<close> and HMAC-SHA256 (32 bytes each), as functions of bytes.
  \<^item> \<open>unicode_lower\<close>: \<open>strings.ToLower\<close> on a string with a byte outside ASCII (the Unicode
    tables); on ASCII it is defined in \<open>Flags\<close>.
  \<^item> \<open>rrule_between rule start after before\<close>: what \<open>rrule-go\<close> gives for
    \<open>StrToROption(rule)\<close>, \<open>Dtstart = start\<close>, \<open>NewRRule\<close> and
    \<open>Between(after, before, true)\<close>: the occurrences, or \<open>None\<close> when one of the first two
    reports an error.
\<close>

record platform =
  sha256 :: "string \<Rightarrow> string"
  hmac :: "string \<Rightarrow> string \<Rightarrow> string"
  unicode_lower :: "string \<Rightarrow> string"
  rrule_between :: "string \<Rightarrow> int \<Rightarrow> int \<Rightarrow> int \<Rightarrow> int list option"

text \<open>A concrete platform, for evaluating examples: the identity as hash, no recurrences.\<close>

definition demo_platform :: platform where
  "demo_platform =
     \<lparr>sha256 = (\<lambda>s. s), hmac = (\<lambda>k m. k @ m), unicode_lower = (\<lambda>s. s),
      rrule_between = (\<lambda>_ start lo hi.
        if lo \<le> start \<and> start \<le> hi then Some [start] else Some [])\<rparr>"

end
