(* ===== verification/Flags.thy ===== *)
theory Flags
  imports Platform Encodings
begin

text \<open>
  \<open>internal/core/flags/flags.go\<close>: flags are trimmed, lowercased unless case sensitive, and only
  their SHA-256 is kept. The group of lemmas relates the verification loop to the set of stored
  flags, and says which submissions a stored flag accepts.
\<close>

subsection \<open>The operations\<close>

record flag_spec =
  fs_hash :: string
  fs_case_sensitive :: bool

definition to_lower :: "platform \<Rightarrow> string \<Rightarrow> string" where
  "to_lower P s = (if list_all is_ascii s then map ascii_lower s else unicode_lower P s)"

definition normalize :: "platform \<Rightarrow> string \<Rightarrow> bool \<Rightarrow> string" where
  "normalize P v case_sensitive =
     (let v = trim_space v in if \<not> case_sensitive then to_lower P v else v)"

definition flag_hash :: "platform \<Rightarrow> string \<Rightarrow> bool \<Rightarrow> string" where
  "flag_hash P v case_sensitive = sha256 P (normalize P v case_sensitive)"

text \<open>
  The loop of \<open>Verify\<close> runs over every stored flag without leaving early (its running time must
  not depend on which flag matches), accumulating the answer in \<open>ok\<close>.
\<close>

fun verify_loop :: "string \<Rightarrow> string \<Rightarrow> flag_spec list \<Rightarrow> bool \<Rightarrow> bool" where
  "verify_loop cs ci [] ok = ok"
| "verify_loop cs ci (s # specs) ok =
     (let want = (if \<not> fs_case_sensitive s then ci else cs)
      in verify_loop cs ci specs (if fs_hash s = want then True else ok))"

definition verify :: "platform \<Rightarrow> string \<Rightarrow> flag_spec list \<Rightarrow> bool" where
  "verify P submission specs =
     verify_loop (flag_hash P submission True) (flag_hash P submission False) specs False"

definition team_flag :: "platform \<Rightarrow> string \<Rightarrow> string \<Rightarrow> string \<Rightarrow> string \<Rightarrow> string" where
  "team_flag P secret eventID teamID ecID =
     (let sum = hmac P secret (eventID @ '':'' @ teamID @ '':'' @ ecID)
      in ''flag{'' @ take 24 (hex_encode sum) @ ''}'')"

subsection \<open>Verification\<close>

lemma verify_loop_iff:
  "verify_loop cs ci specs ok \<longleftrightarrow>
     ok \<or> (\<exists>s \<in> set specs. fs_hash s = (if fs_case_sensitive s then cs else ci))"
  by (induction specs arbitrary: ok) (auto simp: Let_def)

lemma verify_iff:
  "verify P sub specs \<longleftrightarrow> (\<exists>s \<in> set specs. fs_hash s = flag_hash P sub (fs_case_sensitive s))"
  by (auto simp: verify_def verify_loop_iff split: if_splits) metis+

lemma verify_Nil [simp]: "\<not> verify P sub []"
  by (simp add: verify_iff)

text \<open>What the author typed and what a stored flag holds of it.\<close>

definition stored :: "platform \<Rightarrow> string \<Rightarrow> bool \<Rightarrow> flag_spec" where
  "stored P v cs = \<lparr>fs_hash = flag_hash P v cs, fs_case_sensitive = cs\<rparr>"

lemma normalize_trim [simp]: "normalize P (trim_space v) cs = normalize P v cs"
  by (simp add: normalize_def)

lemma verify_stored:
  "verify P sub (map (\<lambda>f. stored P (fst f) (snd f)) fs) \<longleftrightarrow>
     (\<exists>f \<in> set fs. flag_hash P (fst f) (snd f) = flag_hash P sub (snd f))"
  by (simp add: verify_iff stored_def)

text \<open>
  C25. A submission is accepted exactly when it agrees with one of the challenge's flags (a text,
  and whether case matters) after both are trimmed and, for a flag that is not case sensitive,
  lowercased, provided the hash does not send the two different texts in question to the same
  digest.
\<close>

theorem verify_accepts:
  assumes "\<And>f. f \<in> set fs \<Longrightarrow>
             sha256 P (normalize P (fst f) (snd f)) = sha256 P (normalize P sub (snd f)) \<Longrightarrow>
             normalize P (fst f) (snd f) = normalize P sub (snd f)"
  shows "verify P sub (map (\<lambda>f. stored P (fst f) (snd f)) fs) \<longleftrightarrow>
           (\<exists>f \<in> set fs. normalize P (fst f) (snd f) = normalize P sub (snd f))"
  unfolding verify_stored flag_hash_def by (metis assms)

theorem verify_accepts_witness:
  "verify demo_platform ''Flag{b}'' (map (\<lambda>f. stored demo_platform (fst f) (snd f))
     [(''flag{a}'', True), (''FLAG{B}'', False)])"
proof -
  have "trim_space ''Flag{b}'' = ''Flag{b}''" "trim_space ''FLAG{B}'' = ''FLAG{B}''"
    by (simp_all add: trim_space_printable printable_def)
  moreover have "to_lower demo_platform ''Flag{b}'' = to_lower demo_platform ''FLAG{B}''"
    by code_simp
  ultimately have "normalize demo_platform ''FLAG{B}'' False = normalize demo_platform ''Flag{b}'' False"
    by (simp add: normalize_def)
  then show ?thesis
    by (subst verify_accepts) (auto simp: demo_platform_def)
qed

text \<open>
  A dynamic team flag leaked by one team does not validate for another: unless the MAC of the
  two messages agrees in its first 12 bytes, two teams (or two events, or two challenges) have
  different flags. Ids have no colon, so different ids give different messages.
\<close>

theorem team_flag_distinct:
  assumes "CHR '':'' \<notin> set ev" "CHR '':'' \<notin> set ev'" "CHR '':'' \<notin> set tm" "CHR '':'' \<notin> set tm'"
    and "take 12 (hmac P k (ev @ '':'' @ tm @ '':'' @ ec)) =
         take 12 (hmac P k (ev' @ '':'' @ tm' @ '':'' @ ec')) \<Longrightarrow>
         ev @ '':'' @ tm @ '':'' @ ec = ev' @ '':'' @ tm' @ '':'' @ ec'"
  shows "team_flag P k ev tm ec = team_flag P k ev' tm' ec' \<longleftrightarrow> ev = ev' \<and> tm = tm' \<and> ec = ec'"
proof -
  let ?m = "ev @ '':'' @ tm @ '':'' @ ec" and ?m' = "ev' @ '':'' @ tm' @ '':'' @ ec'"
  have "team_flag P k ev tm ec = team_flag P k ev' tm' ec' \<longleftrightarrow>
      take 24 (hex_encode (hmac P k ?m)) = take 24 (hex_encode (hmac P k ?m'))"
    by (simp add: team_flag_def Let_def)
  also have "\<dots> \<longleftrightarrow> take 12 (hmac P k ?m) = take 12 (hmac P k ?m')"
    using take_hex_encode [of 12] by (simp add: hex.enc_inject)
  also have "\<dots> \<longleftrightarrow> ?m = ?m'"
    using assms(5) by metis
  also have "\<dots> \<longleftrightarrow> ev = ev' \<and> tm = tm' \<and> ec = ec'"
    using assms(1-4) by (auto dest!: colon_join_inj)
  finally show ?thesis .
qed

theorem team_flag_distinct_witness:
  "team_flag demo_platform [] ''e'' ''t1'' ''c'' \<noteq> team_flag demo_platform [] ''e'' ''t2'' ''c''"
  by (subst team_flag_distinct) (simp_all add: demo_platform_def)

end
