(* ===== verification/Store.thy ===== *)
theory Store
  imports World
begin

text \<open>
  \<open>internal/store/store.go\<close> (users, sessions, events, challenges, flags) and
  \<open>teams_global.go\<close>. Each method is one statement; rows that a query does not order come in
  insertion order, and so do rows that agree in what it orders by.
\<close>

subsection \<open>Organizations and users\<close>

definition DefaultOrgID :: "(world, store_error + string) action" where
  "DefaultOrgID = do {
     r \<leftarrow> db_call (query (\<lambda>d.
       map_option (\<lambda>x. uuid_text (o_id x)) (find (\<lambda>x. o_slug x = ''default'') (orgs d))));
     ret (row_or_not_found r)
   }"

definition insert_user :: "string \<Rightarrow> string \<Rightarrow> string \<Rightarrow> string \<Rightarrow> string \<Rightarrow> user stmt" where
  "insert_user orgID email displayName passwordHash role now u d =
     cast_uuid orgID (\<lambda>org.
       require (fresh_key u_id u (users d)) UniqueViolation (
       require (fresh_key (\<lambda>r. (u_org r, u_email r)) (org, email) (users d)) UniqueViolation (
       require (exists_row o_id org (orgs d)) ForeignKeyViolation (
       let row = \<lparr>u_id = u, u_org = org, u_email = email, u_name = displayName,
                  u_hash = passwordHash, u_role = role, u_created = now\<rparr>
       in Inr (row, d\<lparr>users := users d @ [row]\<rparr>)))))"

definition CreateUser ::
  "string \<Rightarrow> string \<Rightarrow> string \<Rightarrow> string \<Rightarrow> string \<Rightarrow> (world, store_error + user) action"
where
  "CreateUser orgID email displayName passwordHash role = do {
     r \<leftarrow> db_call (insert_user orgID email displayName passwordHash role);
     ret (conflict_if_unique r)
   }"

definition GetUserByEmail :: "string \<Rightarrow> (world, store_error + user) action" where
  "GetUserByEmail email = do {
     r \<leftarrow> db_call (query (\<lambda>d. find (\<lambda>u. u_email u = email) (users d)));
     ret (row_or_not_found r)
   }"

definition GetUserByID :: "string \<Rightarrow> (world, store_error + user) action" where
  "GetUserByID userID = do {
     r \<leftarrow> db_call (\<lambda>now u d. cast_uuid userID (\<lambda>i. Inr (find (\<lambda>u. u_id u = i) (users d), d)));
     ret (row_or_not_found r)
   }"

subsection \<open>Sessions\<close>

definition CreateSession :: "string \<Rightarrow> string \<Rightarrow> instant \<Rightarrow> (world, store_error + unit) action" where
  "CreateSession tokenHash userID expiresAt = do {
     r \<leftarrow> db_call (\<lambda>now u d. cast_uuid userID (\<lambda>i.
       require (fresh_key s_token tokenHash (sessions d)) UniqueViolation (
       require (exists_row u_id i (users d)) ForeignKeyViolation (
       Inr ((), d\<lparr>sessions := sessions d @
         [\<lparr>s_token = tokenHash, s_user = i, s_expires = expiresAt\<rparr>]\<rparr>)))));
     ret (failed r)
   }"

definition session_user :: "instant \<Rightarrow> string \<Rightarrow> database \<Rightarrow> user option" where
  "session_user now tokenHash d =
     (case find (\<lambda>s. s_token s = tokenHash \<and> s_expires s > now) (sessions d) of
        None \<Rightarrow> None
      | Some s \<Rightarrow> find (\<lambda>u. u_id u = s_user s) (users d))"

definition SessionUser :: "string \<Rightarrow> (world, store_error + user) action" where
  "SessionUser tokenHash = do {
     r \<leftarrow> db_call (\<lambda>now u d. Inr (session_user now tokenHash d, d));
     ret (row_or_not_found r)
   }"

definition DeleteSession :: "string \<Rightarrow> (world, store_error + unit) action" where
  "DeleteSession tokenHash = do {
     r \<leftarrow> db_call (\<lambda>now u d.
       Inr ((), d\<lparr>sessions := filter (\<lambda>s. s_token s \<noteq> tokenHash) (sessions d)\<rparr>));
     ret (failed r)
   }"

subsection \<open>Events\<close>

definition CreateEvent ::
  "string \<Rightarrow> string \<Rightarrow> string \<Rightarrow> instant option \<Rightarrow> instant option \<Rightarrow> instant option \<Rightarrow> int \<Rightarrow>
   (world, store_error + event) action"
where
  "CreateEvent orgID slug name startsAt endsAt freezeAt firstBloodBonus = do {
     r \<leftarrow> db_call (\<lambda>now u d. cast_uuid orgID (\<lambda>org.
       require (int4_ok firstBloodBonus) OutOfRange (
       require (fresh_key e_id u (events d)) UniqueViolation (
       require (fresh_key (\<lambda>e. (e_org e, e_slug e)) (org, slug) (events d)) UniqueViolation (
       require (exists_row o_id org (orgs d)) ForeignKeyViolation (
       let row = \<lparr>e_id = u, e_org = org, e_slug = slug, e_name = name, e_state = ''draft'',
                  e_starts = startsAt, e_ends = endsAt, e_freeze = freezeAt,
                  e_bonus = firstBloodBonus, e_created = now\<rparr>
       in Inr (row, d\<lparr>events := events d @ [row]\<rparr>)))))));
     ret (conflict_if_unique r)
   }"

definition GetEvent :: "string \<Rightarrow> (world, store_error + event) action" where
  "GetEvent eventID = do {
     r \<leftarrow> db_call (\<lambda>now u d. cast_uuid eventID (\<lambda>i. Inr (find (\<lambda>e. e_id e = i) (events d), d)));
     ret (row_or_not_found r)
   }"

definition ListEvents :: "string \<Rightarrow> (world, store_error + event list) action" where
  "ListEvents orgID = do {
     r \<leftarrow> db_call (\<lambda>now u d. cast_uuid orgID (\<lambda>org.
       Inr (sort_key (\<lambda>e. - e_created e) (filter (\<lambda>e. e_org e = org) (events d)), d)));
     ret (failed r)
   }"

definition SetEventState :: "string \<Rightarrow> string \<Rightarrow> (world, store_error + unit) action" where
  "SetEventState eventID state = do {
     r \<leftarrow> db_call (\<lambda>now u d. cast_uuid eventID (\<lambda>i.
       Inr (count_where (\<lambda>e. e_id e = i) (events d),
            d\<lparr>events := update_where (\<lambda>e. e_id e = i) (\<lambda>e. e\<lparr>e_state := state\<rparr>) (events d)\<rparr>)));
     ret (affected_or_not_found r)
   }"

subsection \<open>Challenges and flags\<close>

text \<open>A new row of \<open>event_challenges\<close>; the columns an insert does not give have their defaults.\<close>

definition new_challenge :: "instant \<Rightarrow> uuid \<Rightarrow> uuid \<Rightarrow> challenge" where
  "new_challenge now u ev =
     \<lparr>c_id = u, c_event = ev, c_title = [], c_category = ''misc'', c_desc = [], c_state = ''draft'',
      c_scoring = JObj [(''type'', JStr ''static''), (''points'', JInt 100)], c_position = 0,
      c_created = now, c_block = None, c_lib = None, c_rev = None, c_tags = [], c_schedule = None,
      c_unlock = None, c_instance = None\<rparr>"

definition insert_challenge :: "challenge \<Rightarrow> database \<Rightarrow> sql_error + challenge \<times> database" where
  "insert_challenge row d =
     require (fresh_key c_id (c_id row) (challenges d)) UniqueViolation (
     require (exists_row e_id (c_event row) (events d)) ForeignKeyViolation (
     Inr (row, d\<lparr>challenges := challenges d @ [row]\<rparr>)))"

definition CreateChallenge ::
  "string \<Rightarrow> string \<Rightarrow> string \<Rightarrow> string \<Rightarrow> json \<Rightarrow> string \<Rightarrow> (world, store_error + challenge) action"
where
  "CreateChallenge eventID title category descMD scoring state = do {
     r \<leftarrow> db_call (\<lambda>now u d. cast_uuid eventID (\<lambda>ev.
       insert_challenge ((new_challenge now u ev)\<lparr>c_title := title, c_category := category,
         c_desc := descMD, c_scoring := scoring, c_state := state\<rparr>) d));
     ret (failed r)
   }"

definition insert_flag :: "string \<Rightarrow> string \<Rightarrow> bool \<Rightarrow> unit stmt" where
  "insert_flag ecID valueHash caseSensitive now u d =
     cast_uuid ecID (\<lambda>ec.
       require (exists_row c_id ec (challenges d)) ForeignKeyViolation (
       Inr ((), d\<lparr>flags := flags d @
         [\<lparr>fl_ec = ec, fl_hash = valueHash, fl_case = caseSensitive\<rparr>]\<rparr>)))"

definition AddFlag :: "string \<Rightarrow> string \<Rightarrow> bool \<Rightarrow> (world, store_error + unit) action" where
  "AddFlag ecID valueHash caseSensitive = do {
     r \<leftarrow> db_call (insert_flag ecID valueHash caseSensitive);
     ret (failed r)
   }"

definition ListChallenges :: "string \<Rightarrow> bool \<Rightarrow> (world, store_error + challenge list) action" where
  "ListChallenges eventID publishedOnly = do {
     r \<leftarrow> db_call (\<lambda>now u d. cast_uuid eventID (\<lambda>ev.
       Inr (sort_key c_position (sort_key c_created
              (filter (\<lambda>c. c_event c = ev \<and> (publishedOnly \<longrightarrow> c_state c = ''published''))
                (challenges d))), d)));
     ret (failed r)
   }"

definition GetChallenge :: "string \<Rightarrow> (world, store_error + challenge) action" where
  "GetChallenge ecID = do {
     r \<leftarrow> db_call (\<lambda>now u d. cast_uuid ecID (\<lambda>ec.
       Inr (find (\<lambda>c. c_id c = ec) (challenges d), d)));
     ret (row_or_not_found r)
   }"

definition ChallengeFlags :: "string \<Rightarrow> (world, store_error + flag list) action" where
  "ChallengeFlags ecID = do {
     r \<leftarrow> db_call (\<lambda>now u d. cast_uuid ecID (\<lambda>ec.
       Inr (filter (\<lambda>f. fl_ec f = ec) (flags d), d)));
     ret (failed r)
   }"

text \<open>An \<open>UPDATE event_challenges SET ... WHERE id = $1\<close>.\<close>

definition update_challenge :: "string \<Rightarrow> (challenge \<Rightarrow> challenge) \<Rightarrow> nat stmt" where
  "update_challenge ecID f now u d =
     cast_uuid ecID (\<lambda>ec.
       Inr (count_where (\<lambda>c. c_id c = ec) (challenges d),
            d\<lparr>challenges := update_where (\<lambda>c. c_id c = ec) f (challenges d)\<rparr>))"

definition SetChallengeState :: "string \<Rightarrow> string \<Rightarrow> (world, store_error + unit) action" where
  "SetChallengeState ecID state = do {
     r \<leftarrow> db_call (update_challenge ecID (\<lambda>c. c\<lparr>c_state := state\<rparr>));
     ret (affected_or_not_found r)
   }"

subsection \<open>Teams (\<open>teams_global.go\<close>)\<close>

definition CreateTeam :: "string \<Rightarrow> string \<Rightarrow> string \<Rightarrow> (world, store_error + team) action" where
  "CreateTeam orgID name inviteCode = do {
     r \<leftarrow> db_call (\<lambda>now u d. cast_uuid orgID (\<lambda>org.
       require (fresh_key tm_id u (teams d)) UniqueViolation (
       require (fresh_key tm_invite inviteCode (teams d)) UniqueViolation (
       require (fresh_key (\<lambda>t. (tm_org t, tm_name t)) (org, name) (teams d)) UniqueViolation (
       require (exists_row o_id org (orgs d)) ForeignKeyViolation (
       let row = \<lparr>tm_id = u, tm_org = org, tm_name = name, tm_invite = inviteCode,
                  tm_created = now\<rparr>
       in Inr (row, d\<lparr>teams := teams d @ [row]\<rparr>)))))));
     ret (conflict_if_unique r)
   }"

definition TeamByInvite :: "string \<Rightarrow> (world, store_error + team) action" where
  "TeamByInvite code = do {
     r \<leftarrow> db_call (query (\<lambda>d. find (\<lambda>t. tm_invite t = code) (teams d)));
     ret (row_or_not_found r)
   }"

definition AddTeamMember :: "string \<Rightarrow> string \<Rightarrow> string \<Rightarrow> (world, store_error + unit) action" where
  "AddTeamMember userID teamID role = do {
     r \<leftarrow> db_call (\<lambda>now u d. cast_uuid userID (\<lambda>us. cast_uuid teamID (\<lambda>tm.
       require (fresh_key mb_user us (members d)) UniqueViolation (
       require (exists_row u_id us (users d)) ForeignKeyViolation (
       require (exists_row tm_id tm (teams d)) ForeignKeyViolation (
       Inr ((), d\<lparr>members := members d @ [\<lparr>mb_user = us, mb_team = tm, mb_role = role\<rparr>]\<rparr>)))))));
     ret (conflict_if_unique r)
   }"

text \<open>The team a user is a member of, with the user's role in it.\<close>

definition user_team :: "uuid \<Rightarrow> database \<Rightarrow> (team \<times> string) option" where
  "user_team us d =
     (case find (\<lambda>m. mb_user m = us) (members d) of
        None \<Rightarrow> None
      | Some m \<Rightarrow> map_option (\<lambda>t. (t, mb_role m)) (find (\<lambda>t. tm_id t = mb_team m) (teams d)))"

definition UserTeam :: "string \<Rightarrow> (world, store_error + team \<times> string) action" where
  "UserTeam userID = do {
     r \<leftarrow> db_call (\<lambda>now u d. cast_uuid userID (\<lambda>us. Inr (user_team us d, d)));
     ret (row_or_not_found r)
   }"

text \<open>
  \<open>ORDER BY\<close> a name: strings are compared byte by byte (the C collation; a database with another
  locale orders names by that).
\<close>

fun name_le :: "string \<Rightarrow> string \<Rightarrow> bool" where
  "name_le [] ys = True"
| "name_le (x # xs) [] = False"
| "name_le (x # xs) (y # ys) = (byte x < byte y \<or> (byte x = byte y \<and> name_le xs ys))"

fun insert_by :: "('r \<Rightarrow> 'r \<Rightarrow> bool) \<Rightarrow> 'r \<Rightarrow> 'r list \<Rightarrow> 'r list" where
  "insert_by le x [] = [x]"
| "insert_by le x (y # ys) = (if le x y then x # y # ys else y # insert_by le x ys)"

definition order_by :: "('r \<Rightarrow> 'r \<Rightarrow> bool) \<Rightarrow> 'r list \<Rightarrow> 'r list" where
  "order_by le rows = foldr (insert_by le) rows []"

lemma set_insert_by [simp]: "set (insert_by le x xs) = insert x (set xs)"
  by (induction xs) auto

lemma length_insert_by [simp]: "length (insert_by le x xs) = Suc (length xs)"
  by (induction xs) auto

lemma order_by_simps [simp]: "order_by le [] = []" "order_by le (x # xs) = insert_by le x (order_by le xs)"
  by (simp_all add: order_by_def)

lemma set_order_by [simp]: "set (order_by le xs) = set xs"
  by (induction xs) simp_all

lemma length_order_by [simp]: "length (order_by le xs) = length xs"
  by (induction xs) simp_all

text \<open>The queries that list teams do not select the invite code.\<close>

definition hide_invite :: "team \<Rightarrow> team" where
  "hide_invite t = t\<lparr>tm_invite := []\<rparr>"

definition ListOrgTeams :: "string \<Rightarrow> (world, store_error + team list) action" where
  "ListOrgTeams orgID = do {
     r \<leftarrow> db_call (\<lambda>now u d. cast_uuid orgID (\<lambda>org.
       Inr (map hide_invite (order_by (\<lambda>s t. name_le (tm_name s) (tm_name t))
              (filter (\<lambda>t. tm_org t = org) (teams d))), d)));
     ret (failed r)
   }"

text \<open>The teams assigned to an event: \<open>event_teams et JOIN teams t ON t.id = et.team_id\<close>.\<close>

definition teams_of :: "uuid \<Rightarrow> database \<Rightarrow> team list" where
  "teams_of ev d =
     concat (map (\<lambda>x. filter (\<lambda>t. tm_id t = et_team x) (teams d))
       (filter (\<lambda>x. et_event x = ev) (event_teams d)))"

definition ListTeams :: "string \<Rightarrow> (world, store_error + team list) action" where
  "ListTeams eventID = do {
     r \<leftarrow> db_call (\<lambda>now u d. cast_uuid eventID (\<lambda>ev.
       Inr (map hide_invite (order_by (\<lambda>s t. name_le (tm_name s) (tm_name t)) (teams_of ev d)), d)));
     ret (failed r)
   }"

definition AssignEventTeam :: "string \<Rightarrow> string \<Rightarrow> (world, store_error + unit) action" where
  "AssignEventTeam eventID teamID = do {
     r \<leftarrow> db_call (\<lambda>now u d. cast_uuid eventID (\<lambda>ev. cast_uuid teamID (\<lambda>tm.
       if \<not> fresh_key (\<lambda>x. (et_event x, et_team x)) (ev, tm) (event_teams d) then Inr ((), d)
       else
         require (exists_row e_id ev (events d)) ForeignKeyViolation (
         require (exists_row tm_id tm (teams d)) ForeignKeyViolation (
         Inr ((), d\<lparr>event_teams := event_teams d @ [\<lparr>et_event = ev, et_team = tm\<rparr>]\<rparr>))))));
     ret (failed r)
   }"

definition UnassignEventTeam :: "string \<Rightarrow> string \<Rightarrow> (world, store_error + unit) action" where
  "UnassignEventTeam eventID teamID = do {
     r \<leftarrow> db_call (\<lambda>now u d. cast_uuid eventID (\<lambda>ev. cast_uuid teamID (\<lambda>tm.
       Inr ((), d\<lparr>event_teams :=
         filter (\<lambda>x. \<not> (et_event x = ev \<and> et_team x = tm)) (event_teams d)\<rparr>))));
     ret (failed r)
   }"

definition player_team :: "uuid \<Rightarrow> uuid \<Rightarrow> database \<Rightarrow> uuid option" where
  "player_team ev us d =
     map_option mb_team (find (\<lambda>m. mb_user m = us \<and>
       list_ex (\<lambda>x. et_team x = mb_team m \<and> et_event x = ev) (event_teams d)) (members d))"

definition PlayerTeamForEvent :: "string \<Rightarrow> string \<Rightarrow> (world, store_error + string) action" where
  "PlayerTeamForEvent eventID userID = do {
     r \<leftarrow> db_call (\<lambda>now u d. cast_uuid eventID (\<lambda>ev. cast_uuid userID (\<lambda>us.
       Inr (map_option uuid_text (player_team ev us d), d))));
     ret (row_or_not_found r)
   }"

definition ListEventsForTeam :: "string \<Rightarrow> string \<Rightarrow> (world, store_error + event list) action" where
  "ListEventsForTeam orgID teamID = do {
     r \<leftarrow> db_call (\<lambda>now u d. cast_uuid orgID (\<lambda>org. cast_uuid teamID (\<lambda>tm.
       Inr (sort_key (\<lambda>e. - e_created e)
              (filter (\<lambda>e. e_org e = org \<and>
                 list_ex (\<lambda>x. et_event x = e_id e \<and> et_team x = tm) (event_teams d)) (events d)), d))));
     ret (failed r)
   }"

subsection \<open>Queries are quiet\<close>

lemma quiet_lookups [simp, quiet_intros]:
  "quiet DefaultOrgID" "quiet (GetUserByEmail email)" "quiet (GetUserByID userID)"
  "quiet (SessionUser h)" "quiet (GetEvent eventID)" "quiet (ListEvents orgID)"
  "quiet (ListChallenges eventID b)" "quiet (GetChallenge ecID)" "quiet (ChallengeFlags ecID)"
  "quiet (TeamByInvite code)" "quiet (UserTeam userID)" "quiet (ListOrgTeams orgID)"
  "quiet (ListTeams eventID)" "quiet (PlayerTeamForEvent eventID userID)"
  "quiet (ListEventsForTeam orgID teamID)"
  unfolding DefaultOrgID_def GetUserByEmail_def GetUserByID_def SessionUser_def GetEvent_def
    ListEvents_def ListChallenges_def GetChallenge_def ChallengeFlags_def TeamByInvite_def
    UserTeam_def ListOrgTeams_def ListTeams_def PlayerTeamForEvent_def ListEventsForTeam_def
  by (intro quiet_intros)+

text \<open>What a found row is.\<close>

lemma wp_GetEvent:
  assumes "\<And>r w'. undisturbed w w' \<Longrightarrow>
      (\<And>e. r = Inr e \<Longrightarrow> \<exists>ev. uuid_in eventID = Some ev \<and> find (\<lambda>e. e_id e = ev) (events (db w)) = Some e)
      \<Longrightarrow> Q r w'"
  shows "wp (GetEvent eventID) Q w"
  unfolding GetEvent_def wp_bind
  by (rule wp_read; (intro quiet_intros)?) (auto simp: cast_uuid_def intro!: assms split: option.splits)

lemma wp_PlayerTeamForEvent:
  assumes "\<And>r w'. undisturbed w w' \<Longrightarrow>
      (\<And>t. r = Inr t \<Longrightarrow> \<exists>ev us tm. uuid_in eventID = Some ev \<and> uuid_in userID = Some us \<and>
         player_team ev us (db w) = Some tm \<and> t = uuid_text tm) \<Longrightarrow> Q r w'"
  shows "wp (PlayerTeamForEvent eventID userID) Q w"
  unfolding PlayerTeamForEvent_def wp_bind
  by (rule wp_read; (intro quiet_intros)?) (auto simp: cast_uuid_def intro!: assms split: option.splits)

lemma wp_GetChallenge:
  assumes "\<And>r w'. undisturbed w w' \<Longrightarrow>
      (\<And>c. r = Inr c \<Longrightarrow> \<exists>ec. uuid_in ecID = Some ec \<and> find (\<lambda>c. c_id c = ec) (challenges (db w)) = Some c)
      \<Longrightarrow> Q r w'"
  shows "wp (GetChallenge ecID) Q w"
  unfolding GetChallenge_def wp_bind
  by (rule wp_read; (intro quiet_intros)?) (auto simp: cast_uuid_def intro!: assms split: option.splits)

lemma wp_ChallengeFlags:
  assumes "\<And>r w'. undisturbed w w' \<Longrightarrow>
      (\<And>fs. r = Inr fs \<Longrightarrow> \<exists>ec. uuid_in ecID = Some ec \<and> fs = filter (\<lambda>f. fl_ec f = ec) (flags (db w)))
      \<Longrightarrow> Q r w'"
  shows "wp (ChallengeFlags ecID) Q w"
  unfolding ChallengeFlags_def wp_bind
  by (rule wp_read; (intro quiet_intros)?) (auto simp: cast_uuid_def intro!: assms split: option.splits)

end
