(* ===== verification/Webhooks.thy ===== *)
theory Webhooks
  imports Store Platform
begin

text \<open>
  The plugins table (\<open>internal/store/plugins.go\<close>) and the signed webhooks that go out to the
  plugins (\<open>deliverWebhook\<close> of \<open>internal/httpserver/plugins.go\<close>), with the replies and the
  server state all handlers share (\<open>internal/httpserver/server.go\<close>).
\<close>

subsection \<open>The plugins table\<close>

definition RegisterPlugin ::
  "string \<Rightarrow> string \<Rightarrow> string \<Rightarrow> string \<Rightarrow> string \<Rightarrow> json option \<Rightarrow> json option \<Rightarrow>
   (world, store_error + unit) action"
where
  "RegisterPlugin pid name baseURL secret tokenHash capabilities subs =
     (let row = \<lparr>p_id = pid, p_name = name, p_base_url = baseURL, p_secret = secret,
                 p_token = tokenHash,
                 p_capabilities = (case capabilities of None \<Rightarrow> JArr [] | Some j \<Rightarrow> j),
                 p_events = (case subs of None \<Rightarrow> JArr [] | Some j \<Rightarrow> j)\<rparr>
      in do {
        r \<leftarrow> db_call (\<lambda>now u d. Inr ((), d\<lparr>plugins :=
          (if fresh_key p_id pid (plugins d) then plugins d @ [row]
           else update_where (\<lambda>p. p_id p = pid) (\<lambda>_. row) (plugins d))\<rparr>));
        ret (failed r)
      })"

definition PluginByToken :: "string \<Rightarrow> (world, store_error + plugin) action" where
  "PluginByToken tokenHash = do {
     r \<leftarrow> db_call (query (\<lambda>d. find (\<lambda>p. p_token p = tokenHash) (plugins d)));
     ret (row_or_not_found r)
   }"

definition ListPlugins :: "(world, store_error + plugin list) action" where
  "ListPlugins = do {
     r \<leftarrow> db_call (query (\<lambda>d. order_by (\<lambda>p q. name_le (p_id p) (p_id q)) (plugins d)));
     ret (failed r)
   }"

subsection \<open>Replies and the server\<close>

text \<open>
  What a handler answers: a problem (status and detail; the title goes with the status), or a
  status with a payload of the handler's own.
\<close>

datatype 'a reply = Problem nat string | Reply nat 'a

fun status :: "'a reply \<Rightarrow> nat" where
  "status (Problem code detail) = code"
| "status (Reply code x) = code"

text \<open>The configuration the handlers read, and whether Redis is there.\<close>

record server =
  sv_session_ttl :: duration
  sv_flag_secret :: string
  sv_instance_ttl :: duration
  sv_instance_max :: int
  sv_secure_cookie :: bool
  sv_redis :: bool

definition publish :: "server \<Rightarrow> string \<Rightarrow> string \<Rightarrow> json \<Rightarrow> (world, unit) action" where
  "publish srv eventID typ data =
     (if \<not> sv_redis srv then ret () else emit (Publish eventID typ data))"

definition scoreChanged :: "server \<Rightarrow> string \<Rightarrow> (world, unit) action" where
  "scoreChanged srv eventID = do {
     (if sv_redis srv then emit (CacheDel (''sb:'' @ eventID)) else ret ());
     publish srv eventID ''scoreboard'' JNull
   }"

definition oneOf :: "string \<Rightarrow> string list \<Rightarrow> bool" where
  "oneOf v opts \<longleftrightarrow> List.member opts v"

definition is_admin :: "user option \<Rightarrow> bool" where
  "is_admin u = (case u of None \<Rightarrow> False | Some u \<Rightarrow> u_role u = ''owner'' \<or> u_role u = ''admin'')"

subsection \<open>Webhooks\<close>

definition subscribed :: "json \<Rightarrow> string \<Rightarrow> bool" where
  "subscribed events_doc typ =
     (case string_list events_doc of None \<Rightarrow> False | Some evs \<Rightarrow> List.member evs typ)"

text \<open>\<open>"sha256=" + hex(HMAC-SHA256(secret, ts + "." + body))\<close>.\<close>

definition sign :: "platform \<Rightarrow> string \<Rightarrow> string \<Rightarrow> string \<Rightarrow> string" where
  "sign P secret ts body = ''sha256='' @ hex_encode (hmac P secret (ts @ ''.'' @ body))"

fun trim_slash :: "string \<Rightarrow> string" where
  "trim_slash s = rev (dropWhile (\<lambda>c. c = CHR ''/'') (rev s))"

text \<open>
  One goroutine per subscribed plugin; the sends are queued in the order the goroutines start. A
  plugin without an address, or not subscribed to the event, gets none.
\<close>

fun send_hooks ::
  "platform \<Rightarrow> string \<Rightarrow> string \<Rightarrow> string \<Rightarrow> plugin list \<Rightarrow> (world, unit) action"
where
  "send_hooks P typ ts body [] = ret ()"
| "send_hooks P typ ts body (p # ps) = do {
     (if p_base_url p = [] \<or> \<not> subscribed (p_events p) typ then ret ()
      else do {
        delivery \<leftarrow> random_token;
        emit (Deliver (trim_slash (p_base_url p) @ ''/hooks'') typ
                (case delivery of None \<Rightarrow> [] | Some d \<Rightarrow> d) ts (sign P (p_secret p) ts body) body)
      });
     send_hooks P typ ts body ps
   }"

definition deliverWebhook :: "platform \<Rightarrow> string \<Rightarrow> json \<Rightarrow> (world, unit) action" where
  "deliverWebhook P typ payload = do {
     r \<leftarrow> ListPlugins;
     (case r of
        Inl e \<Rightarrow> ret ()
      | Inr ps \<Rightarrow> do {
          now \<leftarrow> time_now;
          send_hooks P typ (itoa (now div second)) (marshal payload) ps
        })
   }"

subsection \<open>Effects only\<close>

lemma quiet_publish [simp, quiet_intros]: "quiet (publish srv ev typ data)"
  by (simp add: publish_def)

lemma quiet_scoreChanged [simp, quiet_intros]: "quiet (scoreChanged srv ev)"
  unfolding scoreChanged_def by (intro quiet_intros)

lemma quiet_send_hooks [simp, quiet_intros]: "quiet (send_hooks P typ ts body ps)"
proof (induction ps)
  case (Cons p ps)
  then show ?case unfolding send_hooks.simps by (intro quiet_intros)
qed simp

lemma quiet_ListPlugins [simp, quiet_intros]: "quiet ListPlugins"
  unfolding ListPlugins_def by (intro quiet_intros)

lemma quiet_deliverWebhook [simp, quiet_intros]: "quiet (deliverWebhook P typ payload)"
  unfolding deliverWebhook_def by (intro quiet_intros)

end
