(* ===== verification/Requests.thy ===== *)
theory Requests
  imports Webhooks
begin

text \<open>
  Reading a request's body into a struct, as every handler begins (\<open>decodeJSON\<close> and the 400 that
  follows its error, whose detail is Go's error text and not modelled), and the setters for the
  kinds of field those structs have.
\<close>

subsection \<open>Request bodies\<close>

definition with_body ::
  "(string \<times> 'r setter) list \<Rightarrow> 'r \<Rightarrow> json option \<Rightarrow> ('r \<Rightarrow> (world, 'a reply) action) \<Rightarrow>
   (world, 'a reply) action"
where
  "with_body fs zero body k =
     (case decodeJSON fs zero body of
        None \<Rightarrow> ret (Problem 400 ''bad request'')
      | Some x \<Rightarrow> k x)"

text \<open>A struct inside a struct, and a \<open>map[string]any\<close>, to whose entries those of the document are added.\<close>

definition set_struct :: "('r \<Rightarrow> 's) \<Rightarrow> ('s \<Rightarrow> 'r \<Rightarrow> 'r) \<Rightarrow> (string \<times> 's setter) list \<Rightarrow> 'r setter" where
  "set_struct get upd fs j r = (case decode_struct True fs j (get r) of (x, ok) \<Rightarrow> (upd x r, ok))"

fun set_any_map :: "('r \<Rightarrow> (string \<rightharpoonup> json)) \<Rightarrow> ((string \<rightharpoonup> json) \<Rightarrow> 'r \<Rightarrow> 'r) \<Rightarrow> 'r setter" where
  "set_any_map get upd JNull r = (upd Map.empty r, True)"
| "set_any_map get upd (JObj kvs) r = (upd (get r ++ map_of (rev kvs)) r, True)"
| "set_any_map get upd _ r = (r, False)"

text \<open>A list of strings.\<close>

definition set_strings :: "(string list \<Rightarrow> 'r \<Rightarrow> 'r) \<Rightarrow> 'r setter" where
  "set_strings = set_slice [] (set_string (\<lambda>s _. s))"

text \<open>
  \<open>strconv.Atoi\<close>, and a limit in the query string: out of its range, or no number, it has no
  effect.
\<close>

definition atoi :: "string \<Rightarrow> int option" where
  "atoi s =
     (let negative = (case s of [] \<Rightarrow> False | c # _ \<Rightarrow> c = CHR ''-'');
          signed = (case s of [] \<Rightarrow> False | c # _ \<Rightarrow> c = CHR ''-'' \<or> c = CHR ''+'');
          ds = (if signed then tl s else s);
          n = (if negative then - int (nat_of_digits 0 ds) else int (nat_of_digits 0 ds))
      in if ds \<noteq> [] \<and> list_all is_digit ds \<and> int64_ok n then Some n else None)"

definition query_limit :: "nat \<Rightarrow> nat \<Rightarrow> string \<Rightarrow> nat" where
  "query_limit dflt most v =
     (case atoi v of
        None \<Rightarrow> dflt
      | Some n \<Rightarrow> if 0 < n \<and> n \<le> int most then nat n else dflt)"

lemma query_limit_range: "0 < dflt \<Longrightarrow> dflt \<le> most \<Longrightarrow> 0 < query_limit dflt most v \<and> query_limit dflt most v \<le> most"
  by (auto simp: query_limit_def split: option.split)

end
