(* ===== verification/Demo.thy ===== *)
theory Demo
  imports Webhooks Flags
begin

text \<open>
  A small competition on which examples are evaluated: one event without dates, one player on an
  assigned team, and one published challenge worth 100 points with the flag \<open>flag{a}\<close>.
\<close>

definition demo_user :: user where
  "demo_user = \<lparr>u_id = 2, u_org = 1, u_email = ''p@x'', u_name = ''P'', u_hash = [],
     u_role = ''player'', u_created = 0\<rparr>"

definition demo_event :: event where
  "demo_event = \<lparr>e_id = 4, e_org = 1, e_slug = ''ctf'', e_name = ''CTF'', e_state = ''running'',
     e_starts = None, e_ends = None, e_freeze = None, e_bonus = 50, e_created = 0\<rparr>"

definition demo_challenge :: challenge where
  "demo_challenge = (new_challenge 0 5 4)\<lparr>c_title := ''warmup'', c_state := ''published'',
     c_instance := Some (JObj [(''port'', JInt 80)])\<rparr>"

definition demo_db :: database where
  "demo_db = empty_db\<lparr>orgs := [\<lparr>o_id = 1, o_slug = ''default'', o_name = ''Default Org''\<rparr>],
     users := [demo_user],
     events := [demo_event],
     teams := [\<lparr>tm_id = 3, tm_org = 1, tm_name = ''T'', tm_invite = ''code'', tm_created = 0\<rparr>],
     members := [\<lparr>mb_user = 2, mb_team = 3, mb_role = ''captain''\<rparr>],
     event_teams := [\<lparr>et_event = 4, et_team = 3\<rparr>],
     challenges := [demo_challenge],
     flags := [\<lparr>fl_ec = 5, fl_hash = ''flag{a}'', fl_case = True\<rparr>]\<rparr>"

definition demo_world :: world where
  "demo_world = \<lparr>db = demo_db, net = (\<lambda>_. Done), clock = (\<lambda>_. 1000), uuids = (\<lambda>n. of_nat (100 + n)),
     tokens = (\<lambda>_. Some ''token''), dice = (\<lambda>_. 7), limits = new_limiter 10 minute, outbox = []\<rparr>"

definition demo_server :: server where
  "demo_server = \<lparr>sv_session_ttl = 168 * hour, sv_flag_secret = ''dev-flag-secret'',
     sv_instance_ttl = 45 * minute, sv_instance_max = 100, sv_secure_cookie = False,
     sv_redis = True\<rparr>"

lemmas demo_defs = demo_world_def demo_db_def demo_user_def demo_event_def demo_challenge_def
  empty_db_def new_challenge_def demo_server_def

text \<open>For running the code on it.\<close>

lemmas call_defs = db_call_def tx_call_def tx_try_def cast_uuid_def uuid_in_text row_or_not_found_def
  failed_def time_now_def tick_def emit_def require_def

end
