(* ===== verification/Auth.thy ===== *)
theory Auth
  imports Base64 Flags Requests Demo
begin

text \<open>
  Passwords and sessions: \<open>internal/auth\<close>, \<open>internal/httpserver/auth.go\<close>, the middleware of
  \<open>middleware.go\<close> and \<open>bootstrapAdmin\<close> of \<open>cmd/reduta-server/main.go\<close>. \<open>argon2.IDKey\<close> is an
  argument: \<open>K password salt time memory threads keyLen\<close>; it panics without a round or a thread.
  What \<open>rand.Read\<close> gives next, or the text \<open>RandomToken\<close> makes of it, is \<open>random_token\<close>.
\<close>

subsection \<open>Password hashes\<close>

type_synonym id_key = "string \<Rightarrow> string \<Rightarrow> nat \<Rightarrow> nat \<Rightarrow> nat \<Rightarrow> nat \<Rightarrow> string"

record params =
  memory :: nat
  iterations :: nat
  parallelism :: nat
  salt_length :: nat
  key_length :: nat

definition defaultParams :: params where
  "defaultParams = \<lparr>memory = 64 * 1024, iterations = 3, parallelism = 2, salt_length = 16, key_length = 32\<rparr>"

text \<open>\<open>argon2.Version\<close> is 0x13.\<close>

definition hash_text :: "params \<Rightarrow> string \<Rightarrow> string \<Rightarrow> string" where
  "hash_text p salt key =
     ''$argon2id$v='' @ itoa 19 @ ''$m='' @ itoa (int (memory p)) @ '',t='' @ itoa (int (iterations p)) @
     '',p='' @ itoa (int (parallelism p)) @ ''$'' @ raw_encode std_alphabet salt @ ''$'' @
     raw_encode std_alphabet key"

definition derive :: "id_key \<Rightarrow> params \<Rightarrow> string \<Rightarrow> string \<Rightarrow> nat \<Rightarrow> string" where
  "derive K p password salt n = K password salt (iterations p) (memory p) (parallelism p) n"

definition HashPassword :: "id_key \<Rightarrow> string option \<Rightarrow> string \<Rightarrow> string option" where
  "HashPassword K random password =
     (case random of
        None \<Rightarrow> None
      | Some salt \<Rightarrow>
          Some (hash_text defaultParams salt
            (derive K defaultParams password salt (key_length defaultParams))))"

text \<open>\<open>strings.Split\<close> at a single character.\<close>

fun split_at_char :: "char \<Rightarrow> string \<Rightarrow> string list" where
  "split_at_char c [] = [[]]"
| "split_at_char c (x # xs) =
     (if x = c then [] # split_at_char c xs
      else case split_at_char c xs of [] \<Rightarrow> [[x]] | p # ps \<Rightarrow> (x # p) # ps)"

text \<open>
  \<open>fmt.Sscanf\<close> with literal text and \<open>%d\<close>: blanks before a number are skipped (ASCII ones here),
  what follows the last number is not looked at, and a number too big for its variable is an error.
\<close>

definition scan_text :: "string \<Rightarrow> string \<Rightarrow> string option" where
  "scan_text t s = (if prefix t s then Some (drop (length t) s) else None)"

definition skip_blanks :: "string \<Rightarrow> string" where
  "skip_blanks s = dropWhile (\<lambda>c. byte c \<in> {9, 11, 12, 13, 32}) s"

definition scan_uint :: "nat \<Rightarrow> string \<Rightarrow> (nat \<times> string) option" where
  "scan_uint bits s =
     (case span_digits (skip_blanks s) of (ds, r) \<Rightarrow>
        if ds = [] \<or> nat_of_digits 0 ds \<ge> 2 ^ bits then None else Some (nat_of_digits 0 ds, r))"

definition scan_int :: "string \<Rightarrow> (int \<times> string) option" where
  "scan_int s =
     (let t = skip_blanks s;
          negative = prefix ''-'' t;
          digits_part = (if negative \<or> prefix ''+'' t then tl t else t)
      in case span_digits digits_part of (ds, r) \<Rightarrow>
           let n = (if negative then - int (nat_of_digits 0 ds) else int (nat_of_digits 0 ds))
           in if ds = [] \<or> \<not> int64_ok n then None else Some (n, r))"

definition scan_version :: "string \<Rightarrow> int option" where
  "scan_version s = Option.bind (scan_text ''v='' s) (\<lambda>t. map_option fst (scan_int t))"

definition scan_params :: "string \<Rightarrow> params option" where
  "scan_params s =
     Option.bind (scan_text ''m='' s) (\<lambda>s. Option.bind (scan_uint 32 s) (\<lambda>(m, s).
     Option.bind (scan_text '',t='' s) (\<lambda>s. Option.bind (scan_uint 32 s) (\<lambda>(t, s).
     Option.bind (scan_text '',p='' s) (\<lambda>s. Option.bind (scan_uint 8 s) (\<lambda>(p, s).
       Some \<lparr>memory = m, iterations = t, parallelism = p, salt_length = 0, key_length = 0\<rparr>))))))"

datatype check = InvalidHash | Panics | Checked bool

definition VerifyPassword :: "id_key \<Rightarrow> string \<Rightarrow> string \<Rightarrow> check" where
  "VerifyPassword K password encoded =
     (let parts = split_at_char (CHR ''$'') encoded
      in if length parts \<noteq> 6 \<or> parts ! 1 \<noteq> ''argon2id'' then InvalidHash
         else if scan_version (parts ! 2) = None then InvalidHash
         else case scan_params (parts ! 3) of
             None \<Rightarrow> InvalidHash
           | Some p \<Rightarrow>
               (case (raw_decode std_alphabet (parts ! 4), raw_decode std_alphabet (parts ! 5)) of
                  (Some salt, Some want) \<Rightarrow>
                    if iterations p < 1 \<or> parallelism p < 1 then Panics
                    else Checked (derive K p password salt (length want) = want)
                | _ \<Rightarrow> InvalidHash))"

subsection \<open>Sessions\<close>

definition HashToken :: "platform \<Rightarrow> string \<Rightarrow> string" where
  "HashToken P token = sha256 P token"

text \<open>\<open>Path=/\<close>, \<open>HttpOnly\<close> and \<open>SameSite=Lax\<close> are the same for every session cookie.\<close>

record cookie =
  ck_name :: string
  ck_value :: string
  ck_secure :: bool
  ck_expires :: instant

definition SessionCookieName :: string where
  "SessionCookieName = ''reduta_session''"

definition NewSessionCookie :: "string \<Rightarrow> bool \<Rightarrow> duration \<Rightarrow> instant \<Rightarrow> cookie" where
  "NewSessionCookie token secure ttl now =
     \<lparr>ck_name = SessionCookieName, ck_value = token, ck_secure = secure, ck_expires = now + ttl\<rparr>"

text \<open>The cookie, or no session.\<close>

definition issueSession :: "platform \<Rightarrow> server \<Rightarrow> user \<Rightarrow> (world, cookie option) action" where
  "issueSession P srv u = do {
     tok \<leftarrow> random_token;
     (case tok of
        None \<Rightarrow> ret None
      | Some tok \<Rightarrow> do {
          now \<leftarrow> time_now;
          r \<leftarrow> CreateSession (HashToken P tok) (uuid_text (u_id u)) (now + sv_session_ttl srv);
          (case r of
             Inl _ \<Rightarrow> ret None
           | Inr _ \<Rightarrow> do {
               now \<leftarrow> time_now;
               ret (Some (NewSessionCookie tok (sv_secure_cookie srv) (sv_session_ttl srv) now))
             })
        })
   }"

text \<open>The caller: the cookie's value (\<open>None\<close> without one) is looked up by its hash.\<close>

definition sessionMiddleware :: "platform \<Rightarrow> string option \<Rightarrow> (world, user option) action" where
  "sessionMiddleware P c =
     (if c = None \<or> c = Some [] then ret None
      else do {
        r \<leftarrow> SessionUser (HashToken P (the c));
        ret (case r of Inl _ \<Rightarrow> None | Inr u \<Rightarrow> Some u)
      })"

definition requireAuth :: "user option \<Rightarrow> (user \<Rightarrow> (world, 'a reply) action) \<Rightarrow> (world, 'a reply) action" where
  "requireAuth u k =
     (case u of None \<Rightarrow> ret (Problem 401 ''authentication required'') | Some u \<Rightarrow> k u)"

definition requireAdmin :: "user option \<Rightarrow> (world, 'a reply) action \<Rightarrow> (world, 'a reply) action" where
  "requireAdmin u k = (if \<not> is_admin u then ret (Problem 403 ''admin role required'') else k)"

subsection \<open>Register, log in, log out\<close>

record register_input =
  rg_email :: string
  rg_name :: string
  rg_password :: string

definition register_fields :: "(string \<times> register_input setter) list" where
  "register_fields =
     [(''email'', set_string (\<lambda>x r. r\<lparr>rg_email := x\<rparr>)),
      (''display_name'', set_string (\<lambda>x r. r\<lparr>rg_name := x\<rparr>)),
      (''password'', set_string (\<lambda>x r. r\<lparr>rg_password := x\<rparr>))]"

definition zero_register :: register_input where
  "zero_register = \<lparr>rg_email = [], rg_name = [], rg_password = []\<rparr>"

definition clean_email :: "platform \<Rightarrow> string \<Rightarrow> string" where
  "clean_email P s = trim_space (to_lower P s)"

text \<open>The user, and the cookie that is set.\<close>

definition handleRegister ::
  "platform \<Rightarrow> id_key \<Rightarrow> server \<Rightarrow> json option \<Rightarrow> (world, (user \<times> cookie) reply) action"
where
  "handleRegister P K srv body =
     with_body register_fields zero_register body (\<lambda>i.
       let email = clean_email P (rg_email i)
       in if email = [] \<or> rg_name i = [] \<or> length (rg_password i) < 8
          then ret (Problem 422 ''email, display_name and password (min 8) are required'')
          else do {
            org \<leftarrow> DefaultOrgID;
            (case org of
               Inl _ \<Rightarrow> ret (Problem 500 ''no default org'')
             | Inr orgID \<Rightarrow> do {
                 salt \<leftarrow> random_token;
                 (case HashPassword K salt (rg_password i) of
                    None \<Rightarrow> ret (Problem 500 ''hash failed'')
                  | Some hash \<Rightarrow> do {
                      r \<leftarrow> CreateUser orgID email (rg_name i) hash ''player'';
                      (case r of
                         Inl Conflict \<Rightarrow> ret (Problem 409 ''email already registered'')
                       | Inl _ \<Rightarrow> ret (Problem 500 ''create user failed'')
                       | Inr u \<Rightarrow> do {
                           c \<leftarrow> issueSession P srv u;
                           ret (case c of None \<Rightarrow> Problem 500 ''session failed'' | Some c \<Rightarrow> Reply 201 (u, c))
                         })
                    })
               })
          })"

record login_input =
  lg_email :: string
  lg_password :: string

definition login_fields :: "(string \<times> login_input setter) list" where
  "login_fields =
     [(''email'', set_string (\<lambda>x r. r\<lparr>lg_email := x\<rparr>)),
      (''password'', set_string (\<lambda>x r. r\<lparr>lg_password := x\<rparr>))]"

definition zero_login :: login_input where
  "zero_login = \<lparr>lg_email = [], lg_password = []\<rparr>"

definition handleLogin ::
  "platform \<Rightarrow> id_key \<Rightarrow> server \<Rightarrow> json option \<Rightarrow> (world, (user \<times> cookie) reply) action"
where
  "handleLogin P K srv body =
     with_body login_fields zero_login body (\<lambda>i. do {
       r \<leftarrow> GetUserByEmail (clean_email P (lg_email i));
       (case r of
          Inl _ \<Rightarrow> ret (Problem 401 ''invalid credentials'')
        | Inr u \<Rightarrow>
            (case VerifyPassword K (lg_password i) (u_hash u) of
               Panics \<Rightarrow> ret (Problem 500 [])
             | InvalidHash \<Rightarrow> ret (Problem 401 ''invalid credentials'')
             | Checked ok \<Rightarrow>
                 if \<not> ok then ret (Problem 401 ''invalid credentials'')
                 else do {
                   c \<leftarrow> issueSession P srv u;
                   ret (case c of None \<Rightarrow> Problem 500 ''session failed'' | Some c \<Rightarrow> Reply 200 (u, c))
                 }))
     })"

text \<open>The answer has no body and tells the browser to forget the cookie.\<close>

definition handleLogout :: "platform \<Rightarrow> string option \<Rightarrow> (world, unit reply) action" where
  "handleLogout P c = do {
     (if c = None \<or> c = Some [] then ret ()
      else do { _ \<leftarrow> DeleteSession (HashToken P (the c)); ret () });
     ret (Reply 204 ())
   }"

definition handleMe :: "user option \<Rightarrow> (world, user reply) action" where
  "handleMe u =
     ret (case u of None \<Rightarrow> Problem 401 ''authentication required'' | Some u \<Rightarrow> Reply 200 u)"

text \<open>The owner account made from the environment when the server starts.\<close>

definition bootstrapAdmin :: "platform \<Rightarrow> id_key \<Rightarrow> string \<Rightarrow> string \<Rightarrow> (world, unit) action" where
  "bootstrapAdmin P K admin_email admin_password =
     (let email = clean_email P admin_email
      in if email = [] \<or> admin_password = [] then ret ()
         else do {
           r \<leftarrow> GetUserByEmail email;
           (case r of
              Inr _ \<Rightarrow> ret ()
            | Inl _ \<Rightarrow> do {
                org \<leftarrow> DefaultOrgID;
                (case org of
                   Inl _ \<Rightarrow> ret ()
                 | Inr orgID \<Rightarrow> do {
                     salt \<leftarrow> random_token;
                     (case HashPassword K salt admin_password of
                        None \<Rightarrow> ret ()
                      | Some hash \<Rightarrow> do {
                          _ \<leftarrow> CreateUser orgID email ''Admin'' hash ''owner'';
                          ret ()
                        })
                   })
              })
         })"

subsection \<open>A password is recognised\<close>

lemma split_at_char_none: "c \<notin> set s \<Longrightarrow> split_at_char c s = [s]"
  by (induction s) auto

lemma split_at_char_append: "c \<notin> set a \<Longrightarrow> split_at_char c (a @ c # b) = a # split_at_char c b"
  by (induction a) auto

lemma std_no_dollar: "CHR ''$'' \<notin> set (raw_encode std_alphabet s)"
proof
  have "list_all (\<lambda>c. c \<noteq> CHR ''$'') std_alphabet" "length std_alphabet = 64" by code_simp+
  then have "\<And>n. n < 64 \<Longrightarrow> std_alphabet ! n \<noteq> CHR ''$''" by (simp add: list_all_length)
  moreover assume "CHR ''$'' \<in> set (raw_encode std_alphabet s)"
  ultimately show False using sextets_range [of _ s] by (auto simp: raw_encode_sextets) metis
qed

lemma split_hash_text:
  "split_at_char (CHR ''$'') (hash_text defaultParams salt key) =
     [[], ''argon2id'', ''v=19'', ''m=65536,t=3,p=2'', raw_encode std_alphabet salt, raw_encode std_alphabet key]"
proof -
  let ?s = "raw_encode std_alphabet salt" and ?k = "raw_encode std_alphabet key"
  have "itoa 19 = ''19''" "itoa 65536 = ''65536''" "itoa 3 = ''3''" "itoa 2 = ''2''"
    by (simp_all add: itoa_def digits_of_nat.simps char_of_def bit_0)
  then have shape: "hash_text defaultParams salt key =
      [] @ CHR ''$'' # ''argon2id'' @ CHR ''$'' # ''v=19'' @ CHR ''$'' # ''m=65536,t=3,p=2'' @ CHR ''$'' # ?s @ CHR ''$'' # ?k"
    by (simp add: hash_text_def defaultParams_def)
  have plain: "CHR ''$'' \<notin> set []" "CHR ''$'' \<notin> set ''argon2id''" "CHR ''$'' \<notin> set ''v=19''"
    "CHR ''$'' \<notin> set ''m=65536,t=3,p=2''" by simp_all
  show ?thesis
    unfolding shape plain [THEN split_at_char_append] std_no_dollar [THEN split_at_char_append]
      std_no_dollar [THEN split_at_char_none] ..
qed

lemmas scan_defs = scan_version_def scan_params_def scan_text_def scan_int_def scan_uint_def skip_blanks_def
  is_digit_def digit_val_def int64_ok_def min_int64_def max_int64_def Let_def

lemma verify_hash_text:
  "VerifyPassword K password (hash_text defaultParams salt key) =
     Checked (derive K defaultParams password salt (length key) = key)"
proof -
  have "scan_version ''v=19'' = Some 19"
    by (simp add: scan_defs)
  moreover have "map_option (\<lambda>p. (memory p, iterations p, parallelism p)) (scan_params ''m=65536,t=3,p=2'') =
      Some (65536, 3, 2)" by (simp add: scan_defs)
  then obtain p where "scan_params ''m=65536,t=3,p=2'' = Some p" "memory p = 65536" "iterations p = 3" "parallelism p = 2"
    by auto
  ultimately show ?thesis
    unfolding VerifyPassword_def split_hash_text Let_def
    by (simp add: derive_def defaultParams_def)
qed

lemma verify_hashed:
  assumes "HashPassword K (Some salt) password = Some phc"
    and "length (K password salt 3 65536 2 32) = 32"
  shows "VerifyPassword K attempt phc =
    Checked (K attempt salt 3 65536 2 32 = K password salt 3 65536 2 32)"
  using assms by (auto simp: HashPassword_def verify_hash_text) (simp_all add: derive_def defaultParams_def)

text \<open>
  C31. A stored password hash recognises the password it was made from, and no other password than one
  whose key under the same salt is the same: for every salt, whatever the two passwords contain. What
  is used of Argon2 is that a key has the length that was asked for.
\<close>

theorem password_roundtrip:
  assumes "HashPassword K (Some salt) password = Some phc"
    and "length (K password salt 3 65536 2 32) = 32"
  shows "VerifyPassword K attempt phc =
    Checked (K attempt salt 3 65536 2 32 = K password salt 3 65536 2 32)"
  using assms by (rule verify_hashed)

definition demo_key :: id_key where
  "demo_key password salt rounds mem threads n = take n (password @ salt @ replicate n (CHR ''x''))"

theorem password_roundtrip_witness:
  "VerifyPassword demo_key ''correct horse'' (the (HashPassword demo_key (Some ''salt'') ''correct horse'')) = Checked True \<and>
   VerifyPassword demo_key ''battery'' (the (HashPassword demo_key (Some ''salt'') ''correct horse'')) = Checked False"
proof -
  obtain phc where phc: "HashPassword demo_key (Some ''salt'') ''correct horse'' = Some phc"
    by (simp only: HashPassword_def option.case ex_simps option.inject)
  have len: "length (demo_key ''correct horse'' ''salt'' 3 65536 2 32) = 32" by (simp add: demo_key_def)
  have "hd (demo_key ''battery'' ''salt'' 3 65536 2 32) \<noteq> hd (demo_key ''correct horse'' ''salt'' 3 65536 2 32)"
    by (simp add: demo_key_def)
  then have "demo_key ''battery'' ''salt'' 3 65536 2 32 \<noteq> demo_key ''correct horse'' ''salt'' 3 65536 2 32" by metis
  with password_roundtrip [OF phc len] show ?thesis by (simp only: phc option.sel simp_thms)
qed

subsection \<open>A session stands for its user\<close>

lemma wp_random_token_pop:
  assumes "\<And>w'. db w' = db w \<Longrightarrow> clock w' = clock w \<Longrightarrow> reliable w' = reliable w \<Longrightarrow> Q (tokens w 0) w'"
  shows "wp random_token Q w"
  using assms by (simp add: reliable_def)

definition session_of :: "string \<Rightarrow> user \<Rightarrow> instant \<Rightarrow> database \<Rightarrow> database \<Rightarrow> bool" where
  "session_of h u t d d' \<longleftrightarrow> fresh_key s_token h (sessions d) \<and>
     d' = d\<lparr>sessions := sessions d @ [\<lparr>s_token = h, s_user = u_id u, s_expires = t\<rparr>]\<rparr>"

lemma wp_issueSession:
  "wp (issueSession P srv u) (\<lambda>r w'. \<forall>c. r = Some c \<longrightarrow> tokens w 0 = Some (ck_value c) \<and>
     session_of (HashToken P (ck_value c)) u (clock w 0 + sv_session_ttl srv) (db w) (db w')) w"
  unfolding issueSession_def wp_bind wp_random_token
proof (rule wp_option, simp)
  fix tok
  assume tok: "tokens w 0 = Some tok"
  show "wp (do {
          now \<leftarrow> time_now;
          r \<leftarrow> CreateSession (HashToken P tok) (uuid_text (u_id u)) (now + sv_session_ttl srv);
          (case r of
             Inl _ \<Rightarrow> ret None
           | Inr _ \<Rightarrow> do {
               now \<leftarrow> time_now;
               ret (Some (NewSessionCookie tok (sv_secure_cookie srv) (sv_session_ttl srv) now))
             })
        })
        (\<lambda>r w'. \<forall>c. r = Some c \<longrightarrow> tokens w 0 = Some (ck_value c) \<and>
           session_of (HashToken P (ck_value c)) u (clock w 0 + sv_session_ttl srv) (db w) (db w'))
      (w\<lparr>tokens := pop (tokens w)\<rparr>)"
    unfolding CreateSession_def wp_bind wp_time_now
    by (rule wp_db_call) (auto simp: tok cast_uuid_def uuid_in_text require_def failed_simps NewSessionCookie_def
        session_of_def split: if_splits)
qed

lemma session_of_lookup:
  assumes "session_of h u t d d'" and "u \<in> set (users d)" and "distinct (map u_id (users d))"
  shows "session_user now h d' = (if now < t then Some u else None)"
proof -
  have "find (\<lambda>s. s_token s = h \<and> now < s_expires s) (sessions d) = None"
    using assms(1) by (auto simp: session_of_def fresh_key_def find_None_iff list_ex_iff)
  then have "find (\<lambda>s. s_token s = h \<and> s_expires s > now) (sessions d') =
      (if now < t then Some \<lparr>s_token = h, s_user = u_id u, s_expires = t\<rparr> else None)"
    using assms(1) by (simp add: session_of_def find_append)
  moreover have "find (\<lambda>v. u_id v = u_id u) (users d') = Some u"
    using assms by (simp add: session_of_def find_key)
  ultimately show ?thesis by (simp add: session_user_def)
qed

lemma middleware_lookup:
  assumes "reliable w" and "tok \<noteq> []"
  shows "fst (run_state (sessionMiddleware P (Some tok)) w) = session_user (clock w 0) (HashToken P tok) (db w)"
  using assms
  by (simp add: sessionMiddleware_def SessionUser_def run_simps db_call_def reliable_def row_or_not_found_def
      split: option.split)

text \<open>What a login leaves behind.\<close>

definition logged_in :: "platform \<Rightarrow> id_key \<Rightarrow> server \<Rightarrow> json option \<Rightarrow> world \<Rightarrow> user \<Rightarrow> cookie \<Rightarrow> database \<Rightarrow> bool" where
  "logged_in P K srv body w u c d' \<longleftrightarrow>
     (\<exists>i t. decodeJSON login_fields zero_login body = Some i \<and> u \<in> set (users (db w)) \<and>
        u_email u = clean_email P (lg_email i) \<and> VerifyPassword K (lg_password i) (u_hash u) = Checked True \<and>
        t \<in> range (clock w) \<and> ck_value c \<noteq> [] \<and>
        session_of (HashToken P (ck_value c)) u (t + sv_session_ttl srv) (db w) d')"

lemma handleLogin_wp:
  assumes "\<forall>n. tokens w n \<noteq> Some []"
  shows "wp (handleLogin P K srv body)
    (\<lambda>r w'. \<forall>code u c. r = Reply code (u, c) \<longrightarrow> logged_in P K srv body w u c (db w')) w"
    (is "wp _ ?Q w")
proof (cases "decodeJSON login_fields zero_login body")
  case None
  then show ?thesis by (simp add: handleLogin_def with_body_def)
next
  case (Some i)
  have session: "wp (issueSession P srv u) (\<lambda>c. wp (ret (case c of None \<Rightarrow> Problem 500 ''session failed'' | Some c \<Rightarrow> Reply 200 (u, c))) ?Q) (tick w)"
    if u: "find (\<lambda>u. u_email u = clean_email P (lg_email i)) (users (db w)) = Some u"
      and "VerifyPassword K (lg_password i) (u_hash u) = Checked True" for u
  proof (rule wp_mono [OF wp_issueSession])
    fix r :: "cookie option" and w1 :: world
    assume post: "\<forall>c. r = Some c \<longrightarrow> tokens (tick w) 0 = Some (ck_value c) \<and>
        session_of (HashToken P (ck_value c)) u (clock (tick w) 0 + sv_session_ttl srv) (db (tick w)) (db w1)"
    have "clock (tick w) 0 \<in> range (clock w)" "tokens (tick w) = tokens w" "db (tick w) = db w"
      by (simp_all add: tick_def)
    moreover have "u \<in> set (users (db w))" "u_email u = clean_email P (lg_email i)"
      using u by (auto dest: find_SomeD)
    ultimately show "wp (ret (case r of None \<Rightarrow> Problem 500 ''session failed'' | Some c \<Rightarrow> Reply 200 (u, c))) ?Q w1"
      using post that(2) Some assms unfolding wp_ret logged_in_def by (fastforce split: option.splits)
  qed
  show ?thesis
    unfolding handleLogin_def with_body_def Some option.case GetUserByEmail_def wp_bind
    by (rule wp_query) (auto simp: row_or_not_found_def session split: option.split check.split)
qed

text \<open>
  C32. A login is for the one who knows the password, and its cookie stands for that user until it
  expires. When the login handler answers with a user and a cookie, the user has the address given
  and its stored hash recognises the password; and from then on, while the database is as the login
  left it and answers, the middleware takes a request with that cookie for one of this user up to the
  expiry of the session, and for nobody's afterwards.
\<close>

theorem login_session:
  assumes "run_state (handleLogin P K srv body) w = (Reply code (u, c), w')"
    and "distinct (map u_id (users (db w)))" and "\<forall>n. tokens w n \<noteq> Some []"
  shows "\<exists>i t. decodeJSON login_fields zero_login body = Some i \<and> u \<in> set (users (db w)) \<and>
     u_email u = clean_email P (lg_email i) \<and> VerifyPassword K (lg_password i) (u_hash u) = Checked True \<and>
     t \<in> range (clock w) \<and>
     (\<forall>w2. db w2 = db w' \<longrightarrow> reliable w2 \<longrightarrow>
        fst (run_state (sessionMiddleware P (Some (ck_value c))) w2) =
          (if clock w2 0 < t + sv_session_ttl srv then Some u else None))"
proof -
  from wpD [OF handleLogin_wp [OF assms(3)] assms(1)] obtain i t where
    i: "decodeJSON login_fields zero_login body = Some i" "u \<in> set (users (db w))"
      "u_email u = clean_email P (lg_email i)" "VerifyPassword K (lg_password i) (u_hash u) = Checked True"
      "t \<in> range (clock w)" "ck_value c \<noteq> []"
      "session_of (HashToken P (ck_value c)) u (t + sv_session_ttl srv) (db w) (db w')"
    unfolding logged_in_def by blast
  then have "fst (run_state (sessionMiddleware P (Some (ck_value c))) w2) =
      (if clock w2 0 < t + sv_session_ttl srv then Some u else None)" if "db w2 = db w'" "reliable w2" for w2
    using session_of_lookup [OF i(7,2) assms(2)] that by (simp add: middleware_lookup)
  with i show ?thesis by blast
qed

definition member_world :: world where
  "member_world = demo_world\<lparr>db := demo_db\<lparr>users :=
     [demo_user\<lparr>u_hash := the (HashPassword demo_key (Some ''salt'') ''correct horse'')\<rparr>]\<rparr>\<rparr>"

definition member_login :: "(world, (user \<times> cookie) reply) action" where
  "member_login = handleLogin demo_platform demo_key demo_server
     (Some (JObj [(''email'', JStr ''P@x''), (''password'', JStr ''correct horse'')]))"

lemma member_login_run:
  "(\<exists>u c. fst (run_state member_login member_world) = Reply 200 (u, c) \<and> ck_value c = ''token'') \<and>
   reliable (snd (run_state member_login member_world))"
proof -
  have verify: "VerifyPassword demo_key ''correct horse'' (the (HashPassword demo_key (Some ''salt'') ''correct horse'')) = Checked True"
    unfolding HashPassword_def option.case option.sel verify_hash_text
    by (simp add: derive_def defaultParams_def demo_key_def)
  have email: "clean_email demo_platform ''P@x'' = ''p@x''" by code_simp
  have decode: "decodeJSON login_fields zero_login (Some (JObj [(''email'', JStr ''P@x''), (''password'', JStr ''correct horse'')])) =
      Some \<lparr>lg_email = ''P@x'', lg_password = ''correct horse''\<rparr>"
    by (simp add: decodeJSON_def login_fields_def zero_login_def ascii_lower_def)
  show ?thesis
    by (simp add: member_login_def handleLogin_def with_body_def decode email GetUserByEmail_def query_def
        member_world_def demo_defs verify issueSession_def CreateSession_def random_token_def NewSessionCookie_def
        fresh_key_def exists_row_def run_simps call_defs reliable_def)
qed

theorem login_session_witness:
  "\<exists>u c t. fst (run_state member_login member_world) = Reply 200 (u, c) \<and> u_email u = ''p@x'' \<and>
     fst (run_state (sessionMiddleware demo_platform (Some (ck_value c))) (snd (run_state member_login member_world))) =
       (if clock (snd (run_state member_login member_world)) 0 < t + sv_session_ttl demo_server then Some u else None)"
proof -
  let ?w = "snd (run_state member_login member_world)"
  obtain u c where run: "fst (run_state member_login member_world) = Reply 200 (u, c)" using member_login_run by blast
  then have "run_state member_login member_world = (Reply 200 (u, c), ?w)" by (simp add: prod_eq_iff)
  moreover have "distinct (map u_id (users (db member_world)))" "\<forall>n. tokens member_world n \<noteq> Some []"
    by (simp_all add: member_world_def demo_defs)
  ultimately obtain t where u: "u \<in> set (users (db member_world))"
    and session: "\<forall>w2. db w2 = db ?w \<longrightarrow> reliable w2 \<longrightarrow> fst (run_state (sessionMiddleware demo_platform (Some (ck_value c))) w2) =
       (if clock w2 0 < t + sv_session_ttl demo_server then Some u else None)"
    using login_session [of demo_platform demo_key demo_server] unfolding member_login_def by blast
  have "reliable ?w" using member_login_run by blast
  moreover have "u_email u = ''p@x''" using u by (simp add: member_world_def demo_defs)
  ultimately show ?thesis using session run by blast
qed

text \<open>
  C33. Logging out ends the session: after a logout that reached the database, the cookie that was used
  for it stands for nobody.
\<close>

theorem logout_ends_session:
  assumes "run_state (handleLogout P (Some tok)) w = (r, w')" and "reliable w"
    and "db w2 = db w'" and "reliable w2"
  shows "fst (run_state (sessionMiddleware P (Some tok)) w2) = None"
proof (cases "tok = []")
  case True
  then show ?thesis by (simp add: sessionMiddleware_def run_simps)
next
  case False
  then have "sessions (db w') = filter (\<lambda>s. s_token s \<noteq> HashToken P tok) (sessions (db w))"
    using assms(1,2) by (auto simp: handleLogout_def DeleteSession_def run_simps db_call_def reliable_def)
  then have "find (\<lambda>s. s_token s = HashToken P tok \<and> s_expires s > now) (sessions (db w')) = None" for now
    by (auto simp: find_None_iff)
  then show ?thesis using False assms(3,4) by (simp add: middleware_lookup session_user_def)
qed

text \<open>A player who is logged in.\<close>

definition session_world :: world where
  "session_world = demo_world\<lparr>db := demo_db\<lparr>sessions :=
     [\<lparr>s_token = HashToken demo_platform ''token'', s_user = u_id demo_user, s_expires = clock demo_world 0 + minute\<rparr>]\<rparr>\<rparr>"

theorem logout_ends_session_witness:
  "fst (run_state (sessionMiddleware demo_platform (Some ''token'')) session_world) = Some demo_user \<and>
   fst (run_state (sessionMiddleware demo_platform (Some ''token''))
     (snd (run_state (handleLogout demo_platform (Some ''token'')) session_world))) = None"
proof
  show "fst (run_state (sessionMiddleware demo_platform (Some ''token'')) session_world) = Some demo_user"
    by (simp add: sessionMiddleware_def SessionUser_def session_user_def session_world_def demo_defs minute_def
        second_def run_simps call_defs)
  show "fst (run_state (sessionMiddleware demo_platform (Some ''token''))
     (snd (run_state (handleLogout demo_platform (Some ''token'')) session_world))) = None"
  proof (rule logout_ends_session [OF prod.collapse [symmetric] _ refl])
    show "reliable session_world" by (simp add: reliable_def session_world_def demo_world_def)
    show "reliable (snd (run_state (handleLogout demo_platform (Some ''token'')) session_world))"
      by (simp add: handleLogout_def DeleteSession_def run_simps db_call_def reliable_def session_world_def
          demo_world_def tick_def)
  qed
qed

subsection \<open>Who registers can log in\<close>

definition registered :: "platform \<Rightarrow> id_key \<Rightarrow> register_input \<Rightarrow> user \<Rightarrow> database \<Rightarrow> database \<Rightarrow> bool" where
  "registered P K i u d d' \<longleftrightarrow> users d' = users d @ [u] \<and> u_email u = clean_email P (rg_email i) \<and>
     u_role u = ''player'' \<and> (\<exists>salt. HashPassword K (Some salt) (rg_password i) = Some (u_hash u))"

lemma insert_user_row:
  assumes "insert_user orgID email name hash role now uid d = Inr (u, d')"
  shows "users d' = users d @ [u] \<and> u_email u = email \<and> u_hash u = hash \<and> u_role u = role"
  using assms by (auto simp: insert_user_def cast_uuid_def require_def Let_def split: option.splits if_splits)

lemma handleRegister_wp:
  "wp (handleRegister P K srv body) (\<lambda>r w'. \<forall>code u c. r = Reply code (u, c) \<longrightarrow>
     (\<exists>i. decodeJSON register_fields zero_register body = Some i \<and> registered P K i u (db w) (db w'))) w"
proof (cases "decodeJSON register_fields zero_register body")
  case None
  then show ?thesis by (simp add: handleRegister_def with_body_def)
next
  case (Some i)
  define Q where "Q r w' \<longleftrightarrow> (\<forall>code u c. r = Reply code (u, c) \<longrightarrow> registered P K i u (db w) (db w'))"
    for r :: "(user \<times> cookie) reply" and w' :: world
  have problem: "Q (Problem n s) w'" for n s w' by (simp add: Q_def)
  have session: "wp (issueSession P srv u) (\<lambda>c. wp (ret (case c of None \<Rightarrow> Problem 500 ''session failed''
      | Some c \<Rightarrow> Reply 201 (u, c))) Q) w1"
    if "registered P K i u (db w) (db w1)" for u w1
    by (rule wp_mono [OF wp_issueSession])
      (use that in \<open>auto simp: Q_def registered_def session_of_def split: option.splits\<close>)
  have create: "wp (CreateUser orgID (clean_email P (rg_email i)) (rg_name i) hash ''player'') (\<lambda>r. wp (case r of
        Inl Conflict \<Rightarrow> ret (Problem 409 ''email already registered'')
      | Inl _ \<Rightarrow> ret (Problem 500 ''create user failed'')
      | Inr u \<Rightarrow> do {
          c \<leftarrow> issueSession P srv u;
          ret (case c of None \<Rightarrow> Problem 500 ''session failed'' | Some c \<Rightarrow> Reply 201 (u, c))
        }) Q) w1"
    if "db w1 = db w" "HashPassword K salt (rg_password i) = Some hash" for orgID hash salt w1
  proof -
    have "\<exists>salt. HashPassword K (Some salt) (rg_password i) = Some hash"
      using that(2) by (cases salt) (auto simp: HashPassword_def)
    then show ?thesis
      unfolding CreateUser_def wp_bind
      by (intro wp_db_call)
        (use that(1) in \<open>auto simp: conflict_if_unique_def problem registered_def dest!: insert_user_row
          intro!: session split: store_error.split\<close>)
  qed
  have "wp (handleRegister P K srv body) Q w"
    unfolding handleRegister_def with_body_def Some option.case Let_def
  proof (rule wp_if, simp add: problem, unfold DefaultOrgID_def wp_bind, rule wp_query)
    show "wp (ret (row_or_not_found (Inl e))) (\<lambda>org. wp (case org of Inl _ \<Rightarrow> ret (Problem 500 ''no default org'')
        | Inr orgID \<Rightarrow> do {
            salt \<leftarrow> random_token;
            (case HashPassword K salt (rg_password i) of
               None \<Rightarrow> ret (Problem 500 ''hash failed'')
             | Some hash \<Rightarrow> do {
                 r \<leftarrow> CreateUser orgID (clean_email P (rg_email i)) (rg_name i) hash ''player'';
                 (case r of
                    Inl Conflict \<Rightarrow> ret (Problem 409 ''email already registered'')
                  | Inl _ \<Rightarrow> ret (Problem 500 ''create user failed'')
                  | Inr u \<Rightarrow> do {
                      c \<leftarrow> issueSession P srv u;
                      ret (case c of None \<Rightarrow> Problem 500 ''session failed'' | Some c \<Rightarrow> Reply 201 (u, c))
                    })
               })
          }) Q) (tick w)" for e
      by (simp add: row_or_not_found_def problem)
  qed (auto simp: row_or_not_found_def problem intro!: create split: option.split)
  from wp_mono [OF this] show ?thesis by (auto simp: Q_def Some)
qed

lemma login_succeeds:
  assumes "reliable w" and "decodeJSON login_fields zero_login body = Some i"
    and "find (\<lambda>u. u_email u = clean_email P (lg_email i)) (users (db w)) = Some u"
    and "VerifyPassword K (lg_password i) (u_hash u) = Checked True"
    and "tokens w 0 = Some tok" and "HashToken P tok \<notin> s_token ` set (sessions (db w))"
  shows "\<exists>c. fst (run_state (handleLogin P K srv body) w) = Reply 200 (u, c)"
proof -
  have net: "net w n = Done" for n using assms(1) by (simp add: reliable_def)
  have "u \<in> set (users (db w))" using assms(3) by (auto dest: find_SomeD)
  then have "exists_row u_id (u_id u) (users (db w))" by (auto simp: exists_row_def list_ex_iff)
  moreover have "fresh_key s_token (HashToken P tok) (sessions (db w))"
    using assms(6) by (force simp: fresh_key_def list_ex_iff)
  ultimately show ?thesis
    by (simp add: handleLogin_def with_body_def assms GetUserByEmail_def query_def issueSession_def CreateSession_def
        random_token_def run_simps call_defs net)
qed

text \<open>
  C34. Who registers can log in: when the register handler answers with a user whose address nobody had
  yet, a later login with that address, written in any case, and that password succeeds for that user,
  on a database that answers and with a random token that is not in use. Of Argon2 it is used that keys
  have the length asked for.
\<close>

theorem registered_can_login:
  assumes "run_state (handleRegister P K srv body) w = (Reply code (u, c), w')"
    and "decodeJSON register_fields zero_register body = Some i"
    and "\<forall>v \<in> set (users (db w)). u_email v \<noteq> clean_email P (rg_email i)"
    and "\<forall>salt. length (K (rg_password i) salt 3 65536 2 32) = 32"
    and "db w2 = db w'" and "reliable w2" and "tokens w2 0 = Some tok"
    and "HashToken P tok \<notin> s_token ` set (sessions (db w2))"
    and "decodeJSON login_fields zero_login body2 = Some j"
    and "clean_email P (lg_email j) = clean_email P (rg_email i)" and "lg_password j = rg_password i"
  shows "\<exists>c2. fst (run_state (handleLogin P K srv body2) w2) = Reply 200 (u, c2)"
proof -
  from wpD [OF handleRegister_wp assms(1)] assms(2)
  have reg: "registered P K i u (db w) (db w')" by auto
  then obtain salt where hash: "HashPassword K (Some salt) (rg_password i) = Some (u_hash u)"
    by (auto simp: registered_def)
  have "VerifyPassword K (lg_password j) (u_hash u) = Checked True"
    using verify_hashed [OF hash] assms(4) by (simp add: assms(11))
  moreover have "find (\<lambda>v. u_email v = clean_email P (lg_email j)) (users (db w2)) = Some u"
  proof -
    have "find (\<lambda>v. u_email v = clean_email P (rg_email i)) (users (db w)) = None"
      using assms(3) by (simp add: find_None_iff)
    with reg show ?thesis by (simp add: registered_def assms(5,10) find_append)
  qed
  ultimately show ?thesis by (rule login_succeeds [OF assms(6,9) _ _ assms(7,8), rotated])
qed

definition register_body :: "json option" where
  "register_body = Some (JObj [(''email'', JStr ''New@x''), (''display_name'', JStr ''N''),
     (''password'', JStr ''correct horse'')])"

definition later_login :: "json option" where
  "later_login = Some (JObj [(''email'', JStr ''NEW@x''), (''password'', JStr ''correct horse'')])"

lemma demo_token: "HashToken demo_platform t = t"
  by (simp add: HashToken_def demo_platform_def)

lemma demo_registration:
  "\<exists>u c. fst (run_state (handleRegister demo_platform demo_key demo_server register_body) demo_world) = Reply 201 (u, c) \<and>
     u_email u = ''new@x'' \<and> map s_token (sessions (db (snd (run_state
       (handleRegister demo_platform demo_key demo_server register_body) demo_world)))) = [''token'']"
proof -
  have email: "clean_email demo_platform ''New@x'' = ''new@x''" by code_simp
  have decode: "decodeJSON register_fields zero_register register_body =
      Some \<lparr>rg_email = ''New@x'', rg_name = ''N'', rg_password = ''correct horse''\<rparr>"
    by (simp add: decodeJSON_def register_fields_def zero_register_def register_body_def ascii_lower_def)
  obtain phc where "HashPassword demo_key (Some ''token'') ''correct horse'' = Some phc"
    by (simp only: HashPassword_def option.case ex_simps option.inject)
  then show ?thesis
    by (simp add: handleRegister_def with_body_def decode email DefaultOrgID_def query_def CreateUser_def insert_user_def
        conflict_if_unique_def demo_defs issueSession_def CreateSession_def random_token_def NewSessionCookie_def
        demo_token fresh_key_def exists_row_def run_simps call_defs Let_def)
qed

theorem registered_can_login_witness:
  "\<exists>u c2. u_email u = ''new@x'' \<and>
     fst (run_state (handleLogin demo_platform demo_key demo_server later_login)
       ((snd (run_state (handleRegister demo_platform demo_key demo_server register_body) demo_world))
         \<lparr>net := \<lambda>_. Done, tokens := \<lambda>_. Some ''other''\<rparr>)) = Reply 200 (u, c2)"
proof -
  let ?m = "handleRegister demo_platform demo_key demo_server register_body"
  let ?w = "snd (run_state ?m demo_world)"
  obtain u c where run: "fst (run_state ?m demo_world) = Reply 201 (u, c)" "u_email u = ''new@x''"
    "map s_token (sessions (db ?w)) = [''token'']" using demo_registration by (elim exE conjE) (rule that)
  have r: "run_state ?m demo_world = (Reply 201 (u, c), ?w)" using run(1) by (simp add: prod_eq_iff)
  have decode: "decodeJSON register_fields zero_register register_body =
      Some \<lparr>rg_email = ''New@x'', rg_name = ''N'', rg_password = ''correct horse''\<rparr>"
    "decodeJSON login_fields zero_login later_login = Some \<lparr>lg_email = ''NEW@x'', lg_password = ''correct horse''\<rparr>"
    by (simp_all add: decodeJSON_def register_fields_def zero_register_def register_body_def login_fields_def
        zero_login_def later_login_def ascii_lower_def)
  have email: "clean_email demo_platform ''New@x'' = ''new@x''" "clean_email demo_platform ''NEW@x'' = ''new@x''" by code_simp+
  have tokens: "s_token ` set (sessions (db ?w)) = {''token''}" using run(3) by (metis list.set(1,2) list.set_map)
  have token: "HashToken demo_platform ''other'' \<notin> s_token ` set (sessions (db (?w\<lparr>net := \<lambda>_. Done, tokens := \<lambda>_. Some ''other''\<rparr>)))"
    by (simp add: tokens demo_token)
  have key: "length (demo_key ''correct horse'' salt 3 65536 2 32) = 32" for salt by (simp add: demo_key_def)
  have fresh: "\<forall>v \<in> set (users (db demo_world)). u_email v \<noteq> ''new@x''" by (simp add: demo_defs)
  have "\<exists>c2. fst (run_state (handleLogin demo_platform demo_key demo_server later_login)
       (?w\<lparr>net := \<lambda>_. Done, tokens := \<lambda>_. Some ''other''\<rparr>)) = Reply 200 (u, c2)"
    by (rule registered_can_login [OF r decode(1) _ _ _ _ _ token decode(2)])
      (simp_all add: email key fresh reliable_def)
  with run(2) show ?thesis by blast
qed

end
