(* ===== verification/Ledger.thy ===== *)
theory Ledger
  imports Prelude
begin

text \<open>
  The contract between a journal and the totals kept beside it. Entries are posted to the journal
  and dropped from it; the total shown for an account is adjusted by a bill, or charged back for an
  entry that is dropped. The books are balanced when every shown total is the sum of the amounts
  recorded for its account and every entry's account has a total.
\<close>

locale ledger =
  fixes entries :: "'s \<Rightarrow> 'e set"
    and recorded :: "'s \<Rightarrow> 'k \<Rightarrow> int"
    and shown :: "'s \<Rightarrow> 'k \<Rightarrow> int"
    and has :: "'s \<Rightarrow> 'k \<Rightarrow> bool"
    and sound :: "'s \<Rightarrow> bool"
    and post :: "'e \<Rightarrow> 's \<Rightarrow> 's"
    and drop_entry :: "'e \<Rightarrow> 's \<Rightarrow> 's"
    and adjust :: "'b \<Rightarrow> 's \<Rightarrow> 's"
    and charge :: "'e \<Rightarrow> 's \<Rightarrow> 's"
    and account :: "'e \<Rightarrow> 'k"
    and amount :: "'e \<Rightarrow> int"
    and bill :: "'b \<Rightarrow> 'k"
    and change :: "'b \<Rightarrow> int"
    and revocable :: "'e \<Rightarrow> bool"
  assumes entries_post: "entries (post e s) = insert e (entries s)"
    and recorded_post: "recorded (post e s) k = recorded s k + (if k = account e then amount e else 0)"
    and shown_post: "shown (post e s) k = shown s k"
    and has_post: "has (post e s) k = has s k"
    and entries_drop: "entries (drop_entry e s) \<subseteq> entries s"
    and recorded_drop: "sound s \<Longrightarrow> e \<in> entries s \<Longrightarrow>
          recorded (drop_entry e s) k = recorded s k - (if k = account e then amount e else 0)"
    and shown_drop: "shown (drop_entry e s) k = shown s k"
    and has_drop: "has (drop_entry e s) k = has s k"
    and entries_adjust: "entries (adjust b s) = entries s"
    and recorded_adjust: "recorded (adjust b s) k = recorded s k"
    and shown_adjust: "shown (adjust b s) k = shown s k + (if k = bill b then change b else 0)"
    and has_adjust: "has (adjust b s) k \<longleftrightarrow> has s k \<or> k = bill b"
    and entries_charge: "entries (charge e s) = entries s"
    and recorded_charge: "recorded (charge e s) k = recorded s k"
    and shown_charge: "has s (account e) \<Longrightarrow> revocable e \<Longrightarrow>
          shown (charge e s) k = shown s k - (if k = account e then amount e else 0)"
    and has_charge: "has (charge e s) k = has s k"
begin

definition balanced :: "'s \<Rightarrow> bool" where
  "balanced s \<longleftrightarrow> (\<forall>k. shown s k = recorded s k) \<and> (\<forall>e \<in> entries s. has s (account e))"

lemma balanced_book:
  assumes "balanced s" and "account e = bill b" and "amount e = change b"
  shows "balanced (adjust b (post e s))"
  using assms
  by (auto simp: balanced_def entries_adjust entries_post recorded_adjust recorded_post
      shown_adjust shown_post has_adjust has_post)

lemma balanced_book_two:
  assumes "balanced s" and "account e = bill b" and "account e' = bill b"
    and "amount e + amount e' = change b"
  shows "balanced (adjust b (post e' (post e s)))"
  using assms
  by (auto simp: balanced_def entries_adjust entries_post recorded_adjust recorded_post
      shown_adjust shown_post has_adjust has_post)

lemma balanced_revoke:
  assumes "balanced s" and "sound s" and "e \<in> entries s" and "revocable e"
  shows "balanced (charge e (drop_entry e s))"
proof -
  have "has (drop_entry e s) (account e)"
    using assms by (simp add: balanced_def has_drop)
  then show ?thesis
    using assms entries_drop [of e s]
    by (auto simp: balanced_def entries_charge recorded_charge recorded_drop shown_charge
        shown_drop has_charge has_drop)
qed

lemma balanced_same:
  assumes "balanced s" and "\<And>k. shown t k = shown s k" and "\<And>k. recorded t k = recorded s k"
    and "entries t = entries s" and "\<And>k. has t k = has s k"
  shows "balanced t"
  using assms by (simp add: balanced_def)

end

end
