(* ===== verification/Scores.thy ===== *)
theory Scores
  imports Store Ledger
begin

text \<open>
  Submissions and scores: \<open>RecordWrong\<close>, \<open>RecordSolve\<close> and \<open>Scoreboard\<close> of
  \<open>internal/store/store.go\<close>, and the plugin awards of \<open>internal/store/plugins.go\<close>. A solve
  and an award write a score event (the journal) and adjust the team's scoreboard entry (the total)
  in one transaction; the central invariant is that the two agree.
\<close>

subsection \<open>Statements\<close>

definition insert_submission ::
  "string \<Rightarrow> string \<Rightarrow> string \<Rightarrow> string \<Rightarrow> string \<Rightarrow> bool \<Rightarrow> string option \<Rightarrow> unit stmt"
where
  "insert_submission eventID ecID teamID userID valueHash correct ip now u d =
     cast_uuid eventID (\<lambda>ev. cast_uuid ecID (\<lambda>ec. cast_uuid teamID (\<lambda>tm. cast_uuid userID (\<lambda>us.
       require (\<not> (correct \<and> list_ex (\<lambda>s. sb_correct s \<and> sb_ec s = ec \<and> sb_team s = tm)
                   (submissions d))) UniqueViolation (
       require (exists_row e_id ev (events d)) ForeignKeyViolation (
       require (exists_row c_id ec (challenges d)) ForeignKeyViolation (
       require (exists_row tm_id tm (teams d)) ForeignKeyViolation (
       require (exists_row u_id us (users d)) ForeignKeyViolation (
       Inr ((), d\<lparr>submissions := submissions d @
         [\<lparr>sb_event = ev, sb_ec = ec, sb_team = tm, sb_user = us, sb_hash = valueHash,
           sb_correct = correct, sb_at = now, sb_ip = ip\<rparr>]\<rparr>))))))))))"

definition count_solvers :: "string \<Rightarrow> nat stmt" where
  "count_solvers ecID now u d =
     cast_uuid ecID (\<lambda>ec.
       Inr (count_where (\<lambda>s. sb_ec s = ec \<and> sb_correct s) (submissions d), d))"

text \<open>
  \<open>INSERT INTO score_events ... ON CONFLICT (event_id, source, ref_id) DO NOTHING\<close>, with the number
  of inserted rows.
\<close>

definition score_key :: "score_event \<Rightarrow> uuid \<times> string \<times> string" where
  "score_key s = (se_event s, se_source s, se_ref s)"

definition post_score :: "score_event \<Rightarrow> database \<Rightarrow> database" where
  "post_score s d = d\<lparr>score_events := score_events d @ [s]\<rparr>"

definition insert_score ::
  "string \<Rightarrow> string \<Rightarrow> string \<Rightarrow> string \<Rightarrow> string \<Rightarrow> int \<Rightarrow> json \<Rightarrow> nat stmt"
where
  "insert_score eventID teamID kind source ref points meta now u d =
     cast_uuid eventID (\<lambda>ev. cast_uuid teamID (\<lambda>tm.
       require (int4_ok points) OutOfRange (
       if \<not> fresh_key score_key (ev, source, ref) (score_events d) then Inr (0, d)
       else
         require (exists_row e_id ev (events d)) ForeignKeyViolation (
         require (exists_row tm_id tm (teams d)) ForeignKeyViolation (
         Inr (1, post_score \<lparr>se_event = ev, se_team = tm, se_kind = kind, se_source = source,
           se_ref = ref, se_points = points, se_at = now, se_meta = meta\<rparr> d))))))"

text \<open>
  \<open>INSERT INTO scoreboard_entries ... ON CONFLICT (event_id, team_id) DO UPDATE\<close>: points and solves
  are added, and the time of the last solve is set when the statement gives one.
\<close>

definition board_key :: "entry \<Rightarrow> uuid \<times> uuid" where
  "board_key b = (b_event b, b_team b)"

definition add_entry :: "entry \<Rightarrow> entry \<Rightarrow> entry" where
  "add_entry x b = b\<lparr>b_points := b_points b + b_points x, b_solves := b_solves b + b_solves x,
     b_last := (if b_last x = None then b_last b else b_last x)\<rparr>"

definition upsert_board :: "entry \<Rightarrow> database \<Rightarrow> database" where
  "upsert_board x d = d\<lparr>board :=
     (if fresh_key board_key (board_key x) (board d) then board d @ [x]
      else update_where (\<lambda>b. board_key b = board_key x) (add_entry x) (board d))\<rparr>"

definition in_range_board :: "database \<Rightarrow> bool" where
  "in_range_board d \<longleftrightarrow> list_all (\<lambda>b. int4_ok (b_points b) \<and> int4_ok (b_solves b)) (board d)"

definition add_to_board ::
  "string \<Rightarrow> string \<Rightarrow> int \<Rightarrow> int \<Rightarrow> instant option \<Rightarrow> unit stmt"
where
  "add_to_board eventID teamID points solves last_solve now u d =
     cast_uuid eventID (\<lambda>ev. cast_uuid teamID (\<lambda>tm.
       require (int4_ok points) OutOfRange (
       require (exists_row e_id ev (events d)) ForeignKeyViolation (
       require (exists_row tm_id tm (teams d)) ForeignKeyViolation (
       (let d' = upsert_board \<lparr>b_event = ev, b_team = tm, b_points = points, b_solves = solves,
                   b_last = last_solve\<rparr> d
        in require (in_range_board d') OutOfRange (Inr ((), d'))))))))"

subsection \<open>The methods\<close>

definition RecordWrong ::
  "string \<Rightarrow> string \<Rightarrow> string \<Rightarrow> string \<Rightarrow> string \<Rightarrow> string \<Rightarrow> (world, store_error + unit) action"
where
  "RecordWrong eventID ecID teamID userID valueHash ip = do {
     r \<leftarrow> db_call (insert_submission eventID ecID teamID userID valueHash False (nilIfEmpty ip));
     ret (failed r)
   }"

record solve_result =
  already_solved :: bool
  first_blood :: bool
  res_points :: int

definition RecordSolve ::
  "event \<Rightarrow> string \<Rightarrow> string \<Rightarrow> string \<Rightarrow> string \<Rightarrow> string \<Rightarrow> int \<Rightarrow>
   (world, store_error + solve_result) action"
where
  "RecordSolve e ecID teamID userID valueHash ip points =
     (let eID = uuid_text (e_id e) in
      transaction (\<lambda>now.
        tx_try now (insert_submission eID ecID teamID userID valueHash True (nilIfEmpty ip))
          (\<lambda>err. if err = UniqueViolation
                 then Inr \<lparr>already_solved = True, first_blood = False, res_points = points\<rparr>
                 else Inl (Failed err))
          (\<lambda>_.
        tx_try now (count_solvers ecID) fail (\<lambda>n.
        tx_try now (insert_score eID teamID ''solve'' ''core'' (''solve:'' @ ecID @ '':'' @ teamID)
                      points (JObj [])) fail (\<lambda>_.
          (let first = (n = 1);
               finish = (\<lambda>total.
                 tx_try now (add_to_board eID teamID total 1 (Some now)) fail (\<lambda>_.
                   ret (Commit \<lparr>already_solved = False, first_blood = first, res_points = total\<rparr>)))
           in if first \<and> e_bonus e > 0 then
                tx_try now (insert_score eID teamID ''award'' ''core'' (''firstblood:'' @ ecID)
                              (e_bonus e) (JObj [])) fail (\<lambda>_. finish (points + e_bonus e))
              else finish points))))))"

definition PluginAward ::
  "string \<Rightarrow> string \<Rightarrow> string \<Rightarrow> string \<Rightarrow> int \<Rightarrow> json option \<Rightarrow> (world, store_error + bool) action"
where
  "PluginAward eventID teamID source refID points meta =
     (let meta = (case meta of None \<Rightarrow> JObj [] | Some j \<Rightarrow> j) in
      transaction (\<lambda>now.
        tx_try now (insert_score eventID teamID ''award'' source refID points meta) fail (\<lambda>n.
          if n = 0 then ret (Commit False)
          else tx_try now (add_to_board eventID teamID points 0 None) fail (\<lambda>_.
            ret (Commit True)))))"

text \<open>The score event a \<open>DELETE ... RETURNING\<close> removes, and its counterpart on the board.\<close>

definition drop_score :: "score_event \<Rightarrow> database \<Rightarrow> database" where
  "drop_score s d = d\<lparr>score_events := filter (\<lambda>x. score_key x \<noteq> score_key s) (score_events d)\<rparr>"

definition charge_board :: "score_event \<Rightarrow> database \<Rightarrow> database" where
  "charge_board s d = d\<lparr>board := update_where (\<lambda>b. board_key b = (se_event s, se_team s))
     (\<lambda>b. b\<lparr>b_points := b_points b - se_points s\<rparr>) (board d)\<rparr>"

definition delete_score :: "string \<Rightarrow> string \<Rightarrow> string \<Rightarrow> score_event option stmt" where
  "delete_score eventID source refID now u d =
     cast_uuid eventID (\<lambda>ev.
       case find (\<lambda>s. score_key s = (ev, source, refID)) (score_events d) of
         None \<Rightarrow> Inr (None, d)
       | Some s \<Rightarrow> Inr (Some s, drop_score s d))"

definition charge_stmt :: "score_event \<Rightarrow> unit stmt" where
  "charge_stmt s now u d =
     (let d' = charge_board s d in require (in_range_board d') OutOfRange (Inr ((), d')))"

definition DeletePluginAward ::
  "string \<Rightarrow> string \<Rightarrow> string \<Rightarrow> (world, store_error + bool) action"
where
  "DeletePluginAward eventID source refID =
     transaction (\<lambda>now.
       tx_try now (delete_score eventID source refID) fail (\<lambda>s.
         case s of
           None \<Rightarrow> ret (Commit False)
         | Some s \<Rightarrow> tx_try now (charge_stmt s) fail (\<lambda>_. ret (Commit True))))"

subsection \<open>The journal and the board\<close>

definition score_account :: "score_event \<Rightarrow> uuid \<times> uuid" where
  "score_account s = (se_event s, se_team s)"

definition recorded_points :: "database \<Rightarrow> uuid \<times> uuid \<Rightarrow> int" where
  "recorded_points d k = (\<Sum>s \<leftarrow> filter (\<lambda>s. score_account s = k) (score_events d). se_points s)"

definition shown_points :: "database \<Rightarrow> uuid \<times> uuid \<Rightarrow> int" where
  "shown_points d k =
     (case find (\<lambda>b. board_key b = k) (board d) of None \<Rightarrow> 0 | Some b \<Rightarrow> b_points b)"

definition solve_amount :: "score_event \<Rightarrow> int" where
  "solve_amount s = (if se_kind s = ''solve'' then 1 else 0)"

definition recorded_solves :: "database \<Rightarrow> uuid \<times> uuid \<Rightarrow> int" where
  "recorded_solves d k = (\<Sum>s \<leftarrow> filter (\<lambda>s. score_account s = k) (score_events d). solve_amount s)"

definition shown_solves :: "database \<Rightarrow> uuid \<times> uuid \<Rightarrow> int" where
  "shown_solves d k =
     (case find (\<lambda>b. board_key b = k) (board d) of None \<Rightarrow> 0 | Some b \<Rightarrow> b_solves b)"

definition has_entry :: "database \<Rightarrow> uuid \<times> uuid \<Rightarrow> bool" where
  "has_entry d k \<longleftrightarrow> k \<in> board_key ` set (board d)"

definition keys_sound :: "database \<Rightarrow> bool" where
  "keys_sound d \<longleftrightarrow> distinct (map score_key (score_events d))"

lemma key_add_entry [simp]: "board_key (add_entry x b) = board_key b"
  by (simp add: board_key_def add_entry_def)

lemma find_upsert:
  "find (\<lambda>b. board_key b = k) (board (upsert_board x d)) =
     (if k = board_key x
      then Some (case find (\<lambda>b. board_key b = k) (board d) of None \<Rightarrow> x | Some b \<Rightarrow> add_entry x b)
      else find (\<lambda>b. board_key b = k) (board d))"
  by (auto simp: upsert_board_def find_append find_update_where find_fresh
      dest!: find_not_fresh split: option.split)

lemma find_charge:
  "find (\<lambda>b. board_key b = k) (board (charge_board s d)) =
     (if k = score_account s
      then map_option (\<lambda>b. b\<lparr>b_points := b_points b - se_points s\<rparr>)
             (find (\<lambda>b. board_key b = k) (board d))
      else find (\<lambda>b. board_key b = k) (board d))"
  unfolding charge_board_def score_account_def [symmetric]
  by (simp add: find_update_where board_key_def)

lemma has_entry_find: "has_entry d k \<longleftrightarrow> find (\<lambda>b. board_key b = k) (board d) \<noteq> None"
  unfolding has_entry_def find_Some_iff_ex by auto

lemma drop_score_filter:
  assumes "keys_sound d" and "s \<in> set (score_events d)"
  shows "score_events (drop_score s d) = filter (\<lambda>x. x \<noteq> s) (score_events d)"
  using assms
  by (auto simp: drop_score_def keys_sound_def distinct_map inj_on_def intro!: filter_cong)

lemma upsert_other [simp]: "score_events (upsert_board x d) = score_events d"
  "submissions (upsert_board x d) = submissions d" "challenges (upsert_board x d) = challenges d"
  by (simp_all add: upsert_board_def)

lemma charge_other [simp]: "score_events (charge_board x d) = score_events d"
  "submissions (charge_board x d) = submissions d" "challenges (charge_board x d) = challenges d"
  by (simp_all add: charge_board_def)

lemma drop_other [simp]: "board (drop_score s d) = board d"
  "submissions (drop_score s d) = submissions d" "challenges (drop_score s d) = challenges d"
  by (simp_all add: drop_score_def)

lemma post_other [simp]: "board (post_score s d) = board d"
  "submissions (post_score s d) = submissions d" "challenges (post_score s d) = challenges d"
  "score_events (post_score s d) = score_events d @ [s]"
  by (simp_all add: post_score_def)

lemma drop_sum:
  assumes "keys_sound d" and "s \<in> set (score_events d)"
  shows "(\<Sum>x \<leftarrow> filter (\<lambda>x. score_account x = k) (score_events (drop_score s d)). f x) =
         (\<Sum>x \<leftarrow> filter (\<lambda>x. score_account x = k) (score_events d). f x) -
         (if k = score_account s then f s else (0 :: int))"
proof (cases "k = score_account s")
  case True
  have "distinct (score_events d)"
    using assms(1) by (simp add: keys_sound_def distinct_map)
  with assms True show ?thesis
    using sum_list_remove_one [of "score_events d" s "\<lambda>x. score_account x = k" f]
    by (simp add: drop_score_filter)
next
  case False
  then have "filter (\<lambda>x. score_account x = k) (filter (\<lambda>x. x \<noteq> s) (score_events d)) =
      filter (\<lambda>x. score_account x = k) (score_events d)"
    by (auto simp: filter_filter intro!: filter_cong)
  with assms False show ?thesis by (simp add: drop_score_filter)
qed

lemmas board_finds = find_upsert find_charge has_entry_find

interpretation point_ledger: ledger "\<lambda>d. set (score_events d)" recorded_points shown_points
  has_entry keys_sound post_score drop_score upsert_board charge_board score_account se_points
  board_key b_points "\<lambda>_. True"
proof unfold_locales
  fix s e :: score_event and d :: database
  show "set (score_events (drop_score e d)) \<subseteq> set (score_events d)"
    by (auto simp: drop_score_def)
qed (auto simp: recorded_points_def shown_points_def board_finds drop_sum add_entry_def
    split: option.split)

interpretation solve_ledger: ledger "\<lambda>d. set (score_events d)" recorded_solves shown_solves
  has_entry keys_sound post_score drop_score upsert_board charge_board score_account solve_amount
  board_key b_solves "\<lambda>s. se_kind s \<noteq> ''solve''"
proof unfold_locales
  fix s e :: score_event and d :: database
  show "set (score_events (drop_score e d)) \<subseteq> set (score_events d)"
    by (auto simp: drop_score_def)
qed (auto simp: recorded_solves_def shown_solves_def board_finds drop_sum add_entry_def
    solve_amount_def split: option.split)

end
