(* ===== verification/Books.thy ===== *)
theory Books
  imports Scores
begin

text \<open>
  The invariant of the scoring tables: for every team of every event the scoreboard entry shows
  the sum of the team's score events. Every operation that touches them keeps it, whatever fails on
  the way.
\<close>

subsection \<open>The invariant\<close>

text \<open>
  \<open>settled d ec P\<close>: a team with \<open>P\<close> has solved the challenge \<open>ec\<close>, or the challenge is gone
  (deleting it deletes its submissions). The score events of the core refer to such challenges,
  which is why a first solve never meets an old event of its own. Only the core posts solves.
\<close>

definition settled :: "database \<Rightarrow> uuid \<Rightarrow> (uuid \<Rightarrow> bool) \<Rightarrow> bool" where
  "settled d ec P \<longleftrightarrow> ec \<notin> c_id ` set (challenges d) \<or>
     (\<exists>s \<in> set (submissions d). sb_correct s \<and> sb_ec s = ec \<and> P (sb_team s))"

definition core_ref :: "database \<Rightarrow> score_event \<Rightarrow> bool" where
  "core_ref d s \<longleftrightarrow> (se_source s = ''core'' \<longrightarrow>
     (\<exists>x ec. uuid_in x = Some ec \<and>
        ((\<exists>t tm. uuid_in t = Some tm \<and> se_ref s = ''solve:'' @ x @ '':'' @ t \<and>
                 settled d ec (\<lambda>y. y = tm)) \<or>
         (se_ref s = ''firstblood:'' @ x \<and> settled d ec (\<lambda>_. True))))) \<and>
     (se_source s \<noteq> ''core'' \<longrightarrow> se_kind s \<noteq> ''solve'')"

definition books :: "database \<Rightarrow> bool" where
  "books d \<longleftrightarrow> point_ledger.balanced d \<and> solve_ledger.balanced d \<and> keys_sound d \<and>
     (\<forall>s \<in> set (score_events d). core_ref d s)"

text \<open>What the books say, in terms of the tables.\<close>

definition totals_agree :: "database \<Rightarrow> bool" where
  "totals_agree d \<longleftrightarrow> (\<forall>k. shown_points d k = recorded_points d k \<and>
     shown_solves d k = recorded_solves d k)"

lemma books_totals: "books d \<Longrightarrow> totals_agree d"
  by (simp add: books_def point_ledger.balanced_def solve_ledger.balanced_def totals_agree_def)

lemma books_no_scores: "score_events d = [] \<Longrightarrow> board d = [] \<Longrightarrow> books d"
  by (simp add: books_def point_ledger.balanced_def solve_ledger.balanced_def keys_sound_def
      recorded_points_def recorded_solves_def shown_points_def shown_solves_def)

lemma books_empty: "books empty_db"
  by (rule books_no_scores) (simp_all add: empty_db_def)

lemma settled_mono:
  assumes "settled d ec P" and "c_id ` set (challenges d') \<subseteq> c_id ` set (challenges d)"
    and "\<And>s. s \<in> set (submissions d) \<Longrightarrow> sb_correct s \<Longrightarrow>
           sb_ec s \<in> c_id ` set (challenges d') \<Longrightarrow> s \<in> set (submissions d')"
  shows "settled d' ec P"
  using assms unfolding settled_def by blast

lemma core_ref_mono:
  assumes "core_ref d s" and "c_id ` set (challenges d') \<subseteq> c_id ` set (challenges d)"
    and "\<And>s. s \<in> set (submissions d) \<Longrightarrow> sb_correct s \<Longrightarrow>
           sb_ec s \<in> c_id ` set (challenges d') \<Longrightarrow> s \<in> set (submissions d')"
  shows "core_ref d' s"
  using assms(1) settled_mono [OF _ assms(2,3)] unfolding core_ref_def by blast

text \<open>Whatever leaves journal and board alone, and keeps the solves, keeps the books.\<close>

lemma books_same:
  assumes "books d" and "score_events d' = score_events d" and "board d' = board d"
    and "c_id ` set (challenges d') \<subseteq> c_id ` set (challenges d)"
    and "\<And>s. s \<in> set (submissions d) \<Longrightarrow> sb_correct s \<Longrightarrow>
           sb_ec s \<in> c_id ` set (challenges d') \<Longrightarrow> s \<in> set (submissions d')"
  shows "books d'"
proof -
  have "point_ledger.balanced d'"
    by (rule point_ledger.balanced_same [of d])
      (use assms(1-3) in \<open>simp_all add: books_def shown_points_def recorded_points_def has_entry_def\<close>)
  moreover have "solve_ledger.balanced d'"
    by (rule solve_ledger.balanced_same [of d])
      (use assms(1-3) in \<open>simp_all add: books_def shown_solves_def recorded_solves_def has_entry_def\<close>)
  moreover have "core_ref d' s" if "s \<in> set (score_events d')" for s
    using assms(1,2) that core_ref_mono [OF _ assms(4,5)] by (simp add: books_def)
  ultimately show ?thesis using assms(1,2) by (simp add: books_def keys_sound_def)
qed

text \<open>A new score event under a key of its own, together with its bill, keeps the books.\<close>

lemma books_post:
  assumes "books d" and "fresh_key score_key (score_key s) (score_events d)"
    and "score_account s = board_key b" and "se_points s = b_points b"
    and "solve_amount s = b_solves b" and "core_ref d s"
  shows "books (upsert_board b (post_score s d))"
proof -
  have "core_ref (upsert_board b (post_score s d)) x = core_ref d x" for x
    by (simp add: core_ref_def settled_def)
  then show ?thesis
    using assms
    by (auto simp: books_def keys_sound_def fresh_key_iff intro: point_ledger.balanced_book
        solve_ledger.balanced_book)
qed

lemma books_post_two:
  assumes "books d" and "fresh_key score_key (score_key s) (score_events d)"
    and "fresh_key score_key (score_key s') (score_events (post_score s d))"
    and "score_account s = board_key b" and "score_account s' = board_key b"
    and "se_points s + se_points s' = b_points b"
    and "solve_amount s + solve_amount s' = b_solves b" and "core_ref d s" and "core_ref d s'"
  shows "books (upsert_board b (post_score s' (post_score s d)))"
proof -
  have "core_ref (upsert_board b (post_score s' (post_score s d))) x = core_ref d x" for x
    by (simp add: core_ref_def settled_def)
  then show ?thesis
    using assms
    by (auto simp: books_def keys_sound_def fresh_key_iff intro: point_ledger.balanced_book_two
        solve_ledger.balanced_book_two)
qed

lemma books_revoke:
  assumes "books d" and "s \<in> set (score_events d)" and "se_kind s \<noteq> ''solve''"
  shows "books (charge_board s (drop_score s d))"
proof -
  have core: "core_ref (charge_board s (drop_score s d)) x = core_ref d x" for x
    by (simp add: core_ref_def settled_def)
  have sub: "set (score_events (drop_score s d)) \<subseteq> set (score_events d)"
    by (auto simp: drop_score_def)
  have keys: "keys_sound (charge_board s (drop_score s d))"
    using assms(1) by (auto simp: books_def keys_sound_def drop_score_def distinct_map
        intro: inj_on_subset)
  then show ?thesis
    using assms sub core
    by (auto simp: books_def intro: point_ledger.balanced_revoke solve_ledger.balanced_revoke)
qed

subsection \<open>Statements\<close>

lemma insert_submission_Inr:
  "insert_submission eventID ecID teamID userID h correct ip now u d = Inr (a, d') \<longleftrightarrow>
     (\<exists>ev ec tm us. uuid_in eventID = Some ev \<and> uuid_in ecID = Some ec \<and> uuid_in teamID = Some tm \<and>
        uuid_in userID = Some us \<and>
        \<not> (correct \<and> (\<exists>s \<in> set (submissions d). sb_correct s \<and> sb_ec s = ec \<and> sb_team s = tm)) \<and>
        ev \<in> e_id ` set (events d) \<and> ec \<in> c_id ` set (challenges d) \<and>
        tm \<in> tm_id ` set (teams d) \<and> us \<in> u_id ` set (users d) \<and>
        d' = d\<lparr>submissions := submissions d @ [\<lparr>sb_event = ev, sb_ec = ec, sb_team = tm, sb_user = us,
               sb_hash = h, sb_correct = correct, sb_at = now, sb_ip = ip\<rparr>]\<rparr>)"
  unfolding insert_submission_def by (auto simp: exists_row_iff list_ex_iff)

lemma insert_score_Inr:
  "insert_score eventID teamID kind source ref pts meta now u d = Inr (n, d') \<longleftrightarrow>
     (\<exists>ev tm. uuid_in eventID = Some ev \<and> uuid_in teamID = Some tm \<and> int4_ok pts \<and>
        (if fresh_key score_key (ev, source, ref) (score_events d)
         then n = 1 \<and> ev \<in> e_id ` set (events d) \<and> tm \<in> tm_id ` set (teams d) \<and>
           d' = post_score \<lparr>se_event = ev, se_team = tm, se_kind = kind, se_source = source,
             se_ref = ref, se_points = pts, se_at = now, se_meta = meta\<rparr> d
         else n = 0 \<and> d' = d))"
  unfolding insert_score_def by (auto simp: exists_row_iff)

lemma add_to_board_Inr:
  "add_to_board eventID teamID pts k lst now u d = Inr (a, d') \<longleftrightarrow>
     (\<exists>ev tm. uuid_in eventID = Some ev \<and> uuid_in teamID = Some tm \<and> int4_ok pts \<and>
        ev \<in> e_id ` set (events d) \<and> tm \<in> tm_id ` set (teams d) \<and>
        d' = upsert_board \<lparr>b_event = ev, b_team = tm, b_points = pts, b_solves = k,
               b_last = lst\<rparr> d \<and> in_range_board d')"
  unfolding add_to_board_def by (auto simp: exists_row_iff Let_def)

lemma count_solvers_Inr:
  "count_solvers ecID now u d = Inr (n, d') \<longleftrightarrow>
     (\<exists>ec. uuid_in ecID = Some ec \<and> d' = d \<and>
           n = count_where (\<lambda>s. sb_ec s = ec \<and> sb_correct s) (submissions d))"
  unfolding count_solvers_def by auto

lemmas score_stmts = insert_submission_Inr insert_score_Inr add_to_board_Inr count_solvers_Inr

subsection \<open>A first solve meets no score event of its own\<close>

lemma solve_ref_inj:
  assumes "''solve:'' @ x @ '':'' @ t = ''solve:'' @ x' @ '':'' @ t'"
    and "uuid_in x = Some ec" and "uuid_in x' = Some ec'"
  shows "x = x' \<and> t = t'"
  using assms colon_join_inj [of x t x' t'] by (auto dest: uuid_in_no_colon)

lemma solve_key_fresh:
  assumes refs: "\<forall>s \<in> set (score_events d). core_ref d s"
    and "uuid_in ecID = Some ec" and "uuid_in teamID = Some tm"
    and "ec \<in> c_id ` set (challenges d)"
    and new: "\<not> (\<exists>s \<in> set (submissions d). sb_correct s \<and> sb_ec s = ec \<and> sb_team s = tm)"
  shows "fresh_key score_key (ev, ''core'', ''solve:'' @ ecID @ '':'' @ teamID) (score_events d)"
proof (rule ccontr)
  assume "\<not> ?thesis"
  then obtain s where "s \<in> set (score_events d)" and src: "se_source s = ''core''"
    and ref: "se_ref s = ''solve:'' @ ecID @ '':'' @ teamID"
    by (auto simp: fresh_key_iff score_key_def)
  with refs have "core_ref d s" by blast
  with src obtain x ec' t tm' where "uuid_in x = Some ec'" "uuid_in t = Some tm'"
    "se_ref s = ''solve:'' @ x @ '':'' @ t" "settled d ec' (\<lambda>y. y = tm')"
    using ref by (auto simp: core_ref_def)
  moreover from this have "x = ecID \<and> t = teamID"
    using ref assms(2) by (intro solve_ref_inj) auto
  ultimately have "settled d ec (\<lambda>y. y = tm)"
    using assms(2,3) by simp
  then show False using assms(4) new by (auto simp: settled_def)
qed

lemma firstblood_key_fresh:
  assumes refs: "\<forall>s \<in> set (score_events d). core_ref d s"
    and "uuid_in ecID = Some ec" and "ec \<in> c_id ` set (challenges d)"
    and new: "\<not> (\<exists>s \<in> set (submissions d). sb_correct s \<and> sb_ec s = ec)"
  shows "fresh_key score_key (ev, ''core'', ''firstblood:'' @ ecID) (score_events d)"
proof (rule ccontr)
  assume "\<not> ?thesis"
  then obtain s where "s \<in> set (score_events d)" and src: "se_source s = ''core''"
    and ref: "se_ref s = ''firstblood:'' @ ecID"
    by (auto simp: fresh_key_iff score_key_def)
  with refs have "core_ref d s" by blast
  with src ref assms(2) have "settled d ec (\<lambda>_. True)"
    by (auto simp: core_ref_def)
  then show False using assms(3) new by (auto simp: settled_def)
qed

subsection \<open>Operations keep the books\<close>

lemma books_submission:
  "books d \<Longrightarrow> insert_submission eventID ecID teamID userID h correct ip now u d = Inr (a, d') \<Longrightarrow>
   books d'"
  by (auto simp: insert_submission_Inr intro: books_same)

lemma RecordWrong_books: "keeps (\<lambda>w. books (db w)) (RecordWrong eventID ecID teamID userID h ip)"
  unfolding keeps_wp RecordWrong_def wp_bind
  by (auto intro!: wp_db_call dest: books_submission)

text \<open>
  The statements of \<open>RecordSolve\<close>, one after the other, and what they do altogether: the
  submission, the score event of the solve, that of the first blood if there is one and it carries
  a bonus, and the team's entry raised by their sum.
\<close>

definition solve_event :: "uuid \<Rightarrow> string \<Rightarrow> string \<Rightarrow> uuid \<Rightarrow> int \<Rightarrow> instant \<Rightarrow> score_event" where
  "solve_event ev ecID teamID tm pts now =
     \<lparr>se_event = ev, se_team = tm, se_kind = ''solve'', se_source = ''core'',
      se_ref = ''solve:'' @ ecID @ '':'' @ teamID, se_points = pts, se_at = now, se_meta = JObj []\<rparr>"

definition firstblood_event :: "uuid \<Rightarrow> string \<Rightarrow> uuid \<Rightarrow> int \<Rightarrow> instant \<Rightarrow> score_event" where
  "firstblood_event ev ecID tm bonus now =
     \<lparr>se_event = ev, se_team = tm, se_kind = ''award'', se_source = ''core'',
      se_ref = ''firstblood:'' @ ecID, se_points = bonus, se_at = now, se_meta = JObj []\<rparr>"

definition solved_by :: "uuid \<Rightarrow> database \<Rightarrow> uuid set" where
  "solved_by ec d = {sb_team s | s. s \<in> set (submissions d) \<and> sb_correct s \<and> sb_ec s = ec}"

definition after_solve ::
  "uuid \<Rightarrow> string \<Rightarrow> string \<Rightarrow> uuid \<Rightarrow> uuid \<Rightarrow> uuid \<Rightarrow> string \<Rightarrow> string option \<Rightarrow> int \<Rightarrow> int \<Rightarrow> instant \<Rightarrow>
   database \<Rightarrow> bool \<times> int \<times> database"
where
  "after_solve ev ecID teamID ec tm us h ip pts bonus now d =
     (let d1 = d\<lparr>submissions := submissions d @ [\<lparr>sb_event = ev, sb_ec = ec, sb_team = tm,
                 sb_user = us, sb_hash = h, sb_correct = True, sb_at = now, sb_ip = ip\<rparr>]\<rparr>;
          d2 = post_score (solve_event ev ecID teamID tm pts now) d1;
          first = (solved_by ec d = {});
          tot = (if first \<and> bonus > 0 then pts + bonus else pts);
          d3 = (if first \<and> bonus > 0 then post_score (firstblood_event ev ecID tm bonus now) d2 else d2)
      in (first, tot,
          upsert_board \<lparr>b_event = ev, b_team = tm, b_points = tot, b_solves = 1, b_last = Some now\<rparr> d3))"

lemma count_first:
  "count_where (\<lambda>s. sb_ec s = ec \<and> sb_correct s) (submissions d @ [s]) = 1 \<longleftrightarrow> solved_by ec d = {}"
  if "sb_ec s = ec" "sb_correct s"
  using that by (auto simp: count_where_def solved_by_def filter_empty_conv)

lemma solve_statements:
  assumes refs: "\<forall>s \<in> set (score_events d). core_ref d s"
    and sub: "insert_submission (uuid_text ev) ecID teamID userID h True ip now u1 d = Inr ((), d1)"
    and cnt: "count_solvers ecID now u2 d1 = Inr (n, d2)"
    and sc: "insert_score (uuid_text ev) teamID ''solve'' ''core'' (''solve:'' @ ecID @ '':'' @ teamID)
               pts (JObj []) now u3 d2 = Inr (m, d3)"
    and fb: "if n = 1 \<and> bonus > 0
             then insert_score (uuid_text ev) teamID ''award'' ''core'' (''firstblood:'' @ ecID)
                    bonus (JObj []) now u4 d3 = Inr (m', d4) \<and> tot = pts + bonus
             else d4 = d3 \<and> tot = pts"
    and bd: "add_to_board (uuid_text ev) teamID tot 1 (Some now) now u5 d4 = Inr ((), d5)"
  obtains ec tm us where "uuid_in ecID = Some ec" "uuid_in teamID = Some tm"
    "uuid_in userID = Some us" "ec \<in> c_id ` set (challenges d)" "tm \<notin> solved_by ec d"
    "after_solve ev ecID teamID ec tm us h ip pts bonus now d = (n = 1, tot, d5)"
proof -
  from sub obtain ec tm us
    where ids: "uuid_in ecID = Some ec" "uuid_in teamID = Some tm" "uuid_in userID = Some us"
      and ec: "ec \<in> c_id ` set (challenges d)"
      and new: "\<not> (\<exists>s \<in> set (submissions d). sb_correct s \<and> sb_ec s = ec \<and> sb_team s = tm)"
      and d1: "d1 = d\<lparr>submissions := submissions d @ [\<lparr>sb_event = ev, sb_ec = ec, sb_team = tm,
                 sb_user = us, sb_hash = h, sb_correct = True, sb_at = now, sb_ip = ip\<rparr>]\<rparr>"
    by (auto simp: insert_submission_Inr uuid_in_text)
  have d2: "d2 = d1" and n: "n = 1 \<longleftrightarrow> solved_by ec d = {}"
    using cnt ids by (auto simp: count_solvers_Inr d1 count_first [unfolded One_nat_def])
  have d3: "d3 = post_score (solve_event ev ecID teamID tm pts now) d1"
    using sc solve_key_fresh [OF refs ids(1,2) ec new] ids
    by (auto simp: insert_score_Inr d2 d1 solve_event_def uuid_in_text)
  have d4: "d4 = (if n = 1 \<and> bonus > 0 then post_score (firstblood_event ev ecID tm bonus now) d3 else d3)"
    and tot: "tot = (if n = 1 \<and> bonus > 0 then pts + bonus else pts)"
  proof -
    have "d4 = post_score (firstblood_event ev ecID tm bonus now) d3" if fst: "n = 1 \<and> bonus > 0"
    proof -
      have none: "\<not> (\<exists>s \<in> set (submissions d). sb_correct s \<and> sb_ec s = ec)"
        using fst n by (auto simp: solved_by_def)
      have "fresh_key score_key (ev, ''core'', ''firstblood:'' @ ecID) (score_events d3)"
        using firstblood_key_fresh [OF refs ids(1) ec none]
        by (auto simp: d3 d1 fresh_key_iff score_key_def solve_event_def)
      then show ?thesis
        using fb fst ids by (auto simp: insert_score_Inr firstblood_event_def uuid_in_text)
    qed
    then show "d4 = (if n = 1 \<and> bonus > 0 then post_score (firstblood_event ev ecID tm bonus now) d3 else d3)"
      using fb by auto
    show "tot = (if n = 1 \<and> bonus > 0 then pts + bonus else pts)" using fb by auto
  qed
  have "d5 = upsert_board \<lparr>b_event = ev, b_team = tm, b_points = tot, b_solves = 1, b_last = Some now\<rparr> d4"
    using bd ids by (auto simp: add_to_board_Inr uuid_in_text)
  then have "after_solve ev ecID teamID ec tm us h ip pts bonus now d = (n = 1, tot, d5)"
    by (simp add: after_solve_def Let_def n [symmetric] tot d4 d3 d1)
  moreover have "tm \<notin> solved_by ec d" using new by (auto simp: solved_by_def)
  ultimately show ?thesis using that ids ec by blast
qed

lemma after_solve_books:
  assumes "books d" and "uuid_in ecID = Some ec" "uuid_in teamID = Some tm"
    and "ec \<in> c_id ` set (challenges d)" "tm \<notin> solved_by ec d"
    and res: "after_solve ev ecID teamID ec tm us h ip pts bonus now d = (first, tot, d')"
  shows "books d'"
proof -
  let ?d1 = "d\<lparr>submissions := submissions d @ [\<lparr>sb_event = ev, sb_ec = ec, sb_team = tm,
                 sb_user = us, sb_hash = h, sb_correct = True, sb_at = now, sb_ip = ip\<rparr>]\<rparr>"
  let ?s = "solve_event ev ecID teamID tm pts now"
  let ?f = "firstblood_event ev ecID tm bonus now"
  let ?b = "\<lambda>n. \<lparr>b_event = ev, b_team = tm, b_points = n, b_solves = 1, b_last = Some now\<rparr>"
  have refs: "\<forall>s \<in> set (score_events d). core_ref d s" using assms(1) by (simp add: books_def)
  have b1: "books ?d1" using assms(1) by (rule books_same) auto
  have new: "\<not> (\<exists>s \<in> set (submissions d). sb_correct s \<and> sb_ec s = ec \<and> sb_team s = tm)"
    using assms(5) by (auto simp: solved_by_def)
  have key: "fresh_key score_key (score_key ?s) (score_events ?d1)"
    using solve_key_fresh [OF refs assms(2,3,4) new]
    by (simp add: score_key_def solve_event_def)
  have ref: "core_ref ?d1 ?s"
  proof -
    have "settled ?d1 ec (\<lambda>y. y = tm)" by (auto simp: settled_def)
    then show ?thesis
      unfolding core_ref_def using assms(2,3)
      by (rule_tac conjI, intro impI exI [of _ ecID] exI [of _ ec] conjI disjI1 exI [of _ teamID]
           exI [of _ tm]) (simp_all add: solve_event_def)
  qed
  have fbref: "core_ref ?d1 ?f"
  proof -
    have "settled ?d1 ec (\<lambda>_. True)" by (auto simp: settled_def)
    then show ?thesis
      unfolding core_ref_def using assms(2)
      by (rule_tac conjI, intro impI exI [of _ ecID] exI [of _ ec] conjI disjI2)
         (simp_all add: firstblood_event_def)
  qed
  have fbkey: "fresh_key score_key (score_key ?f) (score_events (post_score ?s ?d1))"
    if "solved_by ec d = {}"
  proof -
    have "\<not> (\<exists>s \<in> set (submissions d). sb_correct s \<and> sb_ec s = ec)"
      using that by (auto simp: solved_by_def)
    from firstblood_key_fresh [OF refs assms(2,4) this] show ?thesis
      by (auto simp: fresh_key_iff score_key_def solve_event_def firstblood_event_def)
  qed
  have one: "books (upsert_board (?b pts) (post_score ?s ?d1))"
    by (rule books_post [OF b1 key _ _ _ ref])
       (simp_all add: solve_event_def solve_amount_def score_account_def board_key_def)
  have two: "books (upsert_board (?b (pts + bonus)) (post_score ?f (post_score ?s ?d1)))"
    if "solved_by ec d = {}"
    by (rule books_post_two [OF b1 key fbkey [OF that] _ _ _ _ ref fbref])
       (simp_all add: solve_event_def firstblood_event_def solve_amount_def score_account_def
          board_key_def)
  show ?thesis
    using res one two by (auto simp: after_solve_def Let_def split: if_splits)
qed

lemma insert_submission_unique:
  assumes "insert_submission eventID ecID teamID userID h correct ip now u d = Inl UniqueViolation"
  shows "\<exists>ec tm. uuid_in ecID = Some ec \<and> uuid_in teamID = Some tm \<and> tm \<in> solved_by ec d"
  using assms unfolding insert_submission_def cast_uuid_def require_def
  by (auto simp: list_ex_iff solved_by_def split: option.splits if_splits)

text \<open>The outcome of \<open>RecordSolve\<close>, on every path.\<close>

definition solve_applied ::
  "event \<Rightarrow> string \<Rightarrow> string \<Rightarrow> string \<Rightarrow> string \<Rightarrow> string \<Rightarrow> int \<Rightarrow> database \<Rightarrow>
   bool \<Rightarrow> int \<Rightarrow> database \<Rightarrow> bool"
where
  "solve_applied e ecID teamID userID h ip pts d first tot d' \<longleftrightarrow>
     (\<exists>ec tm us now. uuid_in ecID = Some ec \<and> uuid_in teamID = Some tm \<and> uuid_in userID = Some us \<and>
        ec \<in> c_id ` set (challenges d) \<and> tm \<notin> solved_by ec d \<and>
        after_solve (e_id e) ecID teamID ec tm us h (nilIfEmpty ip) pts (e_bonus e) now d =
          (first, tot, d'))"

definition solve_outcome ::
  "event \<Rightarrow> string \<Rightarrow> string \<Rightarrow> string \<Rightarrow> string \<Rightarrow> string \<Rightarrow> int \<Rightarrow> database \<Rightarrow>
   store_error + solve_result \<Rightarrow> database \<Rightarrow> bool"
where
  "solve_outcome e ecID teamID userID h ip pts d r d' \<longleftrightarrow>
     (case r of
        Inr res \<Rightarrow>
          (if already_solved res
           then d' = d \<and> \<not> first_blood res \<and> res_points res = pts \<and>
             (\<exists>ec tm. uuid_in ecID = Some ec \<and> uuid_in teamID = Some tm \<and> tm \<in> solved_by ec d)
           else solve_applied e ecID teamID userID h ip pts d (first_blood res) (res_points res) d')
      | Inl err \<Rightarrow> d' = d \<or> (\<exists>first tot. solve_applied e ecID teamID userID h ip pts d first tot d'))"

lemma RecordSolve_wp:
  assumes "books (db w)"
  shows "wp (RecordSolve e ecID teamID userID h ip pts)
    (\<lambda>r w'. solve_outcome e ecID teamID userID h ip pts (db w) r (db w') \<and>
       outbox w' = outbox w \<and> limits w' = limits w) w"
proof -
  let ?Q = "\<lambda>r w'. solve_outcome e ecID teamID userID h ip pts (db w) r (db w') \<and>
       outbox w' = outbox w \<and> limits w' = limits w"
  let ?P = "\<lambda>r w'. case r of
         Rollback v \<Rightarrow> ?Q v (w'\<lparr>db := db w\<rparr>)
       | Commit a \<Rightarrow> ?Q (Inr a) (tick w') \<and> ?Q (Inl (Failed ConnError)) (tick w') \<and>
           ?Q (Inl (Failed ConnError)) ((tick w')\<lparr>db := db w\<rparr>)"
  let ?eID = "uuid_text (e_id e)" and ?now = "clock w 0"
  have refs: "\<forall>s \<in> set (score_events (db w)). core_ref (db w) s"
    using assms by (simp add: books_def)
  have err: "?P (Rollback (Inl (Failed x))) w'" if "outbox w' = outbox w" "limits w' = limits w" for x w'
    using that by (simp add: solve_outcome_def)
  have finish: "wp (tx_try ?now (add_to_board ?eID teamID tot 1 (Some ?now)) fail
      (\<lambda>_. ret (Commit \<lparr>already_solved = False, first_blood = (n = 1), res_points = tot\<rparr>))) ?P w4"
    if "insert_submission ?eID ecID teamID userID h True (nilIfEmpty ip) ?now u1 (db w) = Inr ((), d1)"
      "count_solvers ecID ?now u2 d1 = Inr (n, d2)"
      "insert_score ?eID teamID ''solve'' ''core'' (''solve:'' @ ecID @ '':'' @ teamID)
         pts (JObj []) ?now u3 d2 = Inr (m, d3)"
      "if n = 1 \<and> e_bonus e > 0
       then insert_score ?eID teamID ''award'' ''core'' (''firstblood:'' @ ecID)
              (e_bonus e) (JObj []) ?now u4 d3 = Inr (m', db w4) \<and> tot = pts + e_bonus e
       else db w4 = d3 \<and> tot = pts"
      and "outbox w4 = outbox w" "limits w4 = limits w"
    for u1 u2 u3 u4 d1 d2 d3 n m m' tot w4
  proof (rule wp_tx_try)
    fix a d5
    assume "add_to_board ?eID teamID tot 1 (Some ?now) ?now (uuids w4 0) (db w4) = Inr (a, d5)"
    then have "add_to_board ?eID teamID tot 1 (Some ?now) ?now (uuids w4 0) (db w4) = Inr ((), d5)" by simp
    from solve_statements [OF refs that(1-4) this]
    have "solve_applied e ecID teamID userID h ip pts (db w) (n = 1) tot d5"
      unfolding solve_applied_def by metis
    then show "wp (ret (Commit \<lparr>already_solved = False, first_blood = (n = 1), res_points = tot\<rparr>)) ?P
        (tick w4\<lparr>db := d5\<rparr>)"
      using that(5,6) by (auto simp: solve_outcome_def)
  qed (use that(5,6) in \<open>simp add: solve_outcome_def\<close>)
  show ?thesis
    unfolding RecordSolve_def Let_def
  proof (rule wp_transaction)
    show "wp (tx_try ?now (insert_submission ?eID ecID teamID userID h True (nilIfEmpty ip))
          (\<lambda>err. if err = UniqueViolation
                 then Inr \<lparr>already_solved = True, first_blood = False, res_points = pts\<rparr>
                 else Inl (Failed err))
          (\<lambda>_. tx_try ?now (count_solvers ecID) fail (\<lambda>n.
             tx_try ?now (insert_score ?eID teamID ''solve'' ''core'' (''solve:'' @ ecID @ '':'' @ teamID)
                      pts (JObj [])) fail (\<lambda>_.
               if n = 1 \<and> e_bonus e > 0 then
                tx_try ?now (insert_score ?eID teamID ''award'' ''core'' (''firstblood:'' @ ecID)
                              (e_bonus e) (JObj [])) fail (\<lambda>_.
                  tx_try ?now (add_to_board ?eID teamID (pts + e_bonus e) 1 (Some ?now)) fail (\<lambda>_.
                   ret (Commit \<lparr>already_solved = False, first_blood = (n = 1),
                                 res_points = pts + e_bonus e\<rparr>)))
              else tx_try ?now (add_to_board ?eID teamID pts 1 (Some ?now)) fail (\<lambda>_.
                   ret (Commit \<lparr>already_solved = False, first_blood = (n = 1), res_points = pts\<rparr>))))))
        ?P (tick w)"
      apply (rule wp_tx_try)
       apply (rule wp_tx_try)
        apply (rule wp_tx_try)
         apply (simp only: split: if_split)
         apply (intro conjI impI)
          apply (rule wp_tx_try)
           apply (rule finish; simp)
          apply (rule err; simp)
         apply (rule finish; simp)
        apply (rule err; simp)
       apply (rule err; simp)
      apply (auto simp: solve_outcome_def dest: insert_submission_unique)
      done
  qed (simp add: solve_outcome_def)
qed

subsection \<open>Plugin awards\<close>

lemma insert_award_books:
  assumes "books d" and "source \<noteq> ''core''"
    and ins: "insert_score eventID teamID ''award'' source ref pts meta now u d = Inr (n, d1)" and "n \<noteq> 0"
    and bd: "add_to_board eventID teamID pts 0 None now u' d1 = Inr (a, d2)"
  shows "books d2"
proof -
  from ins \<open>n \<noteq> 0\<close> obtain ev tm where ids: "uuid_in eventID = Some ev" "uuid_in teamID = Some tm"
    and key: "fresh_key score_key (ev, source, ref) (score_events d)"
    and d1: "d1 = post_score \<lparr>se_event = ev, se_team = tm, se_kind = ''award'', se_source = source,
             se_ref = ref, se_points = pts, se_at = now, se_meta = meta\<rparr> d"
    by (auto simp: insert_score_Inr split: if_splits)
  from bd ids have "d2 = upsert_board \<lparr>b_event = ev, b_team = tm, b_points = pts, b_solves = 0,
      b_last = None\<rparr> d1"
    by (auto simp: add_to_board_Inr)
  then show ?thesis
    unfolding d1 using assms(1,2) key
    by (simp only:) (rule books_post; simp add: score_key_def score_account_def board_key_def
        solve_amount_def core_ref_def)
qed

lemma PluginAward_books:
  assumes "books (db w)" and "source \<noteq> ''core''"
  shows "wp (PluginAward eventID teamID source ref pts meta) (\<lambda>r w'. books (db w')) w"
  unfolding PluginAward_def Let_def
  apply (rule wp_transaction)
   apply (rule wp_tx_try)
    apply (simp only: split: if_split)
    apply (intro conjI impI)
     apply (auto simp: insert_score_Inr assms(1) split: if_splits)[1]
    apply (rule wp_tx_try)
     apply (use insert_award_books [OF assms] in \<open>auto simp: assms(1)\<close>)
  done

lemma delete_score_Inr:
  "delete_score eventID source ref now u d = Inr (r, d') \<longleftrightarrow>
     (\<exists>ev. uuid_in eventID = Some ev \<and>
        r = find (\<lambda>s. score_key s = (ev, source, ref)) (score_events d) \<and>
        d' = (case r of None \<Rightarrow> d | Some s \<Rightarrow> drop_score s d))"
  unfolding delete_score_def cast_uuid_Inr
  by (intro ex_cong1) (auto split: option.split)

lemma DeletePluginAward_books:
  assumes "books (db w)" and "source \<noteq> ''core''"
  shows "wp (DeletePluginAward eventID source ref) (\<lambda>r w'. books (db w')) w"
proof -
  have revoked: "books (charge_board s (drop_score s (db w)))"
    if "find (\<lambda>s. score_key s = (ev, source, ref)) (score_events (db w)) = Some s" for s ev
  proof (rule books_revoke [OF assms(1)])
    from find_SomeD [OF that] show "s \<in> set (score_events (db w))" and "se_kind s \<noteq> ''solve''"
      using assms by (auto simp: books_def core_ref_def score_key_def)
  qed
  show ?thesis
    unfolding DeletePluginAward_def
    apply (rule wp_transaction)
     apply (rule wp_tx_try)
      apply (simp only: split: option.split)
      apply (intro conjI impI allI)
       apply (auto simp: delete_score_Inr assms(1))[1]
      apply (rule wp_tx_try)
       apply (auto simp: delete_score_Inr charge_stmt_def Let_def assms(1) intro: revoked)
    done
qed

end
