(* ===== verification/Points.thy ===== *)
theory Points
  imports Books Demo
begin

text \<open>
  What the scoring methods promise their callers, on top of \<open>Books\<close>: what a first solve pays, that
  a second one pays nothing, that an award can be repeated and taken back.
\<close>

lemmas score_defs = insert_submission_def exists_row_def count_solvers_def insert_score_def
  add_to_board_def fresh_key_def int4_ok_def count_where_def upsert_board_def in_range_board_def
  post_score_def board_key_def

lemma books_demo: "books (db demo_world)"
  by (rule books_no_scores) (simp_all add: demo_defs)

text \<open>A solve of the demo challenge, an award to the demo team.\<close>

definition demo_solve :: "(world, store_error + solve_result) action" where
  "demo_solve = RecordSolve demo_event (uuid_text 5) (uuid_text 3) (uuid_text 2) ''h'' [] 100"

definition demo_solved :: world where
  "demo_solved = snd (run_state demo_solve demo_world)"

lemma demo_solve_run:
  "run_state demo_solve demo_world =
     (Inr \<lparr>already_solved = False, first_blood = True, res_points = 150\<rparr>, demo_solved)"
proof -
  have "fst (run_state demo_solve demo_world) =
      Inr \<lparr>already_solved = False, first_blood = True, res_points = 150\<rparr>"
    unfolding demo_solve_def
    by (simp add: RecordSolve_def transaction_def run_simps call_defs demo_defs Let_def
        nilIfEmpty_def score_defs)
  then show ?thesis by (simp add: demo_solved_def prod_eq_iff)
qed

definition demo_award :: "(world, store_error + bool) action" where
  "demo_award = PluginAward (uuid_text 4) (uuid_text 3) ''plugin:koth'' ''r1'' 10 None"

definition demo_awarded :: world where
  "demo_awarded = snd (run_state demo_award demo_world)"

lemma demo_award_run: "run_state demo_award demo_world = (Inr True, demo_awarded)"
proof -
  have "fst (run_state demo_award demo_world) = Inr True"
    unfolding demo_award_def
    by (simp add: PluginAward_def transaction_def run_simps call_defs demo_defs Let_def score_defs)
  then show ?thesis by (simp add: demo_awarded_def prod_eq_iff)
qed

subsection \<open>Solves\<close>

lemma solve_books:
  assumes "books (db w)" and "run_state (RecordSolve e ecID teamID userID h ip pts) w = (r, w')"
  shows "solve_outcome e ecID teamID userID h ip pts (db w) r (db w')"
  using wpD [OF RecordSolve_wp [OF assms(1)] assms(2)] by simp

lemma solve_keeps_books:
  assumes "books (db w)" and "run_state (RecordSolve e ecID teamID userID h ip pts) w = (r, w')"
  shows "books (db w')"
  using solve_books [OF assms] after_solve_books [OF assms(1)] assms(1)
  by (fastforce simp: solve_outcome_def solve_applied_def split: sum.splits if_splits)

lemma solved_by_upsert [simp]: "solved_by ec (upsert_board b d) = solved_by ec d"
  by (simp add: solved_by_def)

lemma solved_by_post [simp]: "solved_by ec (post_score s d) = solved_by ec d"
  by (simp add: solved_by_def)

lemma solved_by_submission:
  "solved_by ec (d\<lparr>submissions := submissions d @ [s]\<rparr>) =
     (if sb_correct s \<and> sb_ec s = ec then insert (sb_team s) (solved_by ec d) else solved_by ec d)"
  by (auto simp: solved_by_def)

lemma shown_submissions [simp]:
  "shown_points (d\<lparr>submissions := x\<rparr>) = shown_points d"
  "shown_solves (d\<lparr>submissions := x\<rparr>) = shown_solves d"
  by (simp_all add: shown_points_def shown_solves_def fun_eq_iff)

text \<open>What a solve adds to the shown totals, and whom it makes a solver.\<close>

definition paid :: "uuid \<times> uuid \<Rightarrow> int \<Rightarrow> int \<Rightarrow> database \<Rightarrow> database \<Rightarrow> bool" where
  "paid acc pts n d d' \<longleftrightarrow>
     (\<forall>k. shown_points d' k = shown_points d k + (if k = acc then pts else 0) \<and>
          shown_solves d' k = shown_solves d k + (if k = acc then n else 0))"

lemma after_solve_paid:
  assumes "after_solve ev ecID teamID ec tm us h ip pts bonus now d = (first, tot, d')"
  shows "paid (ev, tm) tot 1 d d'"
    and "tot = pts + (if first then max 0 bonus else 0)"
    and "first \<longleftrightarrow> solved_by ec d = {}"
    and "solved_by ec d' = insert tm (solved_by ec d)"
    and "ec' \<noteq> ec \<Longrightarrow> solved_by ec' d' = solved_by ec' d"
  using assms
  by (auto simp: after_solve_def Let_def paid_def point_ledger.shown_adjust point_ledger.shown_post
      solve_ledger.shown_adjust solve_ledger.shown_post board_key_def solved_by_submission
      split: if_splits)

text \<open>
  C4. A solve is paid in full, to the team that solved, and to nobody else. When \<open>RecordSolve\<close>
  reports a new solve, the team's entry on the scoreboard has grown by one solve and by the points
  it reports, which are the challenge's and, exactly when no team had solved the challenge before,
  the event's first-blood bonus; no other entry has changed, and the team now counts as a solver.
\<close>

theorem first_solve_pays:
  assumes "books (db w)"
    and "run_state (RecordSolve e ecID teamID userID h ip pts) w = (Inr res, w')"
    and "\<not> already_solved res"
  shows "\<exists>ec tm. uuid_in ecID = Some ec \<and> uuid_in teamID = Some tm \<and>
     tm \<notin> solved_by ec (db w) \<and> solved_by ec (db w') = insert tm (solved_by ec (db w)) \<and>
     (first_blood res \<longleftrightarrow> solved_by ec (db w) = {}) \<and>
     res_points res = pts + (if first_blood res then max 0 (e_bonus e) else 0) \<and>
     paid (e_id e, tm) (res_points res) 1 (db w) (db w')"
proof -
  from solve_books [OF assms(1,2)] assms(3) obtain ec tm us now
    where "uuid_in ecID = Some ec" "uuid_in teamID = Some tm" "tm \<notin> solved_by ec (db w)"
      and "after_solve (e_id e) ecID teamID ec tm us h (nilIfEmpty ip) pts (e_bonus e) now (db w) =
          (first_blood res, res_points res, db w')"
    by (auto simp: solve_outcome_def solve_applied_def)
  with after_solve_paid [OF this(4)] show ?thesis by metis
qed

theorem first_solve_pays_witness: "paid (4, 3) 150 1 demo_db (db demo_solved)"
  using first_solve_pays [OF books_demo demo_solve_run [unfolded demo_solve_def]]
  by (auto simp: uuid_in_text demo_event_def demo_world_def)

text \<open>
  C5. A challenge pays a team once. If the team has solved the challenge already, \<open>RecordSolve\<close>
  changes nothing, whatever the spelling of the ids and whatever fails on the way, and a result it
  gives is \<open>AlreadySolved\<close>.
\<close>

theorem second_solve_free:
  assumes "books (db w)"
    and "run_state (RecordSolve e ecID teamID userID h ip pts) w = (r, w')"
    and "uuid_in ecID = Some ec" "uuid_in teamID = Some tm" "tm \<in> solved_by ec (db w)"
  shows "db w' = db w \<and> (\<forall>res. r = Inr res \<longrightarrow> already_solved res \<and> \<not> first_blood res)"
  using solve_books [OF assms(1,2)] assms(3-5)
  by (auto simp: solve_outcome_def solve_applied_def split: sum.splits if_splits)

lemma demo_solved_by: "3 \<in> solved_by 5 (db demo_solved)"
proof -
  from solve_books [OF books_demo demo_solve_run [unfolded demo_solve_def]] obtain us now
    where "after_solve 4 (uuid_text 5) (uuid_text 3) 5 3 us ''h'' None 100 50 now (db demo_world) =
      (True, 150, db demo_solved)"
    by (auto simp: solve_outcome_def solve_applied_def uuid_in_text demo_event_def nilIfEmpty_def)
  from after_solve_paid(4) [OF this] show ?thesis by simp
qed

theorem second_solve_free_witness: "db (snd (run_state demo_solve demo_solved)) = db demo_solved"
  using second_solve_free [OF solve_keeps_books [OF books_demo demo_solve_run [unfolded demo_solve_def]]
      prod.collapse [symmetric] uuid_in_text uuid_in_text demo_solved_by]
  unfolding demo_solve_def by blast

text \<open>
  C6. All or nothing. \<open>RecordSolve\<close> leaves either the database as it was or the submission, the
  score events and the scoreboard entry of one solve; no fault in between leaves part of them.
\<close>

theorem solve_atomic:
  assumes "books (db w)"
    and "run_state (RecordSolve e ecID teamID userID h ip pts) w = (r, w')"
  shows "db w' = db w \<or>
     (\<exists>ec tm us now first tot. uuid_in ecID = Some ec \<and> uuid_in teamID = Some tm \<and>
        tm \<notin> solved_by ec (db w) \<and>
        after_solve (e_id e) ecID teamID ec tm us h (nilIfEmpty ip) pts (e_bonus e) now (db w) =
          (first, tot, db w'))"
  using solve_books [OF assms]
  by (auto simp: solve_outcome_def solve_applied_def split: sum.splits if_splits)

theorem solve_atomic_witness:
  "db demo_solved = demo_db \<or>
     (\<exists>us now first tot. after_solve 4 (uuid_text 5) (uuid_text 3) 5 3 us ''h'' None 100 50 now demo_db =
        (first, tot, db demo_solved))"
  using solve_atomic [OF books_demo demo_solve_run [unfolded demo_solve_def]]
  by (auto simp: uuid_in_text demo_event_def demo_world_def nilIfEmpty_def)

subsection \<open>Awards\<close>

definition award_row ::
  "uuid \<Rightarrow> uuid \<Rightarrow> string \<Rightarrow> string \<Rightarrow> int \<Rightarrow> instant \<Rightarrow> json \<Rightarrow> score_event"
where
  "award_row ev tm source refID pts now meta =
     \<lparr>se_event = ev, se_team = tm, se_kind = ''award'', se_source = source, se_ref = refID,
      se_points = pts, se_at = now, se_meta = meta\<rparr>"

definition award_applied ::
  "string \<Rightarrow> string \<Rightarrow> string \<Rightarrow> string \<Rightarrow> int \<Rightarrow> database \<Rightarrow> database \<Rightarrow> bool"
where
  "award_applied eventID teamID source refID pts d d' \<longleftrightarrow>
     (\<exists>ev tm now m. uuid_in eventID = Some ev \<and> uuid_in teamID = Some tm \<and>
        fresh_key score_key (ev, source, refID) (score_events d) \<and>
        d' = upsert_board \<lparr>b_event = ev, b_team = tm, b_points = pts, b_solves = 0, b_last = None\<rparr>
               (post_score (award_row ev tm source refID pts now m) d))"

definition award_outcome ::
  "string \<Rightarrow> string \<Rightarrow> string \<Rightarrow> string \<Rightarrow> int \<Rightarrow> database \<Rightarrow> store_error + bool \<Rightarrow> database \<Rightarrow> bool"
where
  "award_outcome eventID teamID source refID pts d r d' \<longleftrightarrow>
     (case r of
        Inr b \<Rightarrow>
          (if b then award_applied eventID teamID source refID pts d d'
           else d' = d \<and> (\<exists>ev. uuid_in eventID = Some ev \<and>
             \<not> fresh_key score_key (ev, source, refID) (score_events d)))
      | Inl e \<Rightarrow> d' = d \<or> award_applied eventID teamID source refID pts d d')"

lemma PluginAward_wp:
  "wp (PluginAward eventID teamID source refID pts meta)
     (\<lambda>r w'. award_outcome eventID teamID source refID pts (db w) r (db w')) w"
proof -
  have applied: "award_applied eventID teamID source refID pts d d2"
    if "insert_score eventID teamID ''award'' source refID pts m now u d = Inr (n, d1)" "n \<noteq> 0"
      "add_to_board eventID teamID pts 0 None now u' d1 = Inr (a, d2)" for m now u u' n d d1 d2 a
    using that
    by (auto simp: insert_score_Inr add_to_board_Inr award_applied_def award_row_def split: if_splits)
  show ?thesis
    unfolding PluginAward_def Let_def
    apply (rule wp_transaction)
     apply (rule wp_tx_try)
      apply (simp only: split: if_split)
      apply (intro conjI impI)
       apply (auto simp: insert_score_Inr award_outcome_def split: if_splits)[1]
      apply (rule wp_tx_try)
       apply (auto simp: award_outcome_def dest: applied)
    done
qed

definition revoke_outcome ::
  "string \<Rightarrow> string \<Rightarrow> string \<Rightarrow> database \<Rightarrow> store_error + bool \<Rightarrow> database \<Rightarrow> bool"
where
  "revoke_outcome eventID source refID d r d' \<longleftrightarrow>
     (let revoked = (\<exists>ev s. uuid_in eventID = Some ev \<and>
            find (\<lambda>s. score_key s = (ev, source, refID)) (score_events d) = Some s \<and>
            d' = charge_board s (drop_score s d))
      in case r of
           Inr b \<Rightarrow>
             (if b then revoked
              else d' = d \<and> (\<exists>ev. uuid_in eventID = Some ev \<and>
                fresh_key score_key (ev, source, refID) (score_events d)))
         | Inl e \<Rightarrow> d' = d \<or> revoked)"

lemma find_None_fresh: "find (\<lambda>r. key r = k) rows = None \<longleftrightarrow> fresh_key key k rows"
  by (auto simp: fresh_key_def find_None_iff list_ex_iff)

lemma DeletePluginAward_wp:
  "wp (DeletePluginAward eventID source refID)
     (\<lambda>r w'. revoke_outcome eventID source refID (db w) r (db w')) w"
  unfolding DeletePluginAward_def
  apply (rule wp_transaction)
   apply (rule wp_tx_try)
    apply (simp only: split: option.split)
    apply (intro conjI impI allI)
     apply (auto simp: delete_score_Inr revoke_outcome_def find_None_fresh eq_commute [of None])[1]
    apply (rule wp_tx_try)
     apply (auto simp: delete_score_Inr charge_stmt_def Let_def revoke_outcome_def
        eq_commute [of "Some x" for x])
  done

text \<open>
  C9. An award counts once. Once a plugin's award has been applied, repeating it under the same
  reference (for whatever team and points) changes nothing and reports that it was not applied, so
  that a plugin may retry.
\<close>

theorem award_once:
  assumes "run_state (PluginAward eventID teamID source refID pts meta) w = (Inr True, w1)"
    and "db w2 = db w1"
    and "run_state (PluginAward eventID teamID' source refID pts' meta') w2 = (r, w3)"
  shows "db w3 = db w1 \<and> (\<forall>b. r = Inr b \<longrightarrow> \<not> b)"
  using wpD [OF PluginAward_wp assms(1)] wpD [OF PluginAward_wp assms(3)] assms(2)
  by (auto simp: award_outcome_def award_applied_def fresh_key_iff score_key_def award_row_def
      split: sum.splits if_splits)

theorem award_once_witness: "db (snd (run_state demo_award demo_awarded)) = db demo_awarded"
  using award_once [OF demo_award_run [unfolded demo_award_def] refl prod.collapse [symmetric]]
  unfolding demo_award_def by blast

lemma drop_posted:
  assumes "fresh_key score_key (score_key s) (score_events d)"
  shows "score_events (drop_score s (upsert_board b (post_score s d))) = score_events d"
  using assms by (simp add: drop_score_def fresh_key_iff filter_id_conv image_iff) metis

lemma find_posted:
  assumes "fresh_key score_key (score_key s) (score_events d)"
  shows "find (\<lambda>x. score_key x = score_key s) (score_events (upsert_board b (post_score s d))) = Some s"
  using assms by (simp add: find_append find_fresh)

text \<open>
  C10. An award can be taken back. Deleting an award that has just been applied succeeds in removing
  it, unless it reports an error; it restores the journal of score events, and every total on the
  scoreboard.
\<close>

theorem award_revoked:
  assumes "run_state (PluginAward eventID teamID source refID pts meta) w = (Inr True, w1)"
    and "db w2 = db w1"
    and "run_state (DeletePluginAward eventID source refID) w2 = (Inr b, w3)"
  shows "b \<and> score_events (db w3) = score_events (db w) \<and> paid acc 0 0 (db w) (db w3)"
proof -
  from wpD [OF PluginAward_wp assms(1)] obtain ev tm now m
    where ids: "uuid_in eventID = Some ev" "uuid_in teamID = Some tm"
      and fresh: "fresh_key score_key (ev, source, refID) (score_events (db w))"
      and d1: "db w1 = upsert_board \<lparr>b_event = ev, b_team = tm, b_points = pts, b_solves = 0, b_last = None\<rparr>
                 (post_score (award_row ev tm source refID pts now m) (db w))"
    unfolding award_outcome_def award_applied_def by auto
  let ?s = "award_row ev tm source refID pts now m"
  have key: "score_key ?s = (ev, source, refID)" by (simp add: score_key_def award_row_def)
  note posted = find_posted [of ?s "db w", unfolded key, OF fresh]
  have found: "find (\<lambda>x. score_key x = (ev, source, refID)) (score_events (db w2)) = Some ?s"
    using posted by (simp add: assms(2) d1)
  then have "\<not> fresh_key score_key (ev, source, refID) (score_events (db w2))"
    by (auto dest: find_fresh)
  with wpD [OF DeletePluginAward_wp assms(3)] ids found
  have b: b and d3: "db w3 = charge_board ?s (drop_score ?s (db w2))"
    by (auto simp: revoke_outcome_def Let_def split: if_splits)
  have "paid acc 0 0 (db w) (db w3)"
  proof -
    have acc: "score_account ?s = (ev, tm)" by (simp add: score_account_def award_row_def)
    let ?x = "\<lparr>b_event = ev, b_team = tm, b_points = pts, b_solves = 0, b_last = None\<rparr>"
    have bk: "board_key ?x = (ev, tm)" and pts: "se_points ?s = pts"
      by (simp_all add: board_key_def award_row_def)
    have "find (\<lambda>x. board_key x = k) (board (db w3)) =
        (if k = (ev, tm) then Some (case find (\<lambda>x. board_key x = k) (board (db w)) of
            None \<Rightarrow> ?x\<lparr>b_points := 0\<rparr> | Some b \<Rightarrow> b)
         else find (\<lambda>x. board_key x = k) (board (db w)))" for k
      unfolding d3 assms(2) find_charge acc d1 pts
      by (simp add: find_upsert bk add_entry_def split: option.split)
    then show ?thesis
      by (simp add: paid_def shown_points_def shown_solves_def split: option.split)
  qed
  moreover have "score_events (db w3) = score_events (db w)"
    using drop_posted [of ?s "db w"] fresh key by (simp add: d3 assms(2) d1)
  ultimately show ?thesis using b by blast
qed

definition demo_revoke :: "(world, store_error + bool) action" where
  "demo_revoke = DeletePluginAward (uuid_text 4) ''plugin:koth'' ''r1''"

lemma demo_revoke_run:
  "run_state demo_revoke demo_awarded = (Inr True, snd (run_state demo_revoke demo_awarded))"
proof -
  have "fst (run_state demo_revoke demo_awarded) = Inr True"
    unfolding demo_revoke_def demo_awarded_def demo_award_def
    by (simp add: PluginAward_def DeletePluginAward_def transaction_def run_simps call_defs demo_defs
        Let_def score_defs delete_score_def score_key_def charge_stmt_def charge_board_def
        drop_score_def update_where_def)
  then show ?thesis by (simp add: prod_eq_iff)
qed

theorem award_revoked_witness:
  "score_events (db (snd (run_state demo_revoke demo_awarded))) = []"
  using award_revoked [OF demo_award_run [unfolded demo_award_def] refl
      demo_revoke_run [unfolded demo_revoke_def]]
  by (simp add: demo_revoke_def demo_world_def demo_db_def empty_db_def)

end
