(* ===== verification/Plugin_Api.thy ===== *)
theory Plugin_Api
  imports Auth Points
begin

text \<open>
  The plugin API (\<open>internal/httpserver/plugins.go\<close>), the King of the Hill plugin that uses it
  (\<open>cmd/koth-plugin/main.go\<close>) and the operator's check of a plugin (\<open>cmd/reduta-cli/main.go\<close>). The
  theorems follow a webhook to the plugin and the plugin's award back to the server.
\<close>

subsection \<open>The server\<close>

definition bearer :: "string \<Rightarrow> string option" where
  "bearer h = (if prefix ''Bearer '' h then Some (trim_space (drop 7 h)) else None)"

definition pluginAuth ::
  "platform \<Rightarrow> string \<Rightarrow> (plugin \<Rightarrow> (world, 'a reply) action) \<Rightarrow> (world, 'a reply) action"
where
  "pluginAuth P header k =
     (case bearer header of
        None \<Rightarrow> ret (Problem 401 ''plugin bearer token required'')
      | Some tok \<Rightarrow> do {
          p \<leftarrow> PluginByToken (HashToken P tok);
          (case p of Inl _ \<Rightarrow> ret (Problem 401 ''invalid plugin token'') | Inr p \<Rightarrow> k p)
        })"

record plugin_input =
  pi_id :: string
  pi_name :: string
  pi_base_url :: string
  pi_capabilities :: "json option"
  pi_events :: "json option"

definition plugin_fields :: "(string \<times> plugin_input setter) list" where
  "plugin_fields =
     [(''id'', set_string (\<lambda>x r. r\<lparr>pi_id := x\<rparr>)),
      (''name'', set_string (\<lambda>x r. r\<lparr>pi_name := x\<rparr>)),
      (''base_url'', set_string (\<lambda>x r. r\<lparr>pi_base_url := x\<rparr>)),
      (''capabilities'', set_raw (\<lambda>x r. r\<lparr>pi_capabilities := x\<rparr>)),
      (''events'', set_raw (\<lambda>x r. r\<lparr>pi_events := x\<rparr>))]"

definition zero_plugin_input :: plugin_input where
  "zero_plugin_input = \<lparr>pi_id = [], pi_name = [], pi_base_url = [], pi_capabilities = None, pi_events = None\<rparr>"

text \<open>The error of \<open>RandomToken\<close> is dropped; its result is then the empty string.\<close>

definition or_empty :: "string option \<Rightarrow> string" where
  "or_empty t = (case t of None \<Rightarrow> [] | Some t \<Rightarrow> t)"

text \<open>The answer: id, token and secret.\<close>

definition handleRegisterPlugin ::
  "platform \<Rightarrow> json option \<Rightarrow> (world, (string \<times> string \<times> string) reply) action"
where
  "handleRegisterPlugin P body =
     with_body plugin_fields zero_plugin_input body (\<lambda>i.
       if trim_space (pi_id i) = [] \<or> trim_space (pi_name i) = []
       then ret (Problem 422 ''id and name are required'')
       else do {
         rnd \<leftarrow> random_token;
         secret \<leftarrow> random_token;
         (let token = ''plg_'' @ or_empty rnd
          in do {
            r \<leftarrow> RegisterPlugin (pi_id i) (pi_name i) (pi_base_url i) (or_empty secret) (HashToken P token)
                   (pi_capabilities i) (pi_events i);
            ret (case r of
                   Inl _ \<Rightarrow> Problem 500 ''register failed''
                 | Inr _ \<Rightarrow> Reply 201 (pi_id i, token, or_empty secret))
          })
       })"

definition handleListPlugins :: "(world, plugin list reply) action" where
  "handleListPlugins = do {
     r \<leftarrow> ListPlugins;
     ret (case r of Inl _ \<Rightarrow> Problem 500 ''list failed'' | Inr ps \<Rightarrow> Reply 200 ps)
   }"

record award_input =
  aw_event :: string
  aw_team :: string
  aw_points :: int
  aw_ref :: string
  aw_reason :: string
  aw_meta :: "json option"

definition award_fields :: "(string \<times> award_input setter) list" where
  "award_fields =
     [(''event_id'', set_string (\<lambda>x r. r\<lparr>aw_event := x\<rparr>)),
      (''team_id'', set_string (\<lambda>x r. r\<lparr>aw_team := x\<rparr>)),
      (''points'', set_int (\<lambda>x r. r\<lparr>aw_points := x\<rparr>)),
      (''ref_id'', set_string (\<lambda>x r. r\<lparr>aw_ref := x\<rparr>)),
      (''reason'', set_string (\<lambda>x r. r\<lparr>aw_reason := x\<rparr>)),
      (''meta'', set_raw (\<lambda>x r. r\<lparr>aw_meta := x\<rparr>))]"

definition zero_award :: award_input where
  "zero_award = \<lparr>aw_event = [], aw_team = [], aw_points = 0, aw_ref = [], aw_reason = [], aw_meta = None\<rparr>"

definition plugin_source :: "plugin \<Rightarrow> string" where
  "plugin_source p = ''plugin:'' @ p_id p"

definition handlePluginAward ::
  "server \<Rightarrow> plugin \<Rightarrow> json option \<Rightarrow> (world, (bool \<times> string) reply) action"
where
  "handlePluginAward srv p body =
     with_body award_fields zero_award body (\<lambda>i.
       if aw_event i = [] \<or> aw_team i = [] \<or> aw_ref i = []
       then ret (Problem 422 ''event_id, team_id and ref_id are required'')
       else do {
         r \<leftarrow> PluginAward (aw_event i) (aw_team i) (plugin_source p) (aw_ref i) (aw_points i) (aw_meta i);
         (case r of
            Inl _ \<Rightarrow> ret (Problem 500 ''award failed'')
          | Inr applied \<Rightarrow> do {
              (if applied then scoreChanged srv (aw_event i) else ret ());
              ret (Reply 200 (applied, aw_ref i))
            })
       })"

definition handleDeletePluginAward ::
  "server \<Rightarrow> plugin \<Rightarrow> string \<Rightarrow> string \<Rightarrow> (world, bool reply) action"
where
  "handleDeletePluginAward srv p eventID refID =
     (if eventID = [] then ret (Problem 422 ''event_id query is required'')
      else do {
        r \<leftarrow> DeletePluginAward eventID (plugin_source p) refID;
        (case r of
           Inl _ \<Rightarrow> ret (Problem 500 ''delete failed'')
         | Inr removed \<Rightarrow> do {
             (if removed then scoreChanged srv eventID else ret ());
             ret (Reply 200 removed)
           })
      })"

definition handlePluginTeams :: "string \<Rightarrow> (world, team list reply) action" where
  "handlePluginTeams eventID = do {
     r \<leftarrow> ListTeams eventID;
     ret (case r of Inl _ \<Rightarrow> Problem 500 ''list failed'' | Inr ts \<Rightarrow> Reply 200 ts)
   }"

definition announce_fields :: "(string \<times> (string \<times> string) setter) list" where
  "announce_fields =
     [(''event_id'', set_string (\<lambda>x (_, t). (x, t))), (''text'', set_string (\<lambda>x (e, _). (e, x)))]"

definition handlePluginAnnounce :: "server \<Rightarrow> plugin \<Rightarrow> json option \<Rightarrow> (world, unit reply) action" where
  "handlePluginAnnounce srv p body =
     with_body announce_fields ([], []) body (\<lambda>(eventID, txt).
       if eventID = [] \<or> txt = [] then ret (Problem 422 ''event_id and text are required'')
       else do {
         publish srv eventID ''announcement'' (JObj [(''from'', JStr (p_id p)), (''text'', JStr txt)]);
         ret (Reply 202 ())
       })"

text \<open>The id; the configuration is always empty.\<close>

definition handlePluginConfig :: "plugin \<Rightarrow> (world, string reply) action" where
  "handlePluginConfig p = ret (Reply 200 (p_id p))"

text \<open>
  One round of the ticker, and the rounds until the server stops; \<open>fmt\<close> writes a time as RFC 3339.
\<close>

definition tick_round :: "platform \<Rightarrow> (instant \<Rightarrow> string) \<Rightarrow> instant \<Rightarrow> (world, unit) action" where
  "tick_round P fmt now = deliverWebhook P ''tick.minute'' (JObj [(''ts'', JStr (fmt now))])"

fun tickLoop :: "platform \<Rightarrow> (instant \<Rightarrow> string) \<Rightarrow> instant list \<Rightarrow> (world, unit) action" where
  "tickLoop P fmt [] = ret ()"
| "tickLoop P fmt (t # ts) = do { tick_round P fmt t; tickLoop P fmt ts }"

subsection \<open>The King of the Hill plugin\<close>

record koth =
  kh_secret :: string
  kh_core_url :: string
  kh_token :: string
  kh_event :: string
  kh_holder :: string
  kh_target :: string

text \<open>A request to \<open>/hooks\<close>: body and headers; one that has no such header has the empty string.\<close>

record hook =
  hk_body :: string
  hk_event :: string
  hk_delivery :: string
  hk_timestamp :: string
  hk_signature :: string

definition tick_ref :: "koth \<Rightarrow> string \<Rightarrow> string" where
  "tick_ref k ts = ''tick:'' @ ts @ '':'' @ kh_target k"

text \<open>The award of a tick, as it is posted to \<open>/api/v1/plugin/v1/awards\<close>.\<close>

definition awardTick :: "koth \<Rightarrow> string \<Rightarrow> json" where
  "awardTick k ts = JObj
     [(''event_id'', JStr (kh_event k)), (''meta'', JObj [(''target'', JStr (kh_target k))]),
      (''points'', JInt 5), (''reason'', JStr (''KotH tick '' @ kh_target k)),
      (''ref_id'', JStr (tick_ref k ts)), (''team_id'', JStr (kh_holder k))]"

text \<open>
  The status, the award that is sent off, and the delivery ids seen afterwards. The body is read up
  to a mebibyte.
\<close>

definition hooks :: "platform \<Rightarrow> koth \<Rightarrow> string list \<Rightarrow> hook \<Rightarrow> nat \<times> json option \<times> string list" where
  "hooks P k seen h =
     (let body = take (2 ^ 20) (hk_body h)
      in if hk_signature h \<noteq> ''sha256='' @ hex_encode (hmac P (kh_secret k) (hk_timestamp h @ ''.'' @ body))
         then (401, None, seen)
         else if hk_delivery h \<noteq> [] \<and> List.member seen (hk_delivery h) then (200, None, seen)
         else (200,
               (if hk_event h = ''tick.minute'' \<and> kh_core_url k \<noteq> [] \<and> kh_token k \<noteq> [] \<and>
                   kh_event k \<noteq> [] \<and> kh_holder k \<noteq> []
                then Some (awardTick k (hk_timestamp h)) else None),
               (if hk_delivery h \<noteq> [] then hk_delivery h # seen else seen)))"

subsection \<open>The operator's check\<close>

text \<open>
  \<open>reduta-cli plugin verify\<close> against the server under test, a step function from its state and a
  request to the status (\<open>None\<close>: no answer) and the next state: three requests, exit code 0 when
  all three checks pass.
\<close>

definition probe :: "string \<Rightarrow> string \<Rightarrow> string \<Rightarrow> string \<Rightarrow> hook" where
  "probe delivery ts sig body = \<lparr>hk_body = body, hk_event = ''tick.minute'', hk_delivery = delivery,
     hk_timestamp = ts, hk_signature = sig\<rparr>"

definition in_hundreds :: "nat option \<Rightarrow> nat \<Rightarrow> bool" where
  "in_hundreds code n = (case code of None \<Rightarrow> False | Some c \<Rightarrow> 100 * n \<le> c \<and> c < 100 * (n + 1))"

definition probe_body :: string where
  "probe_body = marshal (JObj [(''type'', JStr ''tick.minute''), (''ts'', JStr ''2026-01-01T00:00:00Z'')])"

definition cli_verify ::
  "platform \<Rightarrow> string \<Rightarrow> instant \<Rightarrow> ('s \<Rightarrow> hook \<Rightarrow> nat option \<times> 's) \<Rightarrow> 's \<Rightarrow> nat"
where
  "cli_verify P secret now serve s =
     (let ts = itoa (now div second);
          sig = sign P secret ts probe_body;
          (c1, s) = serve s (probe ''delivery-1'' ts sig probe_body);
          (c2, s) = serve s (probe ''delivery-1'' ts sig probe_body);
          (c3, s) = serve s (probe ''delivery-2'' ts ''sha256=deadbeef'' probe_body)
      in if in_hundreds c1 2 \<and> in_hundreds c2 2 \<and> in_hundreds c3 4 then 0 else 1)"

text \<open>
  The command line: \<open>plugin verify <base_url> [--secret <secret>]\<close>, where the last secret counts;
  anything else is answered with the usage and exit code 2.
\<close>

definition cli_args :: "string list \<Rightarrow> (string \<times> string) option" where
  "cli_args args =
     (if length args \<ge> 3 \<and> args ! 0 = ''plugin'' \<and> args ! 1 = ''verify''
      then Some (args ! 2,
        foldl (\<lambda>secret i. if args ! i = ''--secret'' then args ! (i + 1) else secret)
          ''test-secret'' [3..<length args - 1])
      else None)"

definition cli_main ::
  "platform \<Rightarrow> instant \<Rightarrow> (string \<Rightarrow> 's \<Rightarrow> hook \<Rightarrow> nat option \<times> 's) \<Rightarrow> 's \<Rightarrow> string list \<Rightarrow> nat"
where
  "cli_main P now serve s args =
     (case cli_args args of
        None \<Rightarrow> 2
      | Some (url, secret) \<Rightarrow> cli_verify P secret now (serve (trim_slash url @ ''/hooks'')) s)"

subsection \<open>The plugin takes what the server signs\<close>

lemma hooks_accepts_iff:
  assumes "length (hk_body h) \<le> 2 ^ 20"
  shows "fst (hooks P k seen h) = (if hk_signature h = sign P (kh_secret k) (hk_timestamp h) (hk_body h) then 200 else 401)"
  using assms by (simp add: hooks_def Let_def sign_def)

definition hook_of :: "effect \<Rightarrow> hook option" where
  "hook_of x = (case x of
     Deliver url ev delivery ts sig body \<Rightarrow>
       Some \<lparr>hk_body = body, hk_event = ev, hk_delivery = delivery, hk_timestamp = ts, hk_signature = sig\<rparr>
   | _ \<Rightarrow> None)"

definition sent_to :: "platform \<Rightarrow> string \<Rightarrow> string \<Rightarrow> string \<Rightarrow> plugin \<Rightarrow> effect \<Rightarrow> bool" where
  "sent_to P typ ts body p x \<longleftrightarrow> p_base_url p \<noteq> [] \<and> subscribed (p_events p) typ \<and>
     (\<exists>d. x = Deliver (trim_slash (p_base_url p) @ ''/hooks'') typ d ts (sign P (p_secret p) ts body) body)"

lemma wp_send_hooks:
  "wp (send_hooks P typ ts body ps) (\<lambda>_ w'. \<exists>new. outbox w' = outbox w @ new \<and>
     list_all2 (sent_to P typ ts body) (filter (\<lambda>p. p_base_url p \<noteq> [] \<and> subscribed (p_events p) typ) ps) new) w"
proof (induction ps arbitrary: w)
  case Nil
  then show ?case by simp
next
  case (Cons p ps)
  show ?case
  proof (cases "p_base_url p = [] \<or> \<not> subscribed (p_events p) typ")
    case True
    then show ?thesis using Cons.IH [of w] by (auto simp del: trim_slash.simps)
  next
    case False
    let ?x = "Deliver (trim_slash (p_base_url p) @ ''/hooks'') typ (or_empty (tokens w 0)) ts (sign P (p_secret p) ts body) body"
    have "sent_to P typ ts body p ?x" using False by (simp add: sent_to_def del: trim_slash.simps)
    then show ?thesis
      using False
      by (simp add: or_empty_def [symmetric] del: trim_slash.simps)
        (rule wp_mono [OF Cons.IH], force simp del: trim_slash.simps)
  qed
qed

lemma list_all2_source: "list_all2 R xs ys \<Longrightarrow> y \<in> set ys \<Longrightarrow> \<exists>x \<in> set xs. R x y"
  by (induction rule: list_all2_induct) auto

lemma wp_deliverWebhook:
  "wp (deliverWebhook P typ payload) (\<lambda>_ w'. \<exists>new. outbox w' = outbox w @ new \<and>
     (\<forall>x \<in> set new. \<exists>p \<in> set (plugins (db w)). \<exists>ts. sent_to P typ ts (marshal payload) p x)) w"
  unfolding deliverWebhook_def ListPlugins_def wp_bind
proof (rule wp_query)
  show "wp (ret (failed (Inl e))) (\<lambda>r. wp (case r of Inl e \<Rightarrow> ret () | Inr ps \<Rightarrow> do {
       now \<leftarrow> time_now; send_hooks P typ (itoa (now div second)) (marshal payload) ps})
     (\<lambda>_ w'. \<exists>new. outbox w' = outbox w @ new \<and>
       (\<forall>x \<in> set new. \<exists>p \<in> set (plugins (db w)). \<exists>ts. sent_to P typ ts (marshal payload) p x))) (tick w)" for e
    by (simp add: failed_simps)
next
  let ?ps = "order_by (\<lambda>p q. name_le (p_id p) (p_id q)) (plugins (db w))"
  have sent: "\<forall>x \<in> set new. \<exists>p \<in> set (plugins (db w)). \<exists>ts. sent_to P typ ts body p x"
    if "list_all2 (sent_to P typ ts body) (filter Q ?ps) new" for new ts body Q
    using list_all2_source [OF that] by fastforce
  show "wp (ret (failed (Inr ?ps))) (\<lambda>r. wp (case r of Inl e \<Rightarrow> ret () | Inr ps \<Rightarrow> do {
       now \<leftarrow> time_now; send_hooks P typ (itoa (now div second)) (marshal payload) ps})
     (\<lambda>_ w'. \<exists>new. outbox w' = outbox w @ new \<and>
       (\<forall>x \<in> set new. \<exists>p \<in> set (plugins (db w)). \<exists>ts. sent_to P typ ts (marshal payload) p x))) (tick w)"
    unfolding failed_simps wp_ret sum.case wp_bind wp_time_now
    by (rule wp_mono [OF wp_send_hooks]) (use sent in \<open>fastforce\<close>)
qed

text \<open>
  C35. What the server signs, the plugin takes. Every webhook \<open>deliverWebhook\<close> sends goes to a plugin
  that has an address and has subscribed to the event, and the hook handler of the King of the Hill
  plugin, run with that plugin's secret, answers it with 200, whatever it has seen before. The plugin
  reads at most a mebibyte of the body, so a longer one is excluded.
\<close>

theorem webhook_accepted:
  assumes "run_state (deliverWebhook P typ payload) w = (u, w')"
    and "x \<in> set (drop (length (outbox w)) (outbox w'))" and "hook_of x = Some h"
    and "length (marshal payload) \<le> 2 ^ 20"
  shows "\<exists>p \<in> set (plugins (db w)). p_base_url p \<noteq> [] \<and> subscribed (p_events p) typ \<and>
     (\<forall>k seen. kh_secret k = p_secret p \<longrightarrow> fst (hooks P k seen h) = 200)"
proof -
  from wpD [OF wp_deliverWebhook assms(1)] obtain new where "outbox w' = outbox w @ new"
    and "\<forall>x \<in> set new. \<exists>p \<in> set (plugins (db w)). \<exists>ts. sent_to P typ ts (marshal payload) p x" by blast
  with assms(2) obtain p ts
    where p: "p \<in> set (plugins (db w))" "sent_to P typ ts (marshal payload) p x" by auto
  then obtain d where h: "h = \<lparr>hk_body = marshal payload, hk_event = typ, hk_delivery = d, hk_timestamp = ts,
      hk_signature = sign P (p_secret p) ts (marshal payload)\<rparr>"
    using assms(3) by (auto simp: sent_to_def hook_of_def)
  with p assms(4) show ?thesis
    by (intro bexI [of _ p]) (auto simp: sent_to_def hooks_accepts_iff)
qed

definition demo_plugin :: plugin where
  "demo_plugin = \<lparr>p_id = ''koth'', p_name = ''KotH'', p_base_url = ''http://koth/'', p_secret = ''s3'',
     p_token = ''plg_x'', p_capabilities = JArr [], p_events = JArr [JStr ''tick.minute'']\<rparr>"

definition plugin_world :: world where
  "plugin_world = demo_world\<lparr>db := demo_db\<lparr>plugins := [demo_plugin]\<rparr>\<rparr>"

definition demo_koth :: koth where
  "demo_koth = \<lparr>kh_secret = ''s3'', kh_core_url = ''http://core'', kh_token = ''plg_x'',
     kh_event = uuid_text 4, kh_holder = uuid_text 3, kh_target = ''target-1''\<rparr>"

definition demo_tick :: "(world, unit) action" where
  "demo_tick = tick_round demo_platform (\<lambda>_. ''2026-01-01T00:00:00Z'') 0"

lemma demo_subscribed: "subscribed (JArr [JStr ''tick.minute'']) ''tick.minute''"
  by (simp add: subscribed_def string_list_def)

lemma demo_tick_sent:
  "\<exists>h. map hook_of (outbox (snd (run_state demo_tick plugin_world))) = [Some h] \<and> hk_event h = ''tick.minute''"
  by (simp add: demo_tick_def tick_round_def deliverWebhook_def ListPlugins_def query_def plugin_world_def demo_plugin_def
      demo_defs demo_subscribed random_token_def hook_of_def run_simps call_defs del: trim_slash.simps)

theorem webhook_accepted_witness:
  "\<exists>h. map hook_of (outbox (snd (run_state demo_tick plugin_world))) = [Some h] \<and>
     fst (hooks demo_platform demo_koth [] h) = 200"
proof -
  let ?w = "snd (run_state demo_tick plugin_world)"
  obtain h where h: "map hook_of (outbox ?w) = [Some h]"
    using demo_tick_sent by (elim exE conjE) (rule that)
  then obtain x where x: "outbox ?w = [x]" "hook_of x = Some h" by (cases "outbox ?w") auto
  have "outbox plugin_world = []" by (simp add: plugin_world_def demo_world_def)
  with x have sent: "x \<in> set (drop (length (outbox plugin_world)) (outbox ?w))" by simp
  have short: "length (marshal (JObj [(''ts'', JStr ''2026-01-01T00:00:00Z'')])) \<le> 2 ^ 20"
  proof -
    have "length (marshal (JObj [(''ts'', JStr ''2026-01-01T00:00:00Z'')])) = 29" by code_simp
    then show ?thesis by simp
  qed
  have "run_state (deliverWebhook demo_platform ''tick.minute'' (JObj [(''ts'', JStr ''2026-01-01T00:00:00Z'')])) plugin_world =
      (fst (run_state demo_tick plugin_world), ?w)"
    by (simp add: demo_tick_def tick_round_def prod_eq_iff)
  from webhook_accepted [OF this sent x(2) short]
  have "fst (hooks demo_platform demo_koth [] h) = 200"
    by (auto simp: plugin_world_def demo_plugin_def demo_koth_def)
  then show ?thesis by (intro exI [of _ h] conjI h)
qed

text \<open>
  The plugin passes the operator's check: \<open>reduta-cli plugin verify\<close> with the plugin's secret ends
  with exit code 0 against the King of the Hill plugin, whatever deliveries it has seen before and
  whatever the time is. The check sends a wrong signature of four bytes, so MACs are required to have
  another length.
\<close>

theorem koth_passes_verify:
  assumes "\<forall>m. length (hmac P (kh_secret k) m) \<noteq> 4"
  shows "cli_verify P (kh_secret k) now
    (\<lambda>seen h. case hooks P k seen h of (code, _, seen') \<Rightarrow> (Some code, seen')) seen = 0"
proof -
  have short: "length probe_body \<le> 2 ^ 20"
  proof -
    have "length probe_body = 50" by code_simp
    then show ?thesis by simp
  qed
  have "''sha256=deadbeef'' \<noteq> sign P (kh_secret k) ts body" for ts body
  proof
    assume "''sha256=deadbeef'' = sign P (kh_secret k) ts body"
    then have "length ''deadbeef'' = length (hex_encode (hmac P (kh_secret k) (ts @ ''.'' @ body)))"
      by (simp add: sign_def)
    then have "8 = 2 * length (hmac P (kh_secret k) (ts @ ''.'' @ body))" by simp
    then show False using assms [rule_format, of "ts @ ''.'' @ body"] by presburger
  qed
  then show ?thesis
    using short
    by (simp add: cli_verify_def Let_def split_beta in_hundreds_def hooks_accepts_iff probe_def)
qed

theorem koth_passes_verify_witness:
  "cli_main (demo_platform\<lparr>hmac := \<lambda>k m. k @ m @ ''12345''\<rparr>) 0
     (\<lambda>url seen h. case hooks (demo_platform\<lparr>hmac := \<lambda>k m. k @ m @ ''12345''\<rparr>) demo_koth seen h of
        (code, _, seen') \<Rightarrow> (Some code, seen'))
     [] [''plugin'', ''verify'', ''http://koth'', ''--secret'', ''s3''] = 0"
proof -
  let ?P = "demo_platform\<lparr>hmac := \<lambda>k m. k @ m @ ''12345''\<rparr>"
  have "cli_args [''plugin'', ''verify'', ''http://koth'', ''--secret'', ''s3''] = Some (''http://koth'', ''s3'')"
    by (simp add: cli_args_def upt_rec)
  moreover have "\<forall>m. length (hmac ?P (kh_secret demo_koth) m) \<noteq> 4" by simp
  from koth_passes_verify [OF this, of 0 "[]"]
  have "cli_verify ?P ''s3'' 0 (\<lambda>seen h. case hooks ?P demo_koth seen h of (code, _, seen') \<Rightarrow> (Some code, seen')) [] = 0"
    by (simp add: demo_koth_def)
  ultimately show ?thesis by (simp add: cli_main_def)
qed

subsection \<open>A tick is paid once\<close>

text \<open>Requests to the plugin one after the other, and its awards served by the core as they come.\<close>

fun serve_hooks ::
  "platform \<Rightarrow> server \<Rightarrow> plugin \<Rightarrow> koth \<Rightarrow> string list \<Rightarrow> hook list \<Rightarrow> (world, unit) action"
where
  "serve_hooks P srv p k seen [] = ret ()"
| "serve_hooks P srv p k seen (h # hs) =
     (case hooks P k seen h of (code, award, seen') \<Rightarrow> do {
        (case award of None \<Rightarrow> ret () | Some body \<Rightarrow> do { _ \<leftarrow> handlePluginAward srv p (Some body); ret () });
        serve_hooks P srv p k seen' hs
      })"

definition tick_paid :: "koth \<Rightarrow> plugin \<Rightarrow> string \<Rightarrow> database \<Rightarrow> database \<Rightarrow> bool" where
  "tick_paid k p ts d d' \<longleftrightarrow> d' = d \<or>
     award_applied (kh_event k) (kh_holder k) (plugin_source p) (tick_ref k ts) 5 d d'"

lemma decode_awardTick:
  "decodeJSON award_fields zero_award (Some (awardTick k ts)) = Some \<lparr>aw_event = kh_event k, aw_team = kh_holder k,
     aw_points = 5, aw_ref = tick_ref k ts, aw_reason = ''KotH tick '' @ kh_target k,
     aw_meta = Some (JObj [(''target'', JStr (kh_target k))])\<rparr>"
  by (simp add: decodeJSON_def award_fields_def zero_award_def awardTick_def tick_ref_def set_raw_def ascii_lower_def
      int64_ok_def min_int64_def max_int64_def)

lemma award_applied_final:
  assumes "award_applied e t s r pts d d'" and "award_outcome e t s r pts d' x d''"
  shows "d'' = d'"
  using assms
  by (auto simp: award_outcome_def award_applied_def fresh_key_iff score_key_def award_row_def
      split: sum.splits if_splits)

lemma award_keeps_tick_paid:
  assumes "tick_paid k p ts d (db w)"
  shows "wp (handlePluginAward srv p (Some (awardTick k ts))) (\<lambda>r w'. tick_paid k p ts d (db w')) w"
proof -
  let ?award = "PluginAward (kh_event k) (kh_holder k) (plugin_source p) (tick_ref k ts) 5
      (Some (JObj [(''target'', JStr (kh_target k))]))"
  have award: "wp ?award (\<lambda>r w'. tick_paid k p ts d (db w') \<and> (\<forall>e. True)) w"
  proof (rule wp_mono [OF PluginAward_wp])
    fix r w'
    assume out: "award_outcome (kh_event k) (kh_holder k) (plugin_source p) (tick_ref k ts) 5
        (db w) r (db w')"
    show "tick_paid k p ts d (db w') \<and> (\<forall>e. True)"
    proof (cases "db w = d")
      case True
      with out show ?thesis by (auto simp: tick_paid_def award_outcome_def split: sum.splits if_splits)
    next
      case False
      with assms have "award_applied (kh_event k) (kh_holder k) (plugin_source p)
          (tick_ref k ts) 5 d (db w)" by (simp add: tick_paid_def)
      with award_applied_final [OF this out] show ?thesis by (simp add: tick_paid_def)
    qed
  qed
  have ref: "tick_ref k ts \<noteq> []" by (simp add: tick_ref_def)
  show ?thesis
    unfolding handlePluginAward_def with_body_def decode_awardTick option.case wp_bind award_input.simps
    using assms
    by (auto simp: ref intro!: wp_mono [OF award] quiet_wp [OF quiet_scoreChanged] split: sum.split)
qed

lemma serve_hooks_tick_paid:
  assumes "\<forall>h \<in> set hs. hk_timestamp h = ts" and "tick_paid k p ts d (db w)"
  shows "wp (serve_hooks P srv p k seen hs) (\<lambda>_ w'. tick_paid k p ts d (db w')) w"
  using assms
proof (induction hs arbitrary: seen w)
  case (Cons h hs)
  obtain code award seen' where run: "hooks P k seen h = (code, award, seen')" by (metis prod_cases3)
  then have award: "award = None \<or> award = Some (awardTick k ts)"
    using Cons.prems(1) by (auto simp: hooks_def Let_def split: if_splits)
  have rest: "wp (serve_hooks P srv p k seen' hs) (\<lambda>_ w'. tick_paid k p ts d (db w')) w1"
    if "tick_paid k p ts d (db w1)" for w1
    using Cons.prems(1) that by (intro Cons.IH) simp_all
  from award show ?case
    using Cons.prems(2)
    by (auto simp: run intro!: rest wp_mono [OF award_keeps_tick_paid])
qed simp

text \<open>
  C36. A tick pays once. However often the webhook of one tick reaches the King of the Hill plugin,
  under one delivery id or, from several servers, under different ones, and whatever fails when the
  core serves the awards the plugin asks for: afterwards the team that holds the hill has 5 points more
  in the event or as many as before, and every other total of the scoreboard is unchanged.
\<close>

theorem tick_paid_once:
  assumes "\<forall>h \<in> set hs. hk_timestamp h = ts"
    and "run_state (serve_hooks P srv p k seen hs) w = (u, w')"
  shows "\<exists>n \<in> {0, 5}. \<forall>acc. shown_points (db w') acc = shown_points (db w) acc +
    (if uuid_in (kh_event k) = Some (fst acc) \<and> uuid_in (kh_holder k) = Some (snd acc) then n else 0)"
proof -
  have "tick_paid k p ts (db w) (db w)" by (simp add: tick_paid_def)
  from wpD [OF serve_hooks_tick_paid [OF assms(1) this] assms(2)]
  consider "db w' = db w" | "award_applied (kh_event k) (kh_holder k) (plugin_source p)
      (tick_ref k ts) 5 (db w) (db w')" by (auto simp: tick_paid_def)
  then show ?thesis
  proof cases
    case 2
    then show ?thesis
      by (intro bexI [of _ 5]) (auto simp: award_applied_def point_ledger.shown_adjust point_ledger.shown_post board_key_def)
  qed auto
qed

definition demo_hook :: "string \<Rightarrow> hook" where
  "demo_hook delivery = \<lparr>hk_body = ''{}'', hk_event = ''tick.minute'', hk_delivery = delivery,
     hk_timestamp = ''60'', hk_signature = sign demo_platform ''s3'' ''60'' ''{}''\<rparr>"

definition demo_hooks :: "(world, unit) action" where
  "demo_hooks = serve_hooks demo_platform demo_server demo_plugin demo_koth [] (map demo_hook [''a'', ''a'', ''b''])"

lemma uuid_text_nonempty: "uuid_text u \<noteq> []"
  by (simp add: uuid_text_def Let_def)

lemma demo_hook_award:
  "hooks demo_platform demo_koth [] (demo_hook ''a'') = (200, Some (awardTick demo_koth ''60''), [''a''])"
  by (simp add: hooks_def demo_hook_def demo_koth_def sign_def Let_def uuid_text_nonempty)

theorem tick_paid_once_witness:
  "fst (hooks demo_platform demo_koth [] (demo_hook ''a'')) = 200 \<and>
   (\<exists>n \<in> {0, 5}. shown_points (db (snd (run_state demo_hooks plugin_world))) (4, 3) = n)"
proof -
  have "\<forall>h \<in> set (map demo_hook [''a'', ''a'', ''b'']). hk_timestamp h = ''60''" by (simp add: demo_hook_def)
  from tick_paid_once [OF this prod.collapse [symmetric], of demo_platform demo_server demo_plugin demo_koth "[]" plugin_world]
  obtain n where "n \<in> {0, 5 :: int}" and "shown_points (db (snd (run_state demo_hooks plugin_world))) (4, 3) =
      shown_points (db plugin_world) (4, 3) + n"
    by (auto simp: demo_hooks_def demo_koth_def uuid_in_text)
  moreover have "shown_points (db plugin_world) (4, 3) = 0" by (simp add: plugin_world_def demo_defs shown_points_def)
  ultimately show ?thesis by (simp add: demo_hook_award)
qed

end
