(* ===== verification/Unlock.thy ===== *)
theory Unlock
  imports Go_Json Go_Time
begin

text \<open>
  \<open>internal/core/unlock/unlock.go\<close>: unlock rules, evaluated against what a team has solved. A rule
  is a JSON node of which the first meaningful field counts; an absent or malformed rule unlocks.
\<close>

record team_state =
  ts_solved :: "string list" \<comment> \<open>the keys of \<open>SolvedEC\<close>, each mapped to true\<close>
  ts_points :: int
  ts_solved_total :: int
  ts_block_solved :: "string \<rightharpoonup> int"
  ts_block_total :: "string \<rightharpoonup> int"
  ts_now :: instant

datatype rule = Rule
  (all_of: "rule list")
  (any_of: "rule list")
  (not_of: "rule option")
  (solved: "string option")
  (team_points_gte: "int option")
  (solved_count_gte: "int option")
  (after_time: "instant option")
  (block_completed: "string option")

text \<open>A Go map read at a missing key gives the zero value.\<close>

definition int_at :: "(string \<rightharpoonup> int) \<Rightarrow> string \<Rightarrow> int" where
  "int_at m k = (case m k of None \<Rightarrow> 0 | Some n \<Rightarrow> n)"

fun eval :: "rule \<Rightarrow> team_state \<Rightarrow> bool" where
  "eval (Rule als anys nt slv pts cnt aft blk) st =
     (if als \<noteq> [] then list_all (\<lambda>c. eval c st) als
      else if anys \<noteq> [] then list_ex (\<lambda>c. eval c st) anys
      else (case nt of Some c \<Rightarrow> \<not> eval c st
      | None \<Rightarrow> (case slv of Some ec \<Rightarrow> List.member (ts_solved st) ec
      | None \<Rightarrow> (case pts of Some n \<Rightarrow> ts_points st \<ge> n
      | None \<Rightarrow> (case cnt of Some n \<Rightarrow> ts_solved_total st \<ge> n
      | None \<Rightarrow> (case aft of Some t \<Rightarrow> \<not> time_before (ts_now st) t
      | None \<Rightarrow> (case blk of
            Some b \<Rightarrow>
              (let tot = int_at (ts_block_total st) b
               in tot > 0 \<and> int_at (ts_block_solved st) b \<ge> tot)
          | None \<Rightarrow> True)))))))"

subsection \<open>Decoding\<close>

definition zero_rule :: rule where
  "zero_rule = Rule [] [] None None None None None None"

definition solved_ref_fields :: "(string \<times> string setter) list" where
  "solved_ref_fields = [(''ec'', set_string (\<lambda>x _. x))]"

text \<open>
  The fields whose values hold no rules. A key that comes twice decodes into what its pointer holds
  already; of two lists the later one is taken (\<open>encoding/json\<close> would decode its first nodes into
  those of the earlier one).
\<close>

fun set_leaf :: "string \<Rightarrow> rule setter" where
  "set_leaf k v (Rule als anys nt slv pts cnt aft blk) =
     (if k = ''solved'' then
        (case v of
           JNull \<Rightarrow> (Rule als anys nt None pts cnt aft blk, True)
         | _ \<Rightarrow> (case decode_struct False solved_ref_fields v (case slv of None \<Rightarrow> [] | Some ec \<Rightarrow> ec) of
                  (ec, ok) \<Rightarrow> (Rule als anys nt (Some ec) pts cnt aft blk, ok)))
      else if k = ''team_points_gte'' then
        set_int_ptr (\<lambda>x _. Rule als anys nt slv x cnt aft blk) v (Rule als anys nt slv pts cnt aft blk)
      else if k = ''solved_count_gte'' then
        set_int_ptr (\<lambda>x _. Rule als anys nt slv pts x aft blk) v (Rule als anys nt slv pts cnt aft blk)
      else if k = ''after'' then
        (case v of
           JNull \<Rightarrow> (Rule als anys nt slv pts cnt None blk, True)
         | JStr s \<Rightarrow>
             (case parse_rfc3339 s of
                Some t \<Rightarrow> (Rule als anys nt slv pts cnt (Some t) blk, True)
              | None \<Rightarrow> (Rule als anys nt slv pts cnt aft blk, False))
         | _ \<Rightarrow> (Rule als anys nt slv pts cnt aft blk, False))
      else if k = ''block_completed'' then
        set_string_ptr (\<lambda>x _. Rule als anys nt slv pts cnt aft x) v (Rule als anys nt slv pts cnt aft blk)
      else (Rule als anys nt slv pts cnt aft blk, True))"

fun decode_rule :: "json \<Rightarrow> rule \<times> bool"
  and decode_rule_fields :: "(string \<times> json) list \<Rightarrow> rule \<Rightarrow> rule \<times> bool"
  and decode_rules :: "json list \<Rightarrow> rule list \<times> bool"
where
  "decode_rule JNull = (zero_rule, True)"
| "decode_rule (JObj kvs) = decode_rule_fields kvs zero_rule"
| "decode_rule _ = (zero_rule, False)"
| "decode_rule_fields [] r = (r, True)"
| "decode_rule_fields ((k, v) # kvs) (Rule als anys nt slv pts cnt aft blk) =
     (let r = Rule als anys nt slv pts cnt aft blk;
          f = fold_key k;
          (r1, ok1) =
            (if f = ''all'' then
               (case v of
                  JNull \<Rightarrow> (Rule [] anys nt slv pts cnt aft blk, True)
                | JArr js \<Rightarrow> (case decode_rules js of (rs, ok) \<Rightarrow> (Rule rs anys nt slv pts cnt aft blk, ok))
                | _ \<Rightarrow> (r, False))
             else if f = ''any'' then
               (case v of
                  JNull \<Rightarrow> (Rule als [] nt slv pts cnt aft blk, True)
                | JArr js \<Rightarrow> (case decode_rules js of (rs, ok) \<Rightarrow> (Rule als rs nt slv pts cnt aft blk, ok))
                | _ \<Rightarrow> (r, False))
             else if f = ''not'' then
               (case v of
                  JNull \<Rightarrow> (Rule als anys None slv pts cnt aft blk, True)
                | JObj sub \<Rightarrow>
                    (case decode_rule_fields sub (case nt of None \<Rightarrow> zero_rule | Some c \<Rightarrow> c) of
                       (c, ok) \<Rightarrow> (Rule als anys (Some c) slv pts cnt aft blk, ok))
                | _ \<Rightarrow> (Rule als anys (Some (case nt of None \<Rightarrow> zero_rule | Some c \<Rightarrow> c)) slv pts cnt aft blk, False))
             else set_leaf f v r);
          (r2, ok2) = decode_rule_fields kvs r1
      in (r2, ok1 \<and> ok2))"
| "decode_rules [] = ([], True)"
| "decode_rules (j # js) =
     (case (decode_rule j, decode_rules js) of ((r, ok1), (rs, ok2)) \<Rightarrow> (r # rs, ok1 \<and> ok2))"

definition unlocked :: "json option \<Rightarrow> team_state \<Rightarrow> bool" where
  "unlocked raw st =
     (if raw = None \<or> raw = Some JNull then True
      else (case decode_rule (the raw) of (r, ok) \<Rightarrow> if \<not> ok then True else eval r st))"

subsection \<open>Progress never locks a challenge again\<close>

fun not_free :: "rule \<Rightarrow> bool" where
  "not_free (Rule als anys nt slv pts cnt aft blk) \<longleftrightarrow>
     list_all not_free als \<and> list_all not_free anys \<and> nt = None"

text \<open>What may happen to a team as it plays, as long as the blocks keep their challenges.\<close>

definition progress :: "team_state \<Rightarrow> team_state \<Rightarrow> bool" where
  "progress st st' \<longleftrightarrow>
     set (ts_solved st) \<subseteq> set (ts_solved st') \<and> ts_points st \<le> ts_points st' \<and>
     ts_solved_total st \<le> ts_solved_total st' \<and> ts_now st \<le> ts_now st' \<and>
     ts_block_total st = ts_block_total st' \<and>
     (\<forall>b. int_at (ts_block_solved st) b \<le> int_at (ts_block_solved st') b)"

lemma eval_mono:
  assumes "progress st st'"
  shows "not_free r \<Longrightarrow> eval r st \<Longrightarrow> eval r st'"
proof (induction r)
  case (Rule als anys nt slv pts cnt aft blk)
  note st = assms [unfolded progress_def]
  show ?case
  proof (cases "als = [] \<and> anys = []")
    case False
    with Rule show ?thesis by (auto simp: list_all_iff list_ex_iff split: if_splits)
  next
    case True
    have "int_at (ts_block_total st') b \<le> int_at (ts_block_solved st') b"
      if "int_at (ts_block_total st') b \<le> int_at (ts_block_solved st) b" for b
      using that st order_trans by blast
    with True Rule.prems st show ?thesis
      by (auto simp: time_before_def Let_def split: option.splits)
  qed
qed

text \<open>
  C30. A rule without negation that a team has satisfied stays satisfied while it solves more, gains
  points and time passes.
\<close>

theorem unlocked_mono:
  assumes "progress st st'" and "not_free (fst (decode_rule j))" and "unlocked (Some j) st"
  shows "unlocked (Some j) st'"
  using assms eval_mono [OF assms(1,2)]
  by (auto simp: unlocked_def split: prod.splits)

subsection \<open>Malformed rules\<close>

lemma decode_rule_fields_append:
  "decode_rule_fields (kvs @ kvs') r =
     (case decode_rule_fields kvs r of (r1, ok1) \<Rightarrow>
        case decode_rule_fields kvs' r1 of (r2, ok2) \<Rightarrow> (r2, ok1 \<and> ok2))"
proof (induction kvs arbitrary: r)
  case Nil
  then show ?case by (simp split: prod.split)
next
  case (Cons kv kvs)
  obtain k v where "kv = (k, v)" by fastforce
  with Cons show ?case by (cases r) (simp add: Let_def split: prod.splits)
qed

lemma bad_threshold:
  assumes "fold_key k \<in> {''team_points_gte'', ''solved_count_gte''}"
    and "v \<noteq> JNull" and "\<And>n. v \<noteq> JInt n"
  shows "\<not> snd (decode_rule_fields ((k, v) # kvs) r)"
proof (cases r)
  case (Rule als anys nt slv pts cnt aft blk)
  with assms show ?thesis by (cases v) (auto simp: Let_def split: prod.splits)
qed

text \<open>
  A threshold of the wrong type, such as the string \<open>"100"\<close>, anywhere among the fields of a
  rule makes the challenge open to every team, whatever else the rule asks for.
\<close>

theorem wrong_typed_threshold_unlocks:
  assumes "fold_key k \<in> {''team_points_gte'', ''solved_count_gte''}"
    and "v \<noteq> JNull" and "\<And>n. v \<noteq> JInt n"
  shows "unlocked (Some (JObj (kvs @ (k, v) # kvs'))) st"
proof -
  have "\<not> snd (decode_rule (JObj (kvs @ (k, v) # kvs')))"
    using bad_threshold [OF assms]
    by (simp add: decode_rule_fields_append del: decode_rule_fields.simps split: prod.splits)
       (metis snd_conv)
  then show ?thesis by (auto simp: unlocked_def split: prod.splits)
qed

definition fresh_team :: team_state where
  "fresh_team = \<lparr>ts_solved = [], ts_points = 0, ts_solved_total = 0, ts_block_solved = Map.empty,
     ts_block_total = Map.empty, ts_now = 0\<rparr>"

theorem wrong_typed_threshold_unlocks_witness:
  "unlocked (Some (JObj [(''solved'', JObj [(''ec'', JStr ''x'')]), (''team_points_gte'', JStr ''100'')])) fresh_team"
  using wrong_typed_threshold_unlocks
    [of "''team_points_gte''" "JStr ''100''" "[(''solved'', JObj [(''ec'', JStr ''x'')])]" "[]" fresh_team]
  by (simp add: ascii_lower_def)

theorem unlocked_mono_witness:
  "\<not> unlocked (Some (JObj [(''team_points_gte'', JInt 100)])) fresh_team \<and>
   unlocked (Some (JObj [(''team_points_gte'', JInt 100)])) (fresh_team\<lparr>ts_points := 200\<rparr>)"
proof -
  let ?j = "JObj [(''team_points_gte'', JInt 100)]"
  have r: "decode_rule ?j = (Rule [] [] None None (Some 100) None None None, True)"
    by (simp add: zero_rule_def ascii_lower_def int64_ok_def min_int64_def max_int64_def)
  have "unlocked (Some ?j) (fresh_team\<lparr>ts_points := 200\<rparr>)"
    by (rule unlocked_mono [of "fresh_team\<lparr>ts_points := 100\<rparr>"])
       (simp_all add: progress_def r fresh_team_def unlocked_def del: decode_rule.simps)
  then show ?thesis by (simp add: unlocked_def r fresh_team_def del: decode_rule.simps)
qed

end
