(* ===== verification/Gating.thy ===== *)
theory Gating
  imports Store Unlock
begin

text \<open>
  \<open>internal/store/gating.go\<close> (schedules, unlock rules, and what the unlock evaluator needs to
  know of a team) and \<open>internal/store/play_extra.go\<close>. The lemmas say what \<open>TeamGateState\<close>
  computes from the tables.
\<close>

subsection \<open>Setting schedules and unlock rules\<close>

text \<open>An absent document (no bytes) is stored as NULL: \<open>nilJSON\<close> of \<open>library.go\<close>.\<close>

definition SetChallengeSchedule :: "string \<Rightarrow> json option \<Rightarrow> (world, store_error + unit) action" where
  "SetChallengeSchedule ecID sched = do {
     r \<leftarrow> db_call (update_challenge ecID (\<lambda>c. c\<lparr>c_schedule := sched\<rparr>));
     ret (affected_or_not_found r)
   }"

definition SetChallengeUnlock :: "string \<Rightarrow> json option \<Rightarrow> (world, store_error + unit) action" where
  "SetChallengeUnlock ecID unlock_rule = do {
     r \<leftarrow> db_call (update_challenge ecID (\<lambda>c. c\<lparr>c_unlock := unlock_rule\<rparr>));
     ret (affected_or_not_found r)
   }"

definition SetBlockSchedule :: "string \<Rightarrow> json option \<Rightarrow> (world, store_error + unit) action" where
  "SetBlockSchedule blockID sched = do {
     r \<leftarrow> db_call (\<lambda>now u d. cast_uuid blockID (\<lambda>k.
       Inr (count_where (\<lambda>b. k_id b = k) (blocks d),
            d\<lparr>blocks := update_where (\<lambda>b. k_id b = k) (\<lambda>b. b\<lparr>k_schedule := sched\<rparr>) (blocks d)\<rparr>)));
     ret (affected_or_not_found r)
   }"

definition GetBlock :: "string \<Rightarrow> (world, store_error + block) action" where
  "GetBlock blockID = do {
     r \<leftarrow> db_call (\<lambda>now u d. cast_uuid blockID (\<lambda>k.
       Inr (find (\<lambda>b. k_id b = k) (blocks d), d)));
     ret (row_or_not_found r)
   }"

subsection \<open>The gate state of a team\<close>

record gate_state =
  gs_solved :: "string list"
  gs_points :: int
  gs_block_solved :: "string \<rightharpoonup> int"
  gs_block_total :: "string \<rightharpoonup> int"

definition zero_gate :: gate_state where
  "zero_gate = \<lparr>gs_solved = [], gs_points = 0, gs_block_solved = Map.empty, gs_block_total = Map.empty\<rparr>"

text \<open>The three queries: solved challenges with their blocks, points, published per block.\<close>

definition solved_rows :: "uuid \<Rightarrow> uuid \<Rightarrow> database \<Rightarrow> (string \<times> string option) list" where
  "solved_rows ev tm d =
     concat (map (\<lambda>s. map (\<lambda>c. (uuid_text (sb_ec s), map_option uuid_text (c_block c)))
                       (filter (\<lambda>c. c_id c = sb_ec s) (challenges d)))
       (filter (\<lambda>s. sb_event s = ev \<and> sb_team s = tm \<and> sb_correct s) (submissions d)))"

definition board_points :: "uuid \<Rightarrow> uuid \<Rightarrow> database \<Rightarrow> int option" where
  "board_points ev tm d =
     map_option b_points (find (\<lambda>b. b_event b = ev \<and> b_team b = tm) (board d))"

definition published_in :: "uuid \<Rightarrow> database \<Rightarrow> uuid list" where
  "published_in ev d = List.map_filter c_block
     (filter (\<lambda>c. c_event c = ev \<and> c_state c = ''published'') (challenges d))"

definition block_totals :: "uuid \<Rightarrow> database \<Rightarrow> (string \<times> int) list" where
  "block_totals ev d =
     map (\<lambda>k. (uuid_text k, int (count_list (published_in ev d) k))) (remdups (published_in ev d))"

fun tally_solved :: "(string \<times> string option) list \<Rightarrow> gate_state \<Rightarrow> gate_state" where
  "tally_solved [] st = st"
| "tally_solved ((ec, blk) # rows) st =
     (let st = st\<lparr>gs_solved := gs_solved st @ [ec]\<rparr>
      in tally_solved rows
           (case blk of
              None \<Rightarrow> st
            | Some b \<Rightarrow> st\<lparr>gs_block_solved :=
                (gs_block_solved st)(b \<mapsto> int_at (gs_block_solved st) b + 1)\<rparr>))"

definition tally_totals :: "(string \<times> int) list \<Rightarrow> gate_state \<Rightarrow> gate_state" where
  "tally_totals rows st =
     st\<lparr>gs_block_total := fold (\<lambda>(b, n) m. m(b \<mapsto> n)) rows (gs_block_total st)\<rparr>"

definition TeamGateState :: "string \<Rightarrow> string \<Rightarrow> (world, store_error + gate_state) action" where
  "TeamGateState eventID teamID =
     or_fail (\<lambda>now u d. cast_uuid eventID (\<lambda>ev. cast_uuid teamID (\<lambda>tm.
       Inr (solved_rows ev tm d, d)))) (\<lambda>rows.
     or_fail (\<lambda>now u d. cast_uuid eventID (\<lambda>ev. cast_uuid teamID (\<lambda>tm.
       Inr (board_points ev tm d, d)))) (\<lambda>pts.
     or_fail (\<lambda>now u d. cast_uuid eventID (\<lambda>ev. Inr (block_totals ev d, d))) (\<lambda>totals.
       ret (Inr (tally_totals totals
         ((tally_solved rows zero_gate)\<lparr>gs_points := (case pts of None \<Rightarrow> 0 | Some n \<Rightarrow> n)\<rparr>))))))"

text \<open>
  What that amounts to on a database that does not change between the queries: the gate state of a
  team, as a function of the tables.
\<close>

definition gate_of :: "uuid \<Rightarrow> uuid \<Rightarrow> database \<Rightarrow> gate_state" where
  "gate_of ev tm d = tally_totals (block_totals ev d)
     ((tally_solved (solved_rows ev tm d) zero_gate)\<lparr>gs_points :=
        (case board_points ev tm d of None \<Rightarrow> 0 | Some n \<Rightarrow> n)\<rparr>)"

lemma wp_TeamGateState:
  assumes "\<And>r w'. undisturbed w w' \<Longrightarrow>
      (\<And>g. r = Inr g \<Longrightarrow> \<exists>ev tm. uuid_in eventID = Some ev \<and> uuid_in teamID = Some tm \<and>
         g = gate_of ev tm (db w)) \<Longrightarrow>
      (reliable w \<Longrightarrow> uuid_in eventID \<noteq> None \<Longrightarrow> uuid_in teamID \<noteq> None \<Longrightarrow> \<exists>g. r = Inr g) \<Longrightarrow> Q r w'"
  shows "wp (TeamGateState eventID teamID) Q w"
  unfolding TeamGateState_def
proof (rule wp_or_fail)
  fix rows d w1
  assume u1: "undisturbed w w1" and "cast_uuid eventID (\<lambda>ev. cast_uuid teamID (\<lambda>tm.
       Inr (solved_rows ev tm (db w), db w))) = Inr (rows, d)"
  then obtain ev tm where ids [simp]: "uuid_in eventID = Some ev" "uuid_in teamID = Some tm"
    and rows: "rows = solved_rows ev tm (db w)" by auto
  have answered: "Q (Inr (gate_of ev tm (db w))) w'" if "undisturbed w w'" for w'
    using that by (intro assms) simp_all
  have fault: "Q (Inl (Failed e)) w'" if "undisturbed w w'" "\<not> reliable w" for e w'
    using that by (intro assms) simp_all
  show "wp (or_fail (\<lambda>now u d. cast_uuid eventID (\<lambda>ev. cast_uuid teamID (\<lambda>tm.
       Inr (board_points ev tm d, d)))) (\<lambda>pts.
     or_fail (\<lambda>now u d. cast_uuid eventID (\<lambda>ev. Inr (block_totals ev d, d))) (\<lambda>totals.
       ret (Inr (tally_totals totals
         ((tally_solved rows zero_gate)\<lparr>gs_points := (case pts of None \<Rightarrow> 0 | Some n \<Rightarrow> n)\<rparr>)))))) Q w1"
    apply (rule wp_or_fail)
       apply (intro quiet_intros)
      apply (rule refl)
     apply (rule wp_or_fail)
        apply (intro quiet_intros)
       apply (rule refl)
      apply (frule (1) undisturbed_trans [OF undisturbed_trans [OF u1]])
      apply (use answered u1 in \<open>simp add: cast_uuid_Some rows gate_of_def undisturbed_def\<close>)
     apply (frule (1) undisturbed_trans [OF undisturbed_trans [OF u1]])
     apply (rule fault, assumption, use u1 in \<open>force simp: cast_uuid_Some undisturbed_def\<close>)
    apply (frule undisturbed_trans [OF u1])
    apply (rule fault, assumption, use u1 in \<open>force simp: cast_uuid_Some undisturbed_def\<close>)
    done
next
  fix e w'
  assume "undisturbed w w'" and "reliable w \<Longrightarrow> cast_uuid eventID (\<lambda>ev. cast_uuid teamID (\<lambda>tm.
       Inr (solved_rows ev tm (db w), db w))) = Inl e"
  then show "Q (Inl (Failed e)) w'" by (auto intro!: assms simp: cast_uuid_def split: option.splits)
qed (intro quiet_intros, rule refl)

lemma wp_GetBlock:
  assumes "\<And>r w'. undisturbed w w' \<Longrightarrow>
      (\<And>b. r = Inr b \<Longrightarrow> \<exists>k. uuid_in blockID = Some k \<and> find (\<lambda>b. k_id b = k) (blocks (db w)) = Some b) \<Longrightarrow>
      (\<And>k b. reliable w \<Longrightarrow> uuid_in blockID = Some k \<Longrightarrow> find (\<lambda>b. k_id b = k) (blocks (db w)) = Some b \<Longrightarrow>
         r = Inr b) \<Longrightarrow> Q r w'"
  shows "wp (GetBlock blockID) Q w"
  unfolding GetBlock_def wp_bind
  by (rule wp_read; (intro quiet_intros)?)
     (auto simp: cast_uuid_def row_or_not_found_def intro!: assms split: option.splits)

subsection \<open>What the gate state counts\<close>

lemma tally_solved_solved [simp]: "gs_solved (tally_solved rows st) = gs_solved st @ map fst rows"
  by (induction rows st rule: tally_solved.induct) (auto simp: Let_def split: option.split)

lemma tally_solved_blocks:
  "int_at (gs_block_solved (tally_solved rows st)) b =
     int_at (gs_block_solved st) b + int (count_where (\<lambda>r. snd r = Some b) rows)"
proof (induction rows st rule: tally_solved.induct)
  case (1 st)
  then show ?case by (simp add: count_where_def)
next
  case (2 ec blk rows st)
  show ?case
  proof (cases blk)
    case None
    with 2 show ?thesis by (simp add: Let_def count_where_def)
  next
    case (Some k)
    with 2 [OF refl] show ?thesis by (auto simp: Let_def count_where_def int_at_def)
  qed
qed

lemma tally_totals_other [simp]:
  "gs_solved (tally_totals rows st) = gs_solved st" "gs_points (tally_totals rows st) = gs_points st"
  "gs_block_solved (tally_totals rows st) = gs_block_solved st"
  by (simp_all add: tally_totals_def)

lemma fold_map_upd:
  "distinct (map fst rows) \<Longrightarrow>
   fold (\<lambda>(b, n) m. m(b \<mapsto> n)) rows m b = (case map_of rows b of None \<Rightarrow> m b | Some n \<Rightarrow> Some n)"
proof (induction rows arbitrary: m)
  case Nil
  then show ?case by simp
next
  case (Cons r rows)
  obtain a n where r: "r = (a, n)" by fastforce
  have none: "map_of rows a = None"
    using Cons.prems r by (simp add: map_of_eq_None_iff)
  show ?case
    using Cons.IH [of "m(a \<mapsto> n)"] Cons.prems
    by (cases "b = a") (simp_all add: r none del: fun_upd_apply, auto split: option.split)
qed

lemma tally_totals_at:
  "distinct (map fst rows) \<Longrightarrow>
   gs_block_total (tally_totals rows st) b =
     (case map_of rows b of None \<Rightarrow> gs_block_total st b | Some n \<Rightarrow> Some n)"
  by (simp add: tally_totals_def fold_map_upd)

lemma block_totals_distinct: "distinct (map fst (block_totals ev d))"
  by (auto simp: block_totals_def distinct_map inj_on_def uuids.enc_inject)

lemma map_of_block_totals:
  "map_of (block_totals ev d) (uuid_text k) =
     (if k \<in> set (published_in ev d) then Some (int (count_list (published_in ev d) k)) else None)"
proof -
  have "map_of (map (\<lambda>k. (uuid_text k, f k)) ks) (uuid_text k) = (if k \<in> set ks then Some (f k) else None)"
    for ks and f :: "uuid \<Rightarrow> int"
    by (induction ks) (auto simp: uuids.enc_inject)
  then show ?thesis by (simp add: block_totals_def)
qed

text \<open>
  The gate state in terms of the tables: the points are those of the board, a block's total is the
  number of its published challenges, and what counts as solved of a block are the team's correct
  submissions for challenges of the block, published or not.
\<close>

lemma tally_solved_others [simp]:
  "gs_block_total (tally_solved rows st) = gs_block_total st"
  "gs_points (tally_solved rows st) = gs_points st"
  by (induction rows st rule: tally_solved.induct; simp add: Let_def split: option.split)+

lemma gate_of_solved: "gs_solved (gate_of ev tm d) = map fst (solved_rows ev tm d)"
  by (simp add: gate_of_def zero_gate_def)

lemma gate_of_points:
  "gs_points (gate_of ev tm d) = (case board_points ev tm d of None \<Rightarrow> 0 | Some n \<Rightarrow> n)"
  by (simp add: gate_of_def zero_gate_def)

lemma gate_of_block_total:
  "int_at (gs_block_total (gate_of ev tm d)) (uuid_text k) = int (count_list (published_in ev d) k)"
  by (simp add: gate_of_def zero_gate_def int_at_def tally_totals_at [OF block_totals_distinct]
      map_of_block_totals count_list_0_iff)

lemma gate_of_block_solved:
  "int_at (gs_block_solved (gate_of ev tm d)) b =
     int (count_where (\<lambda>r. snd r = Some b) (solved_rows ev tm d))"
  by (simp add: gate_of_def tally_solved_blocks) (simp add: zero_gate_def int_at_def)

lemmas gate_of_counts = gate_of_solved gate_of_points gate_of_block_total gate_of_block_solved

subsection \<open>\<open>play_extra.go\<close>\<close>

definition SolveCounts :: "string \<Rightarrow> (world, store_error + (string \<rightharpoonup> int)) action" where
  "SolveCounts eventID = do {
     r \<leftarrow> db_call (\<lambda>now u d. cast_uuid eventID (\<lambda>ev.
       let solves = map sb_ec (filter (\<lambda>s. sb_event s = ev \<and> sb_correct s) (submissions d))
       in Inr (map (\<lambda>ec. (uuid_text ec, int (count_list solves ec))) (remdups solves), d)));
     ret (case r of Inl e \<Rightarrow> Inl (Failed e) | Inr rows \<Rightarrow> Inr (fold (\<lambda>(k, n) m. m(k \<mapsto> n)) rows Map.empty))
   }"

definition TeamChallengeAttempts ::
  "string \<Rightarrow> string \<Rightarrow> (world, store_error + (bool \<times> instant) list) action"
where
  "TeamChallengeAttempts ecID teamID = do {
     r \<leftarrow> db_call (\<lambda>now u d. cast_uuid ecID (\<lambda>ec. cast_uuid teamID (\<lambda>tm.
       Inr (take 50 (map (\<lambda>s. (sb_correct s, sb_at s))
              (sort_key (\<lambda>s. - sb_at s)
                (filter (\<lambda>s. sb_ec s = ec \<and> sb_team s = tm) (submissions d)))), d))));
     ret (failed r)
   }"

end
