(* ===== verification/Instances.thy ===== *)
theory Instances
  imports Demo Budget
begin

text \<open>
  Per-team instances: \<open>internal/store/instances.go\<close> and \<open>internal/httpserver/instances.go\<close>.
  The lemmas: at most one running instance per team and challenge, none extended more than twice,
  and the global cap.
\<close>

subsection \<open>Instance specifications\<close>

record ispec =
  is_image :: string
  is_port :: int
  is_ttl :: string
  is_env :: "(string \<rightharpoonup> string) option"

definition zero_ispec :: ispec where
  "zero_ispec = \<lparr>is_image = [], is_port = 0, is_ttl = [], is_env = None\<rparr>"

text \<open>A \<open>map[string]string\<close>: its keys are taken as they are, and added to the map there is.\<close>

fun decode_env :: "(string \<times> json) list \<Rightarrow> (string \<rightharpoonup> string) \<Rightarrow> (string \<rightharpoonup> string) \<times> bool" where
  "decode_env [] m = (m, True)"
| "decode_env ((k, v) # kvs) m =
     (case set_string (\<lambda>s _. s) v [] of (s, ok1) \<Rightarrow>
        case decode_env kvs (m(k \<mapsto> s)) of (m', ok2) \<Rightarrow> (m', ok1 \<and> ok2))"

fun set_env :: "ispec setter" where
  "set_env JNull r = (r\<lparr>is_env := None\<rparr>, True)"
| "set_env (JObj kvs) r =
     (case decode_env kvs (case is_env r of None \<Rightarrow> Map.empty | Some m \<Rightarrow> m) of (m, ok) \<Rightarrow>
        (r\<lparr>is_env := Some m\<rparr>, ok))"
| "set_env _ r = (r, False)"

definition ispec_fields :: "(string \<times> ispec setter) list" where
  "ispec_fields =
     [(''image'', set_string (\<lambda>x. is_image_update (\<lambda>_. x))),
      (''port'', set_int (\<lambda>x. is_port_update (\<lambda>_. x))),
      (''ttl'', set_string (\<lambda>x. is_ttl_update (\<lambda>_. x))),
      (''env'', set_env)]"

definition parseInstanceSpec :: "json option \<Rightarrow> ispec option" where
  "parseInstanceSpec raw =
     (if raw = None \<or> raw = Some JNull then None
      else (case decode_struct False ispec_fields (the raw) zero_ispec of (sp, ok) \<Rightarrow>
              if ok then Some sp else None))"

definition usesTeamFlag :: "ispec \<Rightarrow> bool" where
  "usesTeamFlag sp = (case is_env sp of None \<Rightarrow> False | Some m \<Rightarrow> m ''FLAG'' = Some ''{{team_flag}}'')"

subsection \<open>The store\<close>

definition SetInstanceSpec :: "string \<Rightarrow> json option \<Rightarrow> (world, store_error + unit) action" where
  "SetInstanceSpec ecID spec = do {
     r \<leftarrow> db_call (update_challenge ecID (\<lambda>c. c\<lparr>c_instance := spec\<rparr>));
     ret (affected_or_not_found r)
   }"

definition ChallengeInstanceSpec :: "string \<Rightarrow> (world, store_error + json option) action" where
  "ChallengeInstanceSpec ecID = do {
     r \<leftarrow> db_call (\<lambda>now u d. cast_uuid ecID (\<lambda>ec.
       Inr (map_option c_instance (find (\<lambda>c. c_id c = ec) (challenges d)), d)));
     ret (row_or_not_found r)
   }"

definition is_running :: "uuid \<Rightarrow> uuid \<Rightarrow> running \<Rightarrow> bool" where
  "is_running ec tm i \<longleftrightarrow> i_ec i = ec \<and> i_team i = tm \<and> i_status i = ''running''"

definition GetActiveInstance :: "string \<Rightarrow> string \<Rightarrow> (world, store_error + running) action" where
  "GetActiveInstance ecID teamID = do {
     r \<leftarrow> db_call (\<lambda>now u d. cast_uuid ecID (\<lambda>ec. cast_uuid teamID (\<lambda>tm.
       Inr (find (is_running ec tm) (instances d), d))));
     ret (row_or_not_found r)
   }"

definition count_running :: "database \<Rightarrow> nat" where
  "count_running d = count_where (\<lambda>i. i_status i = ''running'') (instances d)"

definition CountRunningInstances :: "(world, store_error + nat) action" where
  "CountRunningInstances = do {
     r \<leftarrow> db_call (query count_running);
     ret (failed r)
   }"

definition insert_instance :: "string \<Rightarrow> string \<Rightarrow> string \<Rightarrow> int \<Rightarrow> instant \<Rightarrow> running stmt" where
  "insert_instance ecID teamID host port expiresAt now u d =
     cast_uuid ecID (\<lambda>ec. cast_uuid teamID (\<lambda>tm.
       require (int4_ok port) OutOfRange (
       require (fresh_key i_id u (instances d)) UniqueViolation (
       require (\<not> list_ex (is_running ec tm) (instances d)) UniqueViolation (
       require (exists_row c_id ec (challenges d)) ForeignKeyViolation (
       require (exists_row tm_id tm (teams d)) ForeignKeyViolation (
       let row = \<lparr>i_id = u, i_ec = ec, i_team = tm, i_host = host, i_port = port,
                  i_status = ''running'', i_extends = 0, i_expires = expiresAt, i_created = now\<rparr>
       in Inr (row, d\<lparr>instances := instances d @ [row]\<rparr>))))))))"

definition CreateInstance ::
  "string \<Rightarrow> string \<Rightarrow> string \<Rightarrow> int \<Rightarrow> instant \<Rightarrow> (world, store_error + running) action"
where
  "CreateInstance ecID teamID host port expiresAt = do {
     r \<leftarrow> db_call (insert_instance ecID teamID host port expiresAt);
     ret (conflict_if_unique r)
   }"

text \<open>An \<open>UPDATE ... RETURNING\<close> of which the first row is read.\<close>

definition extend_row :: "duration \<Rightarrow> running \<Rightarrow> running" where
  "extend_row extra i = i\<lparr>i_expires := i_expires i + extra, i_extends := i_extends i + 1\<rparr>"

definition extend_stmt :: "string \<Rightarrow> string \<Rightarrow> duration \<Rightarrow> int \<Rightarrow> running option stmt" where
  "extend_stmt ecID teamID extra maxExtends now u d =
     cast_uuid ecID (\<lambda>ec. cast_uuid teamID (\<lambda>tm.
       let hit = (\<lambda>i. is_running ec tm i \<and> i_extends i < maxExtends)
       in Inr (map_option (extend_row extra) (find hit (instances d)),
               d\<lparr>instances := update_where hit (extend_row extra) (instances d)\<rparr>)))"

definition ExtendInstance ::
  "string \<Rightarrow> string \<Rightarrow> duration \<Rightarrow> int \<Rightarrow> (world, store_error + running) action"
where
  "ExtendInstance ecID teamID extra maxExtends = do {
     r \<leftarrow> db_call (extend_stmt ecID teamID extra maxExtends);
     ret (row_or_not_found r)
   }"

definition DestroyInstance :: "string \<Rightarrow> string \<Rightarrow> (world, store_error + bool) action" where
  "DestroyInstance ecID teamID = do {
     r \<leftarrow> db_call (\<lambda>now u d. cast_uuid ecID (\<lambda>ec. cast_uuid teamID (\<lambda>tm.
       Inr (count_where (is_running ec tm) (instances d) > 0,
            d\<lparr>instances := update_where (is_running ec tm)
                (\<lambda>i. i\<lparr>i_status := ''destroyed''\<rparr>) (instances d)\<rparr>))));
     ret (failed r)
   }"

subsection \<open>The handlers\<close>

definition respondUpdate :: "store_error + unit \<Rightarrow> unit reply" where
  "respondUpdate r =
     (case r of
        Inl NotFound \<Rightarrow> Problem 404 ''not found''
      | Inl _ \<Rightarrow> Problem 500 ''update failed''
      | Inr _ \<Rightarrow> Reply 200 ())"

definition instance_spec_field :: "(string \<times> json option setter) list" where
  "instance_spec_field = [(''instance_spec'', set_raw (\<lambda>x _. x))]"

definition handleSetInstanceSpec :: "string \<Rightarrow> json option \<Rightarrow> (world, unit reply) action" where
  "handleSetInstanceSpec ecID body =
     (case decodeJSON instance_spec_field None body of
        None \<Rightarrow> ret (Problem 400 ''bad request'')
      | Some spec \<Rightarrow> do { r \<leftarrow> SetInstanceSpec ecID spec; ret (respondUpdate r) })"

text \<open>The team, and the challenge's specification; \<open>Inl\<close> is the problem already written.\<close>

definition instanceContext ::
  "user \<Rightarrow> string \<Rightarrow> string \<Rightarrow> (world, 'p reply + string \<times> ispec) action"
where
  "instanceContext u eventID ecID = do {
     t \<leftarrow> PlayerTeamForEvent eventID (uuid_text (u_id u));
     (case t of
        Inl NotFound \<Rightarrow> ret (Inl (Problem 403 ''your team is not registered for this event''))
      | Inl _ \<Rightarrow> ret (Inl (Problem 500 ''membership lookup failed''))
      | Inr tid \<Rightarrow> do {
          r \<leftarrow> ChallengeInstanceSpec ecID;
          (if r = Inl NotFound then ret (Inl (Problem 404 ''challenge not found''))
           else (case parseInstanceSpec (case r of Inl _ \<Rightarrow> None | Inr raw \<Rightarrow> raw) of
                   None \<Rightarrow> ret (Inl (Problem 400 ''this challenge has no instance''))
                 | Some sp \<Rightarrow> ret (Inr (tid, sp))))
        })
   }"

text \<open>
  The answer carries the instance (\<open>None\<close>: the zero \<open>Instance\<close>, which one path sends) and the
  team's flag if the instance uses one.
\<close>

definition instanceResponse ::
  "platform \<Rightarrow> server \<Rightarrow> string \<Rightarrow> string \<Rightarrow> string \<Rightarrow> ispec \<Rightarrow> running option \<Rightarrow>
   running option \<times> string option"
where
  "instanceResponse P srv eventID ecID teamID sp inst =
     (inst, if usesTeamFlag sp then Some (team_flag P (sv_flag_secret srv) eventID teamID ecID)
            else None)"

definition provisionMock :: "ispec \<Rightarrow> (world, string \<times> int) action" where
  "provisionMock sp = do {
     n \<leftarrow> intn 250;
     (if is_port sp = 0 then do {
        p \<leftarrow> intn 20000;
        ret (''10.13.37.'' @ itoa (2 + int n), 30000 + int p)
      } else ret (''10.13.37.'' @ itoa (2 + int n), is_port sp))
   }"

type_synonym instance_reply = "(running option \<times> string option) reply"

definition handleCreateInstance ::
  "platform \<Rightarrow> server \<Rightarrow> user \<Rightarrow> string \<Rightarrow> string \<Rightarrow> (world, instance_reply) action"
where
  "handleCreateInstance P srv u eventID ecID = do {
     ctx \<leftarrow> instanceContext u eventID ecID;
     (case ctx of
        Inl p \<Rightarrow> ret p
      | Inr (teamID, sp) \<Rightarrow> do {
          active \<leftarrow> GetActiveInstance ecID teamID;
          (case active of
             Inr inst \<Rightarrow> ret (Reply 200 (instanceResponse P srv eventID ecID teamID sp (Some inst)))
           | Inl _ \<Rightarrow> do {
               cnt \<leftarrow> CountRunningInstances;
               (if (case cnt of Inl _ \<Rightarrow> 0 | Inr n \<Rightarrow> int n) \<ge> sv_instance_max srv
                then ret (Problem 429 ''global instance limit reached'')
                else do {
                  hp \<leftarrow> provisionMock sp;
                  now \<leftarrow> time_now;
                  made \<leftarrow> CreateInstance ecID teamID (fst hp) (snd hp) (now + sv_instance_ttl srv);
                  (case made of
                     Inl Conflict \<Rightarrow> do {
                       existing \<leftarrow> GetActiveInstance ecID teamID;
                       ret (Reply 200 (instanceResponse P srv eventID ecID teamID sp
                              (case existing of Inl _ \<Rightarrow> None | Inr i \<Rightarrow> Some i)))
                     }
                   | Inl _ \<Rightarrow> ret (Problem 500 ''provision failed'')
                   | Inr inst \<Rightarrow>
                       ret (Reply 201 (instanceResponse P srv eventID ecID teamID sp (Some inst))))
                })
             })
        })
   }"

definition handleGetInstance ::
  "platform \<Rightarrow> server \<Rightarrow> user \<Rightarrow> string \<Rightarrow> string \<Rightarrow> (world, instance_reply) action"
where
  "handleGetInstance P srv u eventID ecID = do {
     ctx \<leftarrow> instanceContext u eventID ecID;
     (case ctx of
        Inl p \<Rightarrow> ret p
      | Inr (teamID, sp) \<Rightarrow> do {
          r \<leftarrow> GetActiveInstance ecID teamID;
          ret (case r of
                 Inl NotFound \<Rightarrow> Problem 404 ''no running instance''
               | Inl _ \<Rightarrow> Problem 500 ''lookup failed''
               | Inr i \<Rightarrow> Reply 200 (instanceResponse P srv eventID ecID teamID sp (Some i)))
        })
   }"

definition handleExtendInstance ::
  "platform \<Rightarrow> server \<Rightarrow> user \<Rightarrow> string \<Rightarrow> string \<Rightarrow> (world, instance_reply) action"
where
  "handleExtendInstance P srv u eventID ecID = do {
     ctx \<leftarrow> instanceContext u eventID ecID;
     (case ctx of
        Inl p \<Rightarrow> ret p
      | Inr (teamID, sp) \<Rightarrow> do {
          r \<leftarrow> ExtendInstance ecID teamID (sv_instance_ttl srv) 2;
          ret (case r of
                 Inl NotFound \<Rightarrow> Problem 409 ''no running instance or extend limit reached''
               | Inl _ \<Rightarrow> Problem 500 ''extend failed''
               | Inr i \<Rightarrow> Reply 200 (instanceResponse P srv eventID ecID teamID sp (Some i)))
        })
   }"

definition handleDestroyInstance ::
  "user \<Rightarrow> string \<Rightarrow> string \<Rightarrow> (world, bool reply) action"
where
  "handleDestroyInstance u eventID ecID = do {
     ctx \<leftarrow> instanceContext u eventID ecID;
     (case ctx of
        Inl p \<Rightarrow> ret p
      | Inr (teamID, sp) \<Rightarrow> do {
          r \<leftarrow> DestroyInstance ecID teamID;
          ret (case r of
                 Inl _ \<Rightarrow> Problem 500 ''destroy failed''
               | Inr destroyed \<Rightarrow> Reply 200 destroyed)
        })
   }"

subsection \<open>One running instance, two extensions\<close>

definition run_key :: "running \<Rightarrow> uuid \<times> uuid" where
  "run_key i = (i_ec i, i_team i)"

definition active_unique :: "database \<Rightarrow> bool" where
  "active_unique d \<longleftrightarrow>
     distinct (map run_key (filter (\<lambda>i. i_status i = ''running'') (instances d)))"

definition instances_ok :: "database \<Rightarrow> bool" where
  "instances_ok d \<longleftrightarrow> active_unique d \<and>
     (\<forall>i \<in> set (instances d). 0 \<le> i_extends i \<and> i_extends i \<le> 2)"

lemma instances_ok_other: "instances d' = instances d \<Longrightarrow> instances_ok d' = instances_ok d"
  by (simp add: instances_ok_def active_unique_def)

lemma insert_instance_ok:
  assumes "instances_ok d" and "insert_instance ecID teamID host port t now u d = Inr (i, d')"
  shows "instances_ok d'"
  using assms
  by (auto simp: insert_instance_def Let_def instances_ok_def active_unique_def list_ex_iff
      is_running_def run_key_def)

lemma filter_update_same:
  "(\<And>r. P r \<Longrightarrow> Q (f r) = Q r) \<Longrightarrow> (\<And>r. P r \<Longrightarrow> k (f r) = k r) \<Longrightarrow>
   map k (filter Q (update_where P f rows)) = map k (filter Q rows)"
  by (induction rows) (auto simp: update_where_def)

lemma extend_ok:
  assumes "instances_ok d" and "extend_stmt ecID teamID extra 2 now u d = Inr (r, d')"
  shows "instances_ok d'"
proof -
  from assms(2) obtain ec tm where d': "d' = d\<lparr>instances := update_where
      (\<lambda>i. is_running ec tm i \<and> i_extends i < 2) (extend_row extra) (instances d)\<rparr>"
    by (auto simp: extend_stmt_def Let_def)
  show ?thesis
    using assms(1)
    by (auto simp: d' instances_ok_def active_unique_def set_update_where filter_update_same
        run_key_def extend_row_def)
qed

lemma distinct_filter_update:
  "distinct (map k (filter Q rows)) \<Longrightarrow> (\<And>r. Q (f r) \<Longrightarrow> Q r) \<Longrightarrow> (\<And>r. k (f r) = k r) \<Longrightarrow>
   distinct (map k (filter Q (update_where P f rows)))"
proof (induction rows)
  case Nil
  then show ?case by (simp add: update_where_def)
next
  case (Cons r rows)
  have sub: "k ` set (filter Q (update_where P f rows)) \<subseteq> k ` set (filter Q rows)"
    using Cons.prems(2,3) by (force simp: update_where_def)
  have ih: "distinct (map k (filter Q (update_where P f rows)))"
    using Cons.IH Cons.prems by (auto split: if_splits)
  have eq: "update_where P f (r # rows) = (if P r then f r else r) # update_where P f rows"
    by (simp add: update_where_def)
  show ?case
    using sub ih Cons.prems by (auto simp: eq split: if_splits)
qed

lemma destroy_ok:
  "instances_ok d \<Longrightarrow> instances_ok (d\<lparr>instances := update_where (is_running ec tm)
     (\<lambda>i. i\<lparr>i_status := ''destroyed''\<rparr>) (instances d)\<rparr>)"
  by (auto simp: instances_ok_def active_unique_def set_update_where run_key_def
      intro!: distinct_filter_update)

lemma quiet_instances [simp, quiet_intros]:
  "quiet (ChallengeInstanceSpec ecID)" "quiet (GetActiveInstance ecID teamID)"
  "quiet CountRunningInstances"
  unfolding ChallengeInstanceSpec_def GetActiveInstance_def CountRunningInstances_def
  by (intro quiet_intros)+

lemma quiet_instanceContext [simp, quiet_intros]: "quiet (instanceContext u eventID ecID)"
  unfolding instanceContext_def by (intro quiet_intros)

lemma quiet_provisionMock [simp, quiet_intros]: "quiet (provisionMock sp)"
  unfolding provisionMock_def by (intro quiet_intros)

lemma CreateInstance_ok: "keeps (\<lambda>w. instances_ok (db w)) (CreateInstance ecID teamID host port t)"
  unfolding CreateInstance_def
  by (intro keeps_bind keeps_db_call keeps_ret) (rule insert_instance_ok)

lemma ExtendInstance_ok: "keeps (\<lambda>w. instances_ok (db w)) (ExtendInstance ecID teamID extra 2)"
  unfolding ExtendInstance_def
  by (intro keeps_bind keeps_db_call keeps_ret) (rule extend_ok)

lemma DestroyInstance_ok: "keeps (\<lambda>w. instances_ok (db w)) (DestroyInstance ecID teamID)"
  unfolding DestroyInstance_def
  by (intro keeps_bind keeps_db_call keeps_ret) (auto intro: destroy_ok)

text \<open>The requests a player can make about instances, and the answers.\<close>

datatype instance_request = CreateI | GetI | ExtendI | DestroyI

type_synonym instance_call = "user \<times> string \<times> string \<times> instance_request"

type_synonym instance_answer = "instance_reply + bool reply"

definition serve_instance ::
  "platform \<Rightarrow> server \<Rightarrow> user \<Rightarrow> string \<Rightarrow> string \<Rightarrow> instance_request \<Rightarrow> (world, instance_answer) action"
where
  "serve_instance P srv u eventID ecID rq =
     (case rq of
        CreateI \<Rightarrow> do { r \<leftarrow> handleCreateInstance P srv u eventID ecID; ret (Inl r) }
      | GetI \<Rightarrow> do { r \<leftarrow> handleGetInstance P srv u eventID ecID; ret (Inl r) }
      | ExtendI \<Rightarrow> do { r \<leftarrow> handleExtendInstance P srv u eventID ecID; ret (Inl r) }
      | DestroyI \<Rightarrow> do { r \<leftarrow> handleDestroyInstance u eventID ecID; ret (Inr r) })"

lemma serve_instance_keeps: "keeps (\<lambda>w. instances_ok (db w)) (serve_instance P srv u eventID ecID rq)"
  unfolding serve_instance_def handleCreateInstance_def handleGetInstance_def
    handleExtendInstance_def handleDestroyInstance_def
  by (cases rq; simp only: instance_request.case;
      (rule keeps_intros CreateInstance_ok ExtendInstance_ok DestroyInstance_ok |
       (rule keeps_quiet, rule quiet_intros))+)

text \<open>Requests of any players, one after another, and what they are answered.\<close>

fun serve_all :: "platform \<Rightarrow> server \<Rightarrow> instance_call list \<Rightarrow> (world, instance_answer list) action" where
  "serve_all P srv [] = ret []"
| "serve_all P srv ((u, ev, ec, rq) # rqs) = do {
     a \<leftarrow> serve_instance P srv u ev ec rq;
     answers \<leftarrow> serve_all P srv rqs;
     ret (a # answers)
   }"

lemma serve_all_keeps: "keeps (\<lambda>w. instances_ok (db w)) (serve_all P srv rqs)"
  by (induction P srv rqs rule: serve_all.induct) (auto intro!: keeps_intros serve_instance_keeps)

text \<open>
  Whatever players ask for, in whatever order, and whatever fails on the way: a team never has
  two running instances of a challenge, and no instance has been extended more than twice.
\<close>

theorem instances_invariant:
  assumes "instances_ok (db w)"
  shows "instances_ok (db (snd (run_state (serve_all P srv rqs) w)))"
  using serve_all_keeps assms by (metis keepsD prod.collapse)

theorem instances_invariant_witness:
  "instances_ok (db (snd (run_state (serve_all demo_platform demo_server
     [(demo_user, uuid_text 4, uuid_text 5, CreateI),
      (demo_user, uuid_text 4, uuid_text 5, ExtendI)]) demo_world)))"
  by (rule instances_invariant) (simp add: demo_defs instances_ok_def active_unique_def)

subsection \<open>Extending is a budget\<close>

text \<open>
  What is left to an instance, by its id: two extensions as long as there is none of that id, then
  what its row says. Ids are unique (the primary key), and every handler keeps both.
\<close>

definition extends_left :: "uuid \<Rightarrow> database \<Rightarrow> nat" where
  "extends_left k d =
     (case find (\<lambda>i. i_id i = k) (instances d) of None \<Rightarrow> 2 | Some i \<Rightarrow> nat (2 - i_extends i))"

definition ids_distinct :: "database \<Rightarrow> bool" where
  "ids_distinct d \<longleftrightarrow> distinct (map i_id (instances d))"

definition spare :: "uuid \<Rightarrow> nat \<Rightarrow> database \<Rightarrow> bool" where
  "spare k n d \<longleftrightarrow> ids_distinct d \<and> extends_left k d \<le> n"

lemma find_update_any:
  assumes "\<And>r. key (f r) = key r"
  shows "find (\<lambda>r. key r = k) (update_where p f rows) =
    map_option (\<lambda>r. if p r then f r else r) (find (\<lambda>r. key r = k) rows)"
  using assms by (induction rows) (auto simp: update_where_def)

lemma ids_update: "(\<And>i. i_id (f i) = i_id i) \<Longrightarrow> map i_id (update_where p f rows) = map i_id rows"
  by (simp add: update_where_def)

lemma spare_update:
  assumes "spare k n d" and "\<And>i. i_id (f i) = i_id i" and "\<And>i. i_extends i \<le> i_extends (f i)"
  shows "spare k n (d\<lparr>instances := update_where p f (instances d)\<rparr>)"
proof -
  have "find (\<lambda>i. i_id i = k) (update_where p f (instances d)) =
      map_option (\<lambda>i. if p i then f i else i) (find (\<lambda>i. i_id i = k) (instances d))"
    using assms(2) by (rule find_update_any)
  moreover have "nat (2 - i_extends (f i)) \<le> nat (2 - i_extends i)" for i
    using assms(3) [of i] by (intro nat_mono) simp
  ultimately show ?thesis
    using assms(1) unfolding spare_def ids_distinct_def extends_left_def
    by (auto simp: ids_update assms(2) intro: order_trans split: option.splits)
qed

lemma spare_insert:
  assumes "spare k n d" and "insert_instance ecID teamID host port t now u d = Inr (i, d')"
  shows "spare k n d'"
  using assms
  by (auto simp: insert_instance_def Let_def spare_def ids_distinct_def extends_left_def find_append
      fresh_key_iff split: option.splits if_splits)

text \<open>The one \<open>UPDATE\<close> that extends: it answers the row it has raised.\<close>

lemma spare_extend:
  assumes "spare k n d" and run: "extend_stmt ecID teamID extra 2 now u d = Inr (r, d')"
  shows "spare k n d'"
    and "r = Some i \<Longrightarrow> i_id i = k \<Longrightarrow> extends_left k d' < extends_left k d"
proof -
  from run obtain ec tm where d': "d' = d\<lparr>instances := update_where
        (\<lambda>i. is_running ec tm i \<and> i_extends i < 2) (extend_row extra) (instances d)\<rparr>"
    and r: "r = map_option (extend_row extra) (find (\<lambda>i. is_running ec tm i \<and> i_extends i < 2) (instances d))"
    by (auto simp: extend_stmt_def Let_def)
  show "spare k n d'"
    unfolding d' by (rule spare_update [OF assms(1)]) (simp_all add: extend_row_def)
  assume "r = Some i" "i_id i = k"
  then obtain j where hit: "find (\<lambda>i. is_running ec tm i \<and> i_extends i < 2) (instances d) = Some j"
    and i: "i_id j = k" by (auto simp: r extend_row_def)
  then have j: "j \<in> set (instances d)" "is_running ec tm j" "i_extends j < 2"
    by (auto dest: find_SomeD)
  have "find (\<lambda>i. i_id i = k) (instances d) = Some j"
    using assms(1) j(1) i find_unique [of i_id "instances d" j] by (simp add: spare_def ids_distinct_def)
  moreover have "find (\<lambda>i. i_id i = k) (instances d') =
      map_option (\<lambda>i. if is_running ec tm i \<and> i_extends i < 2 then extend_row extra i else i)
        (find (\<lambda>i. i_id i = k) (instances d))"
    unfolding d' by (simp, rule find_update_any) (simp add: extend_row_def)
  ultimately show "extends_left k d' < extends_left k d"
    using j by (simp add: extends_left_def extend_row_def)
qed

text \<open>A request to extend spends of what is left, every other leaves it alone.\<close>

definition extended :: "uuid \<Rightarrow> instance_call \<Rightarrow> instance_answer \<Rightarrow> bool" where
  "extended k call a \<longleftrightarrow>
     (case (call, a) of
        ((_, _, _, ExtendI), Inl (Reply code (Some i, _))) \<Rightarrow> code = 200 \<and> i_id i = k
      | _ \<Rightarrow> False)"

lemma CreateInstance_spare: "keeps (\<lambda>w. spare k n (db w)) (CreateInstance ecID teamID host port t)"
  unfolding CreateInstance_def by (intro keeps_bind keeps_db_call keeps_ret) (rule spare_insert)

lemma DestroyInstance_spare: "keeps (\<lambda>w. spare k n (db w)) (DestroyInstance ecID teamID)"
  unfolding DestroyInstance_def
  by (intro keeps_bind keeps_db_call keeps_ret) (auto intro!: spare_update)

lemma wp_ExtendInstance:
  assumes "spare k n (db w)"
  shows "wp (ExtendInstance ecID teamID extra 2)
    (\<lambda>r w'. spare k n (db w') \<and>
       (\<forall>i. r = Inr i \<longrightarrow> i_id i = k \<longrightarrow> extends_left k (db w') < extends_left k (db w))) w"
  unfolding ExtendInstance_def wp_bind
  using assms by (intro wp_db_call) (auto intro: spare_extend)

lemma wp_instanceContext:
  "wp (instanceContext u eventID ecID)
    (\<lambda>c w'. db w' = db w \<and> (\<forall>p. c = Inl p \<longrightarrow> (\<exists>code title. p = Problem code title))) w"
  unfolding instanceContext_def wp_bind
  by (rule quiet_wp, simp)
     (auto split: sum.split store_error.split option.split intro!: quiet_wp [OF quiet_instances(1)])

lemma wp_handleExtendInstance:
  assumes "spare k n (db w)"
  shows "wp (handleExtendInstance P srv u eventID ecID)
    (\<lambda>r w'. spare k n (db w') \<and>
       (extended k (u, eventID, ecID, ExtendI) (Inl r) \<longrightarrow> extends_left k (db w') < extends_left k (db w))) w"
  unfolding handleExtendInstance_def wp_bind
proof (rule wp_mono [OF wp_instanceContext])
  fix c :: "instance_reply + string \<times> ispec" and w1 :: world
  assume c: "db w1 = db w \<and> (\<forall>p. c = Inl p \<longrightarrow> (\<exists>code title. p = Problem code title))"
  then have here: "spare k n (db w1)" and same: "db w1 = db w" using assms by simp_all
  let ?Q = "\<lambda>r w'. spare k n (db w') \<and>
         (extended k (u, eventID, ecID, ExtendI) (Inl r) \<longrightarrow> extends_left k (db w') < extends_left k (db w))"
  show "wp (case c of Inl p \<Rightarrow> ret p
         | Inr (teamID, sp) \<Rightarrow> do {
             r \<leftarrow> ExtendInstance ecID teamID (sv_instance_ttl srv) 2;
             ret (case r of
                 Inl NotFound \<Rightarrow> Problem 409 ''no running instance or extend limit reached''
               | Inl _ \<Rightarrow> Problem 500 ''extend failed''
               | Inr i \<Rightarrow> Reply 200 (instanceResponse P srv eventID ecID teamID sp (Some i)))
           }) ?Q w1"
  proof (cases c)
    case (Inl p)
    then show ?thesis using c assms by (auto simp: extended_def)
  next
    case (Inr ts)
    then show ?thesis
      apply (simp only: Inr sum.case split_beta wp_bind)
      by (intro wp_mono [OF wp_ExtendInstance [OF here]])
         (auto split: store_error.split sum.split simp: extended_def instanceResponse_def same)
  qed
qed

lemma wp_ret_fun: "wp (ret a) Q = Q a"
  by (rule ext) simp

lemma wp_serve_instance:
  assumes "spare k n (db w)"
  shows "wp (serve_instance P srv u eventID ecID rq)
    (\<lambda>a w'. spare k n (db w') \<and>
       (extended k (u, eventID, ecID, rq) a \<longrightarrow> extends_left k (db w') < extends_left k (db w))) w"
proof (cases rq)
  case ExtendI
  then show ?thesis
    using wp_mono [OF wp_handleExtendInstance [OF assms]] by (simp add: serve_instance_def)
next
  case DestroyI
  have "keeps (\<lambda>w. spare k n (db w)) (handleDestroyInstance u eventID ecID)"
    unfolding handleDestroyInstance_def
    by (rule keeps_intros DestroyInstance_spare | (rule keeps_quiet, rule quiet_intros))+
  with assms DestroyI show ?thesis by (auto simp: serve_instance_def extended_def keeps_wp wp_ret_fun)
next
  case CreateI
  have "keeps (\<lambda>w. spare k n (db w)) (handleCreateInstance P srv u eventID ecID)"
    unfolding handleCreateInstance_def
    by (rule keeps_intros CreateInstance_spare | (rule keeps_quiet, rule quiet_intros))+
  with assms CreateI show ?thesis by (auto simp: serve_instance_def extended_def keeps_wp wp_ret_fun)
next
  case GetI
  have "quiet (handleGetInstance P srv u eventID ecID)"
    unfolding handleGetInstance_def by (intro quiet_intros)
  then have "keeps (\<lambda>w. spare k n (db w)) (handleGetInstance P srv u eventID ecID)" by (rule keeps_quiet)
  with assms GetI show ?thesis by (auto simp: serve_instance_def extended_def keeps_wp wp_ret_fun)
qed

definition instance_step :: "platform \<Rightarrow> server \<Rightarrow> uuid \<Rightarrow> instance_call \<Rightarrow> world \<Rightarrow> bool \<times> world" where
  "instance_step P srv k call w =
     (case call of (u, ev, ec, rq) \<Rightarrow>
        case run_state (serve_instance P srv u ev ec rq) w of (a, w') \<Rightarrow> (extended k call a, w'))"

interpretation extending: budget "instance_step P srv k" "\<lambda>w. ids_distinct (db w)" "\<lambda>_. True" "\<lambda>_. True"
  "\<lambda>w. extends_left k (db w)"
proof unfold_locales
  fix w :: world and call :: instance_call
  assume ids: "ids_distinct (db w)"
  obtain u ev ec rq where call: "call = (u, ev, ec, rq)" by (cases call)
  have "spare k (extends_left k (db w)) (db w)" using ids by (simp add: spare_def)
  from wp_serve_instance [OF this, of P srv u ev ec rq]
  show "ids_distinct (db (snd (instance_step P srv k call w)))"
    and "extends_left k (db (snd (instance_step P srv k call w))) \<le> extends_left k (db w)"
    and "fst (instance_step P srv k call w) \<Longrightarrow>
      extends_left k (db (snd (instance_step P srv k call w))) < extends_left k (db w)"
    by (simp_all add: instance_step_def wp_def spare_def call split_beta)
qed

lemma run_serve_all:
  "fst (extending.run P srv k calls w) =
     map2 (extended k) calls (fst (run_state (serve_all P srv calls) w))"
proof (induction calls arbitrary: w)
  case Nil
  then show ?case by simp
next
  case (Cons call calls)
  obtain u ev ec rq where call: "call = (u, ev, ec, rq)" by (cases call)
  obtain a w1 where run: "run_state (serve_instance P srv u ev ec rq) w = (a, w1)" by fastforce
  obtain answers w2 where rest: "run_state (serve_all P srv calls) w1 = (answers, w2)" by fastforce
  obtain gs w3 where "extending.run P srv k calls w1 = (gs, w3)" by fastforce
  moreover have "instance_step P srv k call w = (extended k call a, w1)"
    by (simp add: instance_step_def call run)
  ultimately show ?case using Cons [of w1] rest run by (simp add: call run_simps)
qed

lemma extends_left_start: "instances_ok d \<Longrightarrow> extends_left k d \<le> 2"
  by (auto simp: extends_left_def instances_ok_def nat_le_iff dest!: find_SomeD split: option.split)

text \<open>
  C14. Of any sequence of requests about instances, of whatever players, for whatever challenges and
  with whatever faults, at most two are answered that they have extended the instance of a given id:
  \<open>handleExtendInstance\<close> refuses the third.
\<close>

theorem extend_at_most_twice:
  assumes "instances_ok (db w)" and "distinct (map i_id (instances (db w)))"
  shows "length (filter (\<lambda>(call, a). extended k call a)
      (zip calls (fst (run_state (serve_all P srv calls) w)))) \<le> 2"
proof -
  have "extending.granted P srv k calls w \<le> extends_left k (db w)"
    using assms(2) by (intro extending.granted_le_left) (auto simp: ids_distinct_def)
  moreover have "length (filter (\<lambda>(r, g). g) (zip calls (map2 (extended k) calls answers))) =
      length (filter (\<lambda>(call, a). extended k call a) (zip calls answers))" for answers
    by (induction calls answers rule: list_induct2') auto
  ultimately show ?thesis
    using extends_left_start [OF assms(1), of k]
    by (simp add: extending.granted_def run_serve_all)
qed

definition extend_view :: "int \<Rightarrow> instant \<Rightarrow> world" where
  "extend_view n t = demo_world\<lparr>uuids := (\<lambda>_. 100), db := demo_db\<lparr>instances :=
     [\<lparr>i_id = 9, i_ec = 5, i_team = 3, i_host = ''10.13.37.9'', i_port = 80, i_status = ''running'',
       i_extends = n, i_expires = t, i_created = 0\<rparr>]\<rparr>\<rparr>"

definition extend_call :: instance_call where
  "extend_call = (demo_user, uuid_text 4, uuid_text 5, ExtendI)"

lemma extend_view_run:
  "case run_state (serve_instance demo_platform demo_server demo_user (uuid_text 4) (uuid_text 5) ExtendI)
      (extend_view n t) of (a, w') \<Rightarrow>
     extended 9 extend_call a = (n < 2) \<and>
     w' = (if n < 2 then extend_view (n + 1) (t + sv_instance_ttl demo_server) else extend_view n t)"
proof -
  have "case parseInstanceSpec (Some (JObj [(''port'', JInt 80)])) of None \<Rightarrow> False | Some sp \<Rightarrow> \<not> usesTeamFlag sp"
    by code_simp
  then obtain sp where spec: "parseInstanceSpec (Some (JObj [(''port'', JInt 80)])) = Some sp" "\<not> usesTeamFlag sp"
    by (auto split: option.splits)
  show ?thesis
    by (simp add: serve_instance_def handleExtendInstance_def instanceContext_def PlayerTeamForEvent_def
        ChallengeInstanceSpec_def ExtendInstance_def extend_stmt_def extend_view_def extend_call_def run_simps
        call_defs demo_defs player_team_def spec instanceResponse_def extended_def is_running_def
        update_where_def extend_row_def Let_def)
qed

theorem extend_at_most_twice_witness:
  "let calls = [extend_call, extend_call, extend_call];
       answers = fst (run_state (serve_all demo_platform demo_server calls) (extend_view 0 0))
   in length (filter (\<lambda>(call, a). extended 9 call a) (zip calls answers)) \<le> 2 \<and>
      map (extended 9 extend_call) answers = [True, True, False]"
proof -
  let ?calls = "[extend_call, extend_call, extend_call]"
  let ?answers = "fst (run_state (serve_all demo_platform demo_server ?calls) (extend_view 0 0))"
  have "instances_ok (db (extend_view 0 0))" "distinct (map i_id (instances (db (extend_view 0 0))))"
    by (simp_all add: extend_view_def instances_ok_def active_unique_def)
  from extend_at_most_twice [OF this] have
    "length (filter (\<lambda>(call, a). extended 9 call a) (zip ?calls ?answers)) \<le> 2" .
  moreover have "map (extended 9 extend_call) ?answers = [True, True, False]"
    using extend_view_run [of 0 0] extend_view_run [of 1 "sv_instance_ttl demo_server"]
      extend_view_run [of 2 "2 * sv_instance_ttl demo_server"]
    by (simp add: run_simps extend_call_def split: prod.splits)
  ultimately show ?thesis by (simp add: Let_def)
qed

subsection \<open>The global cap\<close>

lemma insert_instance_count:
  "insert_instance ecID teamID host port t now u d = Inr (i, d') \<Longrightarrow>
   count_running d' = Suc (count_running d)"
  by (auto simp: insert_instance_def Let_def count_running_def count_where_def)

text \<open>
  C15. A request served alone, on a network without faults, never takes the number of running instances
  above the configured maximum (it may start out above it). Simultaneous requests can: see \<open>Rush\<close>.
\<close>

theorem instance_cap:
  assumes "reliable w"
  shows "int (count_running (db (snd (run_state (handleCreateInstance P srv u eventID ecID) w))))
           \<le> max (int (count_running (db w))) (sv_instance_max srv)"
proof -
  have "wp (handleCreateInstance P srv u eventID ecID)
      (\<lambda>r w'. int (count_running (db w')) \<le> max (int (count_running (db w))) (sv_instance_max srv)) w"
    using assms unfolding handleCreateInstance_def wp_bind
    apply (rule_tac quiet_wp, rule_tac quiet_instanceContext)
    apply (clarsimp split: sum.split prod.split)
    apply (rule quiet_wp, rule quiet_instances)
    apply (clarsimp split: sum.split simp: CountRunningInstances_def)
    apply (rule wp_query_reliable, simp)
    apply (clarsimp simp: failed_def)
    apply (rule quiet_wp, rule quiet_provisionMock)
    apply (clarsimp simp: CreateInstance_def)
    apply (rule wp_db_call_reliable, simp)
     apply (auto simp: conflict_if_unique_def dest!: insert_instance_count
        intro: quiet_wp [OF quiet_instances(2)])
    done
  then show ?thesis by (simp add: wp_def split_beta)
qed

theorem instance_cap_witness:
  "int (count_running (db (snd (run_state
     (handleCreateInstance demo_platform demo_server demo_user (uuid_text 4) (uuid_text 5)) demo_world))))
   \<le> 100"
proof -
  have "reliable demo_world" by (simp add: reliable_def demo_world_def)
  from instance_cap [OF this, of demo_platform demo_server demo_user "uuid_text 4" "uuid_text 5"]
  show ?thesis by (simp add: demo_defs count_running_def count_where_def)
qed

end
