(* ===== verification/Scoring.thy ===== *)
theory Scoring
  imports Go_Json
begin

text \<open>
  \<open>internal/core/scoring/scoring.go\<close>: the points of a challenge, from the JSON of its scoring
  column. The error of \<open>json.Unmarshal\<close> is ignored, so a document of the wrong shape is read as
  far as it fits.
\<close>

record score_spec =
  sc_type :: string
  sc_points :: int
  sc_initial :: int
  sc_minimum :: int
  sc_decay :: int

definition zero_spec :: score_spec where
  "zero_spec = \<lparr>sc_type = [], sc_points = 0, sc_initial = 0, sc_minimum = 0, sc_decay = 0\<rparr>"

definition score_fields :: "(string \<times> score_spec setter) list" where
  "score_fields =
     [(''type'', set_string (\<lambda>x. sc_type_update (\<lambda>_. x))),
      (''points'', set_int (\<lambda>x. sc_points_update (\<lambda>_. x))),
      (''initial'', set_int (\<lambda>x. sc_initial_update (\<lambda>_. x))),
      (''minimum'', set_int (\<lambda>x. sc_minimum_update (\<lambda>_. x))),
      (''decay'', set_int (\<lambda>x. sc_decay_update (\<lambda>_. x)))]"

definition points :: "json option \<Rightarrow> int" where
  "points raw =
     (let s = (case raw of
                 None \<Rightarrow> zero_spec
               | Some j \<Rightarrow> fst (decode_struct False score_fields j zero_spec))
      in if sc_type s = ''static'' then sc_points s
         else if sc_type s = ''dynamic'' then
           (if sc_initial s > 0 then sc_initial s else sc_points s)
         else if sc_type s = ''manual'' then 0
         else sc_points s)"

subsection \<open>Bounds\<close>

definition spec_ok :: "score_spec \<Rightarrow> bool" where
  "spec_ok s \<longleftrightarrow> int64_ok (sc_points s) \<and> int64_ok (sc_initial s)"

lemma setters_spec_ok:
  assumes "spec_ok r"
  shows "spec_ok (fst (set_string (\<lambda>x. sc_type_update (\<lambda>_. x)) v r))"
    and "spec_ok (fst (set_int (\<lambda>x. sc_points_update (\<lambda>_. x)) v r))"
    and "spec_ok (fst (set_int (\<lambda>x. sc_initial_update (\<lambda>_. x)) v r))"
    and "spec_ok (fst (set_int (\<lambda>x. sc_minimum_update (\<lambda>_. x)) v r))"
    and "spec_ok (fst (set_int (\<lambda>x. sc_decay_update (\<lambda>_. x)) v r))"
  using assms by (cases v; simp add: spec_ok_def)+

lemma decoded_spec_ok: "spec_ok (fst (decode_struct strict score_fields j zero_spec))"
proof (rule decode_struct_invariant)
  show "spec_ok zero_spec"
    by (simp add: spec_ok_def zero_spec_def int64_ok_def min_int64_def max_int64_def)
next
  fix n s v and r :: score_spec
  assume "(n, s) \<in> set score_fields" and "spec_ok r"
  then show "spec_ok (fst (s v r))"
    unfolding score_fields_def by (auto simp: setters_spec_ok)
qed

text \<open>
  Whatever document a challenge carries, its points are a value of \<open>int\<close>: a number that does
  not fit is a type error, which leaves the zero value.
\<close>

theorem points_int64: "int64_ok (points raw)"
proof -
  let ?s = "case raw of None \<Rightarrow> zero_spec
            | Some j \<Rightarrow> fst (decode_struct False score_fields j zero_spec)"
  have "spec_ok ?s"
    by (simp add: decoded_spec_ok split: option.split)
       (simp add: spec_ok_def zero_spec_def int64_ok_def min_int64_def max_int64_def)
  moreover have "int64_ok 0" by (simp add: int64_ok_def min_int64_def max_int64_def)
  ultimately show ?thesis by (simp add: points_def Let_def spec_ok_def)
qed

text \<open>A static document, as the author interface writes it.\<close>

definition static_doc :: "int \<Rightarrow> json" where
  "static_doc n = JObj [(''type'', JStr ''static''), (''points'', JInt n)]"

lemma points_static [simp]: "int64_ok n \<Longrightarrow> points (Some (static_doc n)) = n"
  by (simp add: points_def static_doc_def score_fields_def zero_spec_def ascii_lower_def)

lemma points_None [simp]: "points None = 0"
  by (simp add: points_def zero_spec_def)

end
