(* ===== verification/Schedule.thy ===== *)
theory Schedule
  imports Platform Go_Time "HOL-Library.Word"
begin

text \<open>
  \<open>internal/core/schedule/schedule.go\<close>: whether a challenge is open at an instant. A schedule is a
  list of windows; a window is a start with an ISO-8601 duration, repeated by an RFC 5545 rule when
  it has one. An absent, malformed or empty schedule is always open.
\<close>

record window =
  opens_at :: string
  win_duration :: string
  rrule :: string

record schedule =
  timezone :: string
  windows :: "window list"
  closed_behavior :: string

definition zero_window :: window where
  "zero_window = \<lparr>opens_at = [], win_duration = [], rrule = []\<rparr>"

definition zero_schedule :: schedule where
  "zero_schedule = \<lparr>timezone = [], windows = [], closed_behavior = []\<rparr>"

definition window_fields :: "(string \<times> window setter) list" where
  "window_fields =
     [(''opens_at'', set_string (\<lambda>x. opens_at_update (\<lambda>_. x))),
      (''duration'', set_string (\<lambda>x. win_duration_update (\<lambda>_. x))),
      (''rrule'', set_string (\<lambda>x. rrule_update (\<lambda>_. x)))]"

definition schedule_fields :: "(string \<times> schedule setter) list" where
  "schedule_fields =
     [(''timezone'', set_string (\<lambda>x. timezone_update (\<lambda>_. x))),
      (''windows'', set_slice zero_window (decode_struct False window_fields)
         (\<lambda>x. windows_update (\<lambda>_. x))),
      (''closed_behavior'', set_string (\<lambda>x. closed_behavior_update (\<lambda>_. x)))]"

subsection \<open>Durations\<close>

text \<open>
  The regular expression \<open>^P(?:(\d+)D)?(?:T(?:(\d+)H)?(?:(\d+)M)?(?:(\d+)S)?)?$\<close>. A group is a run
  of digits with its unit, empty when it is not there; digits and units do not overlap, so the
  first match of the expression is the only one.
\<close>

definition iso_group :: "char \<Rightarrow> string \<Rightarrow> string \<times> string" where
  "iso_group unit s =
     (case span_digits s of (ds, r) \<Rightarrow>
        if ds = [] then ([], s)
        else (case eat unit r of Some q \<Rightarrow> (ds, q) | None \<Rightarrow> ([], s)))"

definition iso_match :: "string \<Rightarrow> (string \<times> string \<times> string \<times> string) option" where
  "iso_match s = do {
     v \<leftarrow> eat (CHR ''P'') s;
     (let (d, v) = iso_group (CHR ''D'') v
      in case eat (CHR ''T'') v of
           None \<Rightarrow> if v = [] then Some (d, [], [], []) else None
         | Some v \<Rightarrow>
             (let (h, v) = iso_group (CHR ''H'') v;
                  (m, v) = iso_group (CHR ''M'') v;
                  (s, v) = iso_group (CHR ''S'') v
              in if v = [] then Some (d, h, m, s) else None))
   }"

text \<open>The products and the sum are those of \<open>int64\<close>.\<close>

definition parseISODuration :: "string \<Rightarrow> 64 word" where
  "parseISODuration s =
     (if s = [] then 0
      else (case iso_match s of
              None \<Rightarrow> 0
            | Some (d, h, m, sec) \<Rightarrow>
                of_int (atoi_digits d) * 24 * of_int hour + of_int (atoi_digits h) * of_int hour +
                of_int (atoi_digits m) * of_int minute + of_int (atoi_digits sec) * of_int second))"

subsection \<open>Windows\<close>

definition within :: "instant \<Rightarrow> instant \<Rightarrow> 64 word \<Rightarrow> bool" where
  "within t start dur =
     (if time_before t start then False
      else if sint dur \<le> 0 then True
      else time_before t (start + sint dur))"

definition window_open :: "platform \<Rightarrow> instant \<Rightarrow> window \<Rightarrow> bool" where
  "window_open P t w =
     (case parse_rfc3339 (opens_at w) of
        None \<Rightarrow> False
      | Some start \<Rightarrow>
          (let dur = parseISODuration (win_duration w)
           in if rrule w = [] then within t start dur
              else (let dur = (if sint dur \<le> 0 then of_int (24 * hour) else dur)
                    in case rrule_between P (rrule w) start (t + sint (- dur)) t of
                         None \<Rightarrow> False
                       | Some occs \<Rightarrow> list_ex (\<lambda>occ. within t occ dur) occs)))"

fun open_loop :: "platform \<Rightarrow> instant \<Rightarrow> string \<Rightarrow> window list \<Rightarrow> bool \<times> string" where
  "open_loop P t cb [] = (False, cb)"
| "open_loop P t cb (w # ws) = (if window_open P t w then (True, cb) else open_loop P t cb ws)"

definition open_at :: "platform \<Rightarrow> json option \<Rightarrow> instant \<Rightarrow> bool \<times> string" where
  "open_at P raw t =
     (if raw = None \<or> raw = Some JNull then (True, [])
      else (case decode_struct False schedule_fields (the raw) zero_schedule of
              (s, ok) \<Rightarrow>
                if \<not> ok \<or> windows s = [] then (True, [])
                else (let cb = (if closed_behavior s = [] then ''hidden'' else closed_behavior s)
                      in open_loop P t cb (windows s))))"

subsection \<open>Durations are read exactly\<close>

lemma iso_group_number:
  "\<not> is_digit u \<Longrightarrow> iso_group u (digits_of_nat n @ u # r) = (digits_of_nat n, r)"
  by (simp add: iso_group_def span_digits_append digits_of_nat_digits)

lemma units_no_digits [simp]:
  "\<not> is_digit (CHR ''D'')" "\<not> is_digit (CHR ''H'')" "\<not> is_digit (CHR ''M'')" "\<not> is_digit (CHR ''S'')"
  by (simp_all add: is_digit_def)

lemma atoi_digits_of_nat:
  "int n \<le> max_int64 \<Longrightarrow> atoi_digits (digits_of_nat n) = int n"
  by (simp add: atoi_digits_def)

text \<open>The text of a duration given by its parts.\<close>

definition iso_text :: "nat \<Rightarrow> nat \<Rightarrow> nat \<Rightarrow> nat \<Rightarrow> string" where
  "iso_text d h m s =
     ''P'' @ digits_of_nat d @ ''DT'' @ digits_of_nat h @ ''H'' @ digits_of_nat m @ ''M'' @
     digits_of_nat s @ ''S''"

lemma iso_match_text:
  "iso_match (iso_text d h m s) =
     Some (digits_of_nat d, digits_of_nat h, digits_of_nat m, digits_of_nat s)"
  using iso_group_number [of "CHR ''S''" s "[]"]
  by (simp add: iso_match_def iso_text_def iso_group_number)

lemma sint_of_int_64: "min_int64 \<le> n \<Longrightarrow> n \<le> max_int64 \<Longrightarrow> sint (of_int n :: 64 word) = n"
  by (simp add: min_int64_def max_int64_def signed_of_int signed_take_bit_int_eq_self)

text \<open>
  C27. A duration of days, hours, minutes and seconds is read as exactly that many nanoseconds,
  whenever they fit into an \<open>int64\<close>.
\<close>

theorem parse_iso_duration_exact:
  assumes "((int d * 24 + int h) * 60 + int m) * minute + int s * second \<le> max_int64"
  shows "sint (parseISODuration (iso_text d h m s)) =
           ((int d * 24 + int h) * 60 + int m) * minute + int s * second"
proof -
  let ?n = "((int d * 24 + int h) * 60 + int m) * minute + int s * second"
  have parts: "int d \<le> max_int64" "int h \<le> max_int64" "int m \<le> max_int64" "int s \<le> max_int64"
    using assms by (simp_all add: duration_defs max_int64_def)
  have "parseISODuration (iso_text d h m s) = of_int ?n"
    using parts
    by (simp add: parseISODuration_def iso_match_text atoi_digits_of_nat duration_defs)
       (simp add: iso_text_def algebra_simps)
  moreover have "sint (of_int ?n :: 64 word) = ?n"
    using assms by (intro sint_of_int_64) (simp_all add: duration_defs min_int64_def)
  ultimately show ?thesis by simp
qed

theorem parse_iso_duration_exact_witness:
  "sint (parseISODuration (iso_text 1 2 0 0)) = 26 * hour"
proof -
  have "((int 1 * 24 + int 2) * 60 + int 0) * minute + int 0 * second \<le> max_int64"
    by (simp add: duration_defs max_int64_def)
  from parse_iso_duration_exact [OF this] show ?thesis by (simp add: duration_defs)
qed

text \<open>
  C28. A longer duration wraps around and may come out negative, and then its window never closes:
  106752 days are meant, no end is read.
\<close>

theorem long_window_never_closes:
  "within t start (parseISODuration ''P106752D'') \<longleftrightarrow> start \<le> t"
proof -
  have "parseISODuration ''P106752D'' = of_int (106752 * 24 * hour)"
    by (simp add: parseISODuration_def iso_match_def iso_group_def is_digit_def atoi_digits_def
        digit_val_def max_int64_def duration_defs)
  then have "sint (parseISODuration ''P106752D'') \<le> 0"
    by (simp add: duration_defs)
  then show ?thesis by (auto simp: within_def time_before_def)
qed

subsection \<open>Recurring windows\<close>

lemma sint_minus_64:
  fixes w :: "64 word"
  assumes "0 < sint w"
  shows "sint (- w) = - sint w"
proof -
  have "sint w < 2 ^ 63" using sint_lt [of w] by simp
  then have "sint (of_int (- sint w) :: 64 word) = - sint w"
    using assms by (intro sint_of_int_64) (simp_all add: min_int64_def max_int64_def)
  then show ?thesis by simp
qed

lemma within_occurrence:
  "0 < sint dur \<Longrightarrow> within t x dur \<longleftrightarrow> x \<le> t \<and> t < x + sint dur"
  by (auto simp: within_def time_before_def)

text \<open>The length of a recurring window: a day when no usable duration is given.\<close>

definition recurrence_length :: "window \<Rightarrow> duration" where
  "recurrence_length w =
     (let d = sint (parseISODuration (win_duration w)) in if d \<le> 0 then 24 * hour else d)"

lemma recurrence_dur:
  "(let dur = parseISODuration (win_duration w) in if sint dur \<le> 0 then of_int (24 * hour) else dur)
     = (of_int (recurrence_length w) :: 64 word)"
  by (simp add: recurrence_length_def Let_def)

lemma recurrence_length_sint:
  "0 < recurrence_length w \<and> sint (of_int (recurrence_length w) :: 64 word) = recurrence_length w"
proof (cases "sint (parseISODuration (win_duration w)) \<le> 0")
  case True
  then have "recurrence_length w = 24 * hour" by (simp add: recurrence_length_def Let_def)
  then show ?thesis
    by (simp add: duration_defs sint_of_int_64 min_int64_def max_int64_def)
next
  case False
  then show ?thesis by (simp add: recurrence_length_def Let_def)
qed

text \<open>
  C29. A recurring window is open at \<open>t\<close> exactly when one of its occurrences has begun and has not
  lasted its length yet. The code asks the rule only for the occurrences of the last such length;
  they are enough. The hypothesis is what \<open>rrule-go\<close> documents for \<open>Between\<close> with both ends
  included, \<open>R\<close> being the rule's occurrences.
\<close>

theorem recurring_window_open:
  assumes "rrule w \<noteq> []" and "parse_rfc3339 (opens_at w) = Some start"
    and between: "\<And>lo hi. \<exists>occs. rrule_between P (rrule w) start lo hi = Some occs \<and>
                               set occs = {x \<in> R. lo \<le> x \<and> x \<le> hi}"
  shows "window_open P t w \<longleftrightarrow> (\<exists>x \<in> R. x \<le> t \<and> t < x + recurrence_length w)"
proof -
  let ?n = "recurrence_length w" and ?dur = "of_int (recurrence_length w) :: 64 word"
  have n: "0 < ?n" "sint ?dur = ?n" using recurrence_length_sint by auto
  then have neg: "sint (- ?dur) = - ?n" by (simp add: sint_minus_64)
  from between obtain occs
    where occs: "rrule_between P (rrule w) start (t + - ?n) t = Some occs"
      and elems: "set occs = {x \<in> R. t + - ?n \<le> x \<and> x \<le> t}" by blast
  have "window_open P t w \<longleftrightarrow> (\<exists>x \<in> set occs. within t x ?dur)"
    using assms(1,2) occs neg recurrence_dur [of w]
    by (simp add: window_open_def Let_def list_ex_iff)
  also have "\<dots> \<longleftrightarrow> (\<exists>x \<in> set occs. x \<le> t \<and> t < x + ?n)"
    using n by (simp add: within_occurrence)
  also have "\<dots> \<longleftrightarrow> (\<exists>x \<in> R. x \<le> t \<and> t < x + ?n)"
    using elems by auto
  finally show ?thesis .
qed

lemma new_year_2026: "parse_rfc3339 ''2026-01-01T00:00:00Z'' = Some 1767225600000000000"
  by (simp add: parse_rfc3339_def four_digits_def two_digits_def in_range_def fraction_def zone_def
     is_digit_def digit_val_def unix_nanos_def duration_defs days_before_year_def
     days_before_month_def days_in_def)

theorem recurring_window_open_witness:
  "let w = \<lparr>opens_at = ''2026-01-01T00:00:00Z'', win_duration = [], rrule = ''FREQ=DAILY;COUNT=1''\<rparr>
   in window_open demo_platform 1767225600000000005 w \<and>
      \<not> window_open demo_platform (1767225600000000000 + 24 * hour) w"
proof -
  let ?w = "\<lparr>opens_at = ''2026-01-01T00:00:00Z'', win_duration = [], rrule = ''FREQ=DAILY;COUNT=1''\<rparr>"
  have len: "recurrence_length ?w = 24 * hour"
    by (simp add: recurrence_length_def parseISODuration_def)
  have "window_open demo_platform t ?w \<longleftrightarrow>
      (\<exists>x \<in> {1767225600000000000}. x \<le> t \<and> t < x + recurrence_length ?w)" for t
    by (rule recurring_window_open [where start = 1767225600000000000])
       (auto simp: new_year_2026 demo_platform_def)
  then show ?thesis by (simp add: len duration_defs)
qed

subsection \<open>Schedules\<close>

lemma open_loop_fst: "fst (open_loop P t cb ws) \<longleftrightarrow> list_ex (window_open P t) ws"
  by (induction ws) auto

lemma open_loop_snd [simp]: "snd (open_loop P t cb ws) = cb"
  by (induction ws) auto

text \<open>
  Only a schedule that was read with at least one window can be closed, and it is closed exactly
  while none of its windows is open; the answer to a closed one is \<open>hidden\<close> unless it names another.
\<close>

lemma closed_iff:
  "\<not> fst (open_at P raw t) \<longleftrightarrow>
     (\<exists>j s. raw = Some j \<and> j \<noteq> JNull \<and> decode_struct False schedule_fields j zero_schedule = (s, True) \<and>
        windows s \<noteq> [] \<and> \<not> list_ex (window_open P t) (windows s))"
  by (cases raw) (auto simp: open_at_def open_loop_fst Let_def split: prod.split)

lemma open_at_None [simp]: "open_at P None t = (True, [])"
  by (simp add: open_at_def)

end
