(* ===== verification/Client_Addr.thy ===== *)
theory Client_Addr
  imports Encodings
begin

text \<open>
  The address of a client: \<open>clientIP\<close> of \<open>internal/httpserver/submit.go\<close> with what it uses of the
  packages \<open>net\<close> and \<open>net/netip\<close>, \<open>net.SplitHostPort\<close> and \<open>net.ParseIP\<close>. Its result goes into
  the column \<open>submissions.ip\<close>, of type \<open>INET\<close>; the theorems say that it is empty (stored as NULL)
  or the text of an address, and that it is the client's address without the port.
\<close>

subsection \<open>\<open>net.SplitHostPort\<close>\<close>

text \<open>What comes before and after the first, or the last, occurrence of a character.\<close>

fun cut_first :: "char \<Rightarrow> string \<Rightarrow> (string \<times> string) option" where
  "cut_first c [] = None"
| "cut_first c (x # xs) =
     (if x = c then Some ([], xs)
      else map_option (\<lambda>(a, b). (x # a, b)) (cut_first c xs))"

fun cut_last :: "char \<Rightarrow> string \<Rightarrow> (string \<times> string) option" where
  "cut_last c [] = None"
| "cut_last c (x # xs) =
     (case cut_last c xs of
        Some (a, b) \<Rightarrow> Some (x # a, b)
      | None \<Rightarrow> if x = c then Some ([], xs) else None)"

lemma cut_first_None [simp]: "cut_first c s = None \<longleftrightarrow> c \<notin> set s"
  by (induction s) auto

lemma cut_first_eq: "c \<notin> set a \<Longrightarrow> cut_first c (a @ c # b) = Some (a, b)"
  by (induction a) auto

lemma cut_last_None [simp]: "cut_last c s = None \<longleftrightarrow> c \<notin> set s"
  by (induction s) (auto split: option.split)

lemma cut_last_eq: "c \<notin> set b \<Longrightarrow> cut_last c (a @ c # b) = Some (a, b)"
proof (induction a)
  case Nil
  then have "cut_last c b = None" unfolding cut_last_None .
  then show ?case by (simp only: cut_last.simps append_Nil option.case if_True simp_thms)
qed simp

lemma cut_last_Some: "cut_last c s = Some (a, b) \<Longrightarrow> s = a @ c # b \<and> c \<notin> set b"
  by (induction s arbitrary: a b) (auto split: option.splits if_splits)

text \<open>
  The port begins after the last colon. A host in brackets may have colons, and its closing bracket
  must stand right before that colon; one without brackets may not. No other bracket may occur. The
  errors are not told apart.
\<close>

definition SplitHostPort :: "string \<Rightarrow> (string \<times> string) option" where
  "SplitHostPort hostport =
     (case cut_last CHR '':'' hostport of
        None \<Rightarrow> None
      | Some (before, port) \<Rightarrow>
          if prefix ''['' hostport then
            (case cut_first CHR '']'' hostport of
               None \<Rightarrow> None
             | Some (opened, rest) \<Rightarrow>
                 let host = tl opened
                 in if rest \<noteq> CHR '':'' # port then None
                    else if CHR ''['' \<in> set host \<or> CHR ''['' \<in> set rest \<or> CHR '']'' \<in> set rest then None
                    else Some (host, port))
          else if CHR '':'' \<in> set before then None
          else if CHR ''['' \<in> set hostport \<or> CHR '']'' \<in> set hostport then None
          else Some (before, port))"

subsection \<open>\<open>net.ParseIP\<close>\<close>

text \<open>
  \<open>parseIPv4Fields\<close>: the value and the number of digits of the current field, and the fields before.
  Each has a digit, at most one if it is a zero, and at most 255; there are four of them.
\<close>

fun v4_fields :: "nat \<Rightarrow> nat \<Rightarrow> nat list \<Rightarrow> string \<Rightarrow> nat list option" where
  "v4_fields v digs fs [] = (if length fs < 3 then None else Some (fs @ [v]))"
| "v4_fields v digs fs (c # cs) =
     (if is_digit c then
        (if digs = 1 \<and> v = 0 then None
         else if 10 * v + digit_val c > 255 then None
         else v4_fields (10 * v + digit_val c) (digs + 1) fs cs)
      else if c = CHR ''.'' then
        (if digs = 0 \<or> cs = [] \<or> length fs = 3 then None
         else v4_fields 0 0 (fs @ [v]) cs)
      else None)"

definition parseIPv4Fields :: "string \<Rightarrow> nat list option" where
  "parseIPv4Fields s = v4_fields 0 0 [] s"

text \<open>
  The loop of \<open>parseIPv6\<close>: what is left of the text, the bytes so far, and where the ellipsis stands
  in them. A group is up to four hexadecimal digits; an IPv4 address may stand for the last two.
\<close>

definition hex_digits :: "string \<Rightarrow> nat \<Rightarrow> nat" where
  "hex_digits s v = fold (\<lambda>c v. 16 * v + (case hex_val c of None \<Rightarrow> 0 | Some n \<Rightarrow> n)) s v"

definition is_hex :: "char \<Rightarrow> bool" where
  "is_hex c \<longleftrightarrow> hex_val c \<noteq> None"

function v6_groups :: "string \<Rightarrow> nat list \<Rightarrow> nat option \<Rightarrow> (string \<times> nat list \<times> nat option) option" where
  "v6_groups s ip ell =
     (if 16 \<le> length ip then Some (s, ip, ell)
      else
        let ds = takeWhile is_hex s; rest = dropWhile is_hex s;
            ip' = ip @ [hex_digits ds 0 div 256, hex_digits ds 0 mod 256]
        in if length ds = 0 \<or> length ds > 4 then None
           else (case rest of
               [] \<Rightarrow> Some ([], ip', ell)
             | c # more \<Rightarrow>
                 if c = CHR ''.'' then
                   (if (ell = None \<and> length ip \<noteq> 12) \<or> length ip + 4 > 16 then None
                    else map_option (\<lambda>f. ([], ip @ f, ell)) (parseIPv4Fields s))
                 else if c \<noteq> CHR '':'' \<or> more = [] then None
                 else if hd more = CHR '':'' then
                   (if ell \<noteq> None then None
                    else if tl more = [] then Some ([], ip', Some (length ip'))
                    else v6_groups (tl more) ip' (Some (length ip')))
                 else v6_groups more ip' ell))"
  by pat_completeness auto
termination by (relation "measure (\<lambda>(s, ip, ell). 16 - length ip)") auto

declare v6_groups.simps [simp del]

text \<open>The zeros that the ellipsis stands for; it must stand for at least one group.\<close>

definition expand_ellipsis :: "nat list \<Rightarrow> nat option \<Rightarrow> nat list option" where
  "expand_ellipsis ip ell =
     (if length ip < 16
      then map_option (\<lambda>k. take k ip @ replicate (16 - length ip) 0 @ drop k ip) ell
      else if ell \<noteq> None then None else Some ip)"

text \<open>
  An address with a zone (after a \<open>%\<close>) is no \<open>net.IP\<close>, and one with an empty zone is none at all, so
  both are refused here at once.
\<close>

definition parseIPv6 :: "string \<Rightarrow> nat list option" where
  "parseIPv6 s =
     (if CHR ''%'' \<in> set s then None
      else let (s', ell) = (if prefix ''::'' s then (drop 2 s, Some 0) else (s, None))
           in if ell = Some 0 \<and> s' = [] then Some (replicate 16 0)
              else (case v6_groups s' [] ell of
                      Some ([], ip, ell') \<Rightarrow> expand_ellipsis ip ell'
                    | _ \<Rightarrow> None))"

text \<open>
  \<open>netip.ParseAddr\<close> goes by the first dot, colon or percent sign. \<open>As16\<close> maps an IPv4 address into
  IPv6.
\<close>

definition ParseIP :: "string \<Rightarrow> nat list option" where
  "ParseIP s =
     (case find (\<lambda>c. c = CHR ''.'' \<or> c = CHR '':'' \<or> c = CHR ''%'') s of
        None \<Rightarrow> None
      | Some c \<Rightarrow>
          if c = CHR ''.'' then map_option (\<lambda>f. replicate 10 0 @ [255, 255] @ f) (parseIPv4Fields s)
          else if c = CHR '':'' then parseIPv6 s
          else None)"

subsection \<open>\<open>clientIP\<close>\<close>

definition clientIP :: "string \<Rightarrow> string" where
  "clientIP remoteAddr =
     (let host = (case SplitHostPort remoteAddr of None \<Rightarrow> remoteAddr | Some (h, _) \<Rightarrow> h)
      in if ParseIP host = None then [] else host)"

subsection \<open>What is parsed\<close>

text \<open>An address is 16 bytes, and its text has only hexadecimal digits, dots and colons.\<close>

definition addr_char :: "char \<Rightarrow> bool" where
  "addr_char c \<longleftrightarrow> is_hex c \<or> c = CHR ''.'' \<or> c = CHR '':''"

lemma is_hex_digit: "is_digit c \<Longrightarrow> is_hex c"
  by (auto simp: is_hex_def hex_val_def is_digit_def)

lemma hex_val_bound: "hex_val c = Some n \<Longrightarrow> n < 16"
  by (auto simp: hex_val_def Let_def split: if_splits)

lemma v4_fields_bytes:
  "v4_fields v digs fs s = Some bs \<Longrightarrow> length fs \<le> 3 \<Longrightarrow> \<forall>x \<in> set fs. x < 256 \<Longrightarrow> v < 256 \<Longrightarrow>
   length bs = 4 \<and> (\<forall>x \<in> set bs. x < 256) \<and> (\<forall>c \<in> set s. addr_char c)"
  by (induction v digs fs s rule: v4_fields.induct) (auto simp: addr_char_def is_hex_digit split: if_splits)

lemma v4_fields_plain: "v4_fields v digs fs s = Some bs \<Longrightarrow> CHR '':'' \<notin> set s"
  by (induction v digs fs s rule: v4_fields.induct) (auto simp: is_digit_def split: if_splits)

lemma parseIPv4Fields_bytes:
  "parseIPv4Fields s = Some bs \<Longrightarrow> length bs = 4 \<and> (\<forall>x \<in> set bs. x < 256) \<and> (\<forall>c \<in> set s. addr_char c)"
  using v4_fields_bytes [of 0 0 "[]" s bs] by (simp add: parseIPv4Fields_def)

lemma hex_digits_snoc: "hex_digits (s @ [c]) v = 16 * hex_digits s v + (case hex_val c of None \<Rightarrow> 0 | Some n \<Rightarrow> n)"
  by (simp add: hex_digits_def)

lemma hex_digits_bound: "hex_digits s 0 < 16 ^ length s"
proof (induction s rule: rev_induct)
  case Nil
  show ?case by (simp add: hex_digits_def)
next
  case (snoc c s)
  have "(case hex_val c of None \<Rightarrow> 0 | Some n \<Rightarrow> n) < 16"
    by (simp add: hex_val_bound split: option.split)
  with snoc show ?case by (simp add: hex_digits_snoc)
qed

lemma hex_group_byte: "length ds \<le> 4 \<Longrightarrow> hex_digits ds 0 div 256 < 256"
  using hex_digits_bound [of ds] power_increasing [of "length ds" 4 "16 :: nat"]
  by (simp add: less_mult_imp_div_less)

lemma all_set_span: "\<forall>c \<in> set (dropWhile P s). Q c \<Longrightarrow> (\<And>c. P c \<Longrightarrow> Q c) \<Longrightarrow> \<forall>c \<in> set s. Q c"
  by (induction s) (auto split: if_splits)

text \<open>One group: what may follow it.\<close>

lemma v6_groupsE:
  assumes "v6_groups s ip ell = Some r" and "length ip < 16"
  obtains (finish) ds where "s = ds" "ds \<noteq> []" "length ds \<le> 4" "\<forall>c \<in> set ds. is_hex c"
      "r = ([], ip @ [hex_digits ds 0 div 256, hex_digits ds 0 mod 256], ell)"
  | (v4) f where "parseIPv4Fields s = Some f" "length ip \<le> 12" "r = ([], ip @ f, ell)"
  | (colon) ds more where "s = ds @ CHR '':'' # more" "length ds \<le> 4" "\<forall>c \<in> set ds. is_hex c"
      "v6_groups more (ip @ [hex_digits ds 0 div 256, hex_digits ds 0 mod 256]) ell = Some r"
  | (ending) ds where "s = ds @ ''::''" "length ds \<le> 4" "\<forall>c \<in> set ds. is_hex c"
      "r = ([], ip @ [hex_digits ds 0 div 256, hex_digits ds 0 mod 256], Some (length ip + 2))"
  | (ellipsis) ds more where "s = ds @ CHR '':'' # CHR '':'' # more" "length ds \<le> 4" "\<forall>c \<in> set ds. is_hex c"
      "v6_groups more (ip @ [hex_digits ds 0 div 256, hex_digits ds 0 mod 256]) (Some (length ip + 2)) = Some r"
proof -
  define ds where "ds = takeWhile is_hex s"
  define rest where "rest = dropWhile is_hex s"
  have s: "s = ds @ rest" and hex: "\<forall>c \<in> set ds. is_hex c"
    by (auto simp: ds_def rest_def dest: set_takeWhileD)
  note eq = assms(1) [unfolded v6_groups.simps [of s ip ell] Let_def, folded ds_def rest_def]
  have ds: "ds \<noteq> []" "length ds \<le> 4" using eq assms(2) by (auto split: if_splits)
  show thesis
  proof (cases rest)
    case Nil
    then show thesis using finish [of ds] eq assms(2) s ds hex by simp
  next
    case (Cons c more)
    consider "c = CHR ''.''" | "c = CHR '':''" "more \<noteq> []" "hd more \<noteq> CHR '':''"
      | m where "c = CHR '':''" "more = CHR '':'' # m"
      using eq assms(2) ds Cons by (cases more) (auto split: if_splits)
    then show thesis
    proof cases
      case 1
      then show thesis using v4 eq assms(2) Cons ds by (auto split: if_splits)
    next
      case 2
      then show thesis using colon [of ds more] s eq assms(2) Cons ds hex by (auto split: if_splits)
    next
      case 3
      then show thesis
        using ending [of ds] ellipsis [of ds m] s eq assms(2) Cons ds hex by (auto split: if_splits)
    qed
  qed
qed

definition v6_ok :: "nat list \<Rightarrow> nat option \<Rightarrow> bool" where
  "v6_ok ip ell \<longleftrightarrow> even (length ip) \<and> length ip \<le> 16 \<and> (\<forall>x \<in> set ip. x < 256) \<and>
     (\<forall>k. ell = Some k \<longrightarrow> k \<le> length ip)"

lemma v6_ok_group:
  assumes "v6_ok ip ell" and "length ip < 16" and "length ds \<le> 4"
    and "ell' = ell \<or> ell' = Some (length ip + 2)"
  shows "v6_ok (ip @ [hex_digits ds 0 div 256, hex_digits ds 0 mod 256]) ell'"
proof -
  from assms(1,2) have "length ip + 2 \<le> 16" by (auto simp: v6_ok_def elim!: evenE)
  then show ?thesis using assms hex_group_byte [OF assms(3)] by (auto simp: v6_ok_def)
qed

lemma v6_groups_bytes:
  "v6_groups s ip ell = Some (s', ip', ell') \<Longrightarrow> v6_ok ip ell \<Longrightarrow>
   v6_ok ip' ell' \<and> (s' = [] \<longrightarrow> (\<forall>c \<in> set s. addr_char c))"
proof (induction "16 - length ip" arbitrary: s ip ell rule: less_induct)
  case less
  show ?case
  proof (cases "length ip < 16")
    case False
    then show ?thesis using less.prems by (auto simp: v6_groups.simps [of s ip])
  next
    case short: True
    note group = v6_ok_group [OF less.prems(2) short]
    have ih: "v6_ok ip' ell' \<and> (s' = [] \<longrightarrow> (\<forall>c \<in> set more. addr_char c))"
      if "v6_groups more (ip @ [a, b]) e = Some (s', ip', ell')" "v6_ok (ip @ [a, b]) e" for more a b e
      using less.hyps [OF _ that] short by simp
    from less.prems(1) short show ?thesis
    proof (cases rule: v6_groupsE)
      case finish
      then show ?thesis using group by (auto simp: addr_char_def)
    next
      case v4
      then show ?thesis
        using parseIPv4Fields_bytes [OF v4(1)] less.prems(2) by (fastforce simp: v6_ok_def)
    next
      case colon
      then show ?thesis using ih group by (fastforce simp: addr_char_def)
    next
      case ending
      then show ?thesis using group by (auto simp: addr_char_def)
    next
      case ellipsis
      then show ?thesis using ih group by (fastforce simp: addr_char_def)
    qed
  qed
qed

lemma expand_ellipsis_bytes:
  "expand_ellipsis ip ell = Some bs \<Longrightarrow> v6_ok ip ell \<Longrightarrow> length bs = 16 \<and> (\<forall>x \<in> set bs. x < 256)"
  by (auto simp: expand_ellipsis_def v6_ok_def ball_Un dest!: in_set_takeD in_set_dropD split: if_splits)

lemma parseIPv6_bytes:
  assumes "parseIPv6 s = Some bs"
  shows "length bs = 16 \<and> (\<forall>x \<in> set bs. x < 256) \<and> (\<forall>c \<in> set s. addr_char c)"
proof -
  obtain s' and ell :: "nat option" where start: "(if prefix ''::'' s then (drop 2 s, Some 0) else (s, None)) = (s', ell)"
    by fastforce
  then have ok: "v6_ok [] ell" and s: "(\<forall>c \<in> set s'. addr_char c) \<Longrightarrow> (\<forall>c \<in> set s. addr_char c)"
    by (auto simp: v6_ok_def prefix_def addr_char_def split: if_splits)
  consider "s' = []" "bs = replicate 16 0"
    | ip ell' where "v6_groups s' [] ell = Some ([], ip, ell')" "expand_ellipsis ip ell' = Some bs"
    using assms by (auto simp: parseIPv6_def start split: if_splits option.splits list.splits prod.splits)
  then show ?thesis
  proof cases
    case 1
    then show ?thesis using s by simp
  next
    case 2
    then show ?thesis using v6_groups_bytes [OF 2(1) ok] expand_ellipsis_bytes s by blast
  qed
qed

lemma ParseIP_bytes:
  assumes "ParseIP s = Some bs"
  shows "length bs = 16 \<and> (\<forall>x \<in> set bs. x < 256) \<and> (\<forall>c \<in> set s. addr_char c)"
  using assms parseIPv6_bytes parseIPv4Fields_bytes
  by (fastforce simp: ParseIP_def split: option.splits if_splits)

subsection \<open>The address that is stored\<close>

text \<open>It is empty or an address, and its characters cannot be mistaken for anything else.\<close>

theorem clientIP_valid:
  "clientIP a = [] \<or> ParseIP (clientIP a) \<noteq> None \<and> (\<forall>c \<in> set (clientIP a). addr_char c)"
  using ParseIP_bytes by (auto simp: clientIP_def Let_def)

text \<open>Without the port it is the address the connection came from, in its usual two forms.\<close>

lemma ParseIP_plain:
  assumes "ParseIP h \<noteq> None"
  shows "CHR ''['' \<notin> set h" and "CHR '']'' \<notin> set h"
proof -
  have "\<not> addr_char CHR ''[''" "\<not> addr_char CHR '']''"
    by (simp_all add: addr_char_def is_hex_def hex_val_def)
  with assms ParseIP_bytes show "CHR ''['' \<notin> set h" "CHR '']'' \<notin> set h" by blast+
qed

lemma clientIP_plain:
  assumes "ParseIP h \<noteq> None" and "CHR '':'' \<notin> set h" and "list_all is_digit port"
  shows "clientIP (h @ '':'' @ port) = h"
proof -
  have port: "CHR '':'' \<notin> set port" "CHR ''['' \<notin> set port" "CHR '']'' \<notin> set port"
    using assms(3) by (auto simp: list_all_iff is_digit_def)
  moreover have "\<not> prefix ''['' (h @ '':'' @ port)"
    using ParseIP_plain [OF assms(1)] by (cases h) auto
  moreover have "cut_last CHR '':'' (h @ '':'' @ port) = Some (h, port)"
    using cut_last_eq [OF port(1), of h] by simp
  ultimately have "SplitHostPort (h @ '':'' @ port) = Some (h, port)"
    using assms(2) ParseIP_plain [OF assms(1)] by (simp add: SplitHostPort_def)
  then show ?thesis using assms(1) by (auto simp: clientIP_def)
qed

lemma clientIP_brackets:
  assumes "ParseIP h \<noteq> None" and "list_all is_digit port"
  shows "clientIP (''['' @ h @ '']:'' @ port) = h"
proof -
  have port: "CHR '':'' \<notin> set port" "CHR ''['' \<notin> set port" "CHR '']'' \<notin> set port"
    using assms(2) by (auto simp: list_all_iff is_digit_def)
  have "cut_last CHR '':'' (''['' @ h @ '']:'' @ port) = Some (''['' @ h @ '']'', port)"
    using cut_last_eq [OF port(1), of "''['' @ h @ '']''"] by simp
  moreover have "cut_first CHR '']'' (''['' @ h @ '']:'' @ port) = Some (''['' @ h, '':'' @ port)"
    using cut_first_eq [of "CHR '']''" "''['' @ h"] ParseIP_plain [OF assms(1)] by simp
  ultimately have "SplitHostPort (''['' @ h @ '']:'' @ port) = Some (h, port)"
    using ParseIP_plain [OF assms(1)] port by (simp add: SplitHostPort_def)
  then show ?thesis using assms(1) by (auto simp: clientIP_def)
qed

text \<open>
  An address that comes without a port, as the router's \<open>RealIP\<close> takes it from a proxy's header, is kept: one of IPv6 has at least two
  colons, so that it is not taken for a host with a port.
\<close>

lemma v6_groups_colons:
  "v6_groups s ip ell = Some (s', ip', ell') \<Longrightarrow>
   length ip' \<le> length ip + 2 * count_list s CHR '':'' + 4 \<and> (ell' \<noteq> ell \<longrightarrow> 2 \<le> count_list s CHR '':'')"
proof (induction "16 - length ip" arbitrary: s ip ell rule: less_induct)
  case less
  show ?case
  proof (cases "length ip < 16")
    case False
    then show ?thesis using less.prems by (auto simp: v6_groups.simps [of s ip])
  next
    case short: True
    have ih: "length ip' \<le> length ip + 2 * count_list more CHR '':'' + 6 \<and> (ell' \<noteq> e \<longrightarrow> 2 \<le> count_list more CHR '':'')"
      if "v6_groups more (ip @ [a, b]) e = Some (s', ip', ell')" for more a b e
    proof -
      have "16 - length (ip @ [a, b]) < 16 - length ip" using short by simp
      from less.hyps [OF this that] show ?thesis by simp
    qed
    from less.prems short show ?thesis
    proof (cases rule: v6_groupsE)
      case finish
      then show ?thesis by simp
    next
      case v4
      then show ?thesis using parseIPv4Fields_bytes [OF v4(1)] by simp
    next
      case colon
      then show ?thesis using ih [OF colon(4)] by auto
    next
      case ending
      then show ?thesis by simp
    next
      case ellipsis
      then show ?thesis using ih [OF ellipsis(4)] by auto
    qed
  qed
qed

lemma ParseIP_colons:
  assumes "ParseIP h = Some bs" and "CHR '':'' \<in> set h"
  shows "2 \<le> count_list h CHR '':''"
proof (cases "find (\<lambda>c. c = CHR ''.'' \<or> c = CHR '':'' \<or> c = CHR ''%'') h = Some CHR ''.''")
  case True
  then have "parseIPv4Fields h \<noteq> None" using assms(1) by (auto simp: ParseIP_def)
  then show ?thesis using v4_fields_plain assms(2) by (auto simp: parseIPv4Fields_def)
next
  case False
  then have "parseIPv6 h = Some bs" using assms(1) by (auto simp: ParseIP_def split: option.splits if_splits)
  then consider "prefix ''::'' h"
    | ip ell where "v6_groups h [] None = Some ([], ip, ell)" "expand_ellipsis ip ell = Some bs"
    by (auto simp: parseIPv6_def Let_def split: if_splits option.splits list.splits prod.splits)
  then show ?thesis
  proof cases
    case 1
    then show ?thesis by (auto simp: prefix_def)
  next
    case 2
    then show ?thesis using v6_groups_colons [OF 2(1)]
      by (cases ell) (auto simp: expand_ellipsis_def split: if_splits)
  qed
qed

theorem clientIP_bare:
  assumes "ParseIP h \<noteq> None"
  shows "clientIP h = h"
proof -
  from assms obtain bs where bs: "ParseIP h = Some bs" by blast
  have "SplitHostPort h = None"
  proof (cases "cut_last CHR '':'' h")
    case None
    then show ?thesis unfolding SplitHostPort_def by (simp only: option.case)
  next
    case (Some x)
    obtain b p where x: "x = (b, p)" by fastforce
    with Some have h: "h = b @ CHR '':'' # p" "CHR '':'' \<notin> set p" using cut_last_Some by blast+
    with ParseIP_colons [OF bs] have "1 \<le> count_list b CHR '':''" by simp
    then have "CHR '':'' \<in> set b" by (metis count_list_0_iff not_one_le_zero)
    moreover have "\<not> prefix ''['' h" using ParseIP_plain [OF assms] by (auto simp: prefix_def)
    ultimately show ?thesis using Some x by (simp add: SplitHostPort_def)
  qed
  then show ?thesis using assms by (auto simp: clientIP_def)
qed

text \<open>The dotted form of four bytes is parsed to these bytes.\<close>

definition dotted :: "nat \<Rightarrow> nat \<Rightarrow> nat \<Rightarrow> nat \<Rightarrow> string" where
  "dotted a b c d = digits_of_nat a @ ''.'' @ digits_of_nat b @ ''.'' @ digits_of_nat c @ ''.'' @ digits_of_nat d"

lemma v4_octet:
  "n < 256 \<Longrightarrow> v4_fields 0 0 fs (digits_of_nat n @ s) = v4_fields n (length (digits_of_nat n)) fs s"
proof (induction n arbitrary: s rule: digits_of_nat.induct)
  case (1 n)
  show ?case
  proof (cases "n < 10")
    case True
    then show ?thesis by (simp add: digits_of_nat.simps [of n] digit_char)
  next
    case False
    then have "0 < n div 10" "10 * (n div 10) + n mod 10 = n" by auto
    then show ?thesis
      using "1.IH" [OF False] "1.prems" False by (simp add: digits_of_nat.simps [of n] digit_char)
  qed
qed

lemma v4_dot: "digs \<noteq> 0 \<Longrightarrow> s \<noteq> [] \<Longrightarrow> length fs < 3 \<Longrightarrow>
    v4_fields v digs fs (CHR ''.'' # s) = v4_fields 0 0 (fs @ [v]) s"
  by (simp add: is_digit_def)

lemma v4_octet_end: "n < 256 \<Longrightarrow> length fs = 3 \<Longrightarrow> v4_fields 0 0 fs (digits_of_nat n) = Some (fs @ [n])"
  using v4_octet [of n fs "[]"] by simp

lemma dotted_parsed:
  assumes "a < 256" "b < 256" "c < 256" "d < 256"
  shows "parseIPv4Fields (dotted a b c d) = Some [a, b, c, d]"
  using assms by (simp add: parseIPv4Fields_def dotted_def v4_octet v4_dot v4_octet_end del: v4_fields.simps)

lemma find_skip: "(\<And>x. x \<in> set xs \<Longrightarrow> \<not> P x) \<Longrightarrow> find P (xs @ ys) = find P ys"
  by (induction xs) auto

lemma ParseIP_dotted:
  assumes "a < 256" "b < 256" "c < 256" "d < 256"
  shows "ParseIP (dotted a b c d) = Some (replicate 10 0 @ [255, 255, a, b, c, d])"
proof -
  have "find (\<lambda>c. c = CHR ''.'' \<or> c = CHR '':'' \<or> c = CHR ''%'') (dotted a b c d) = Some CHR ''.''"
    unfolding dotted_def using digits_of_nat_digits [of a]
    by (subst find_skip) (auto simp: list_all_iff is_digit_def)
  then show ?thesis by (simp add: ParseIP_def dotted_parsed [OF assms])
qed

lemma dotted_no_colon: "CHR '':'' \<notin> set (dotted a b c d)"
proof -
  have "CHR '':'' \<notin> set (digits_of_nat n)" for n
    using digits_of_nat_digits [of n] by (auto simp: list_all_iff is_digit_def)
  then show ?thesis by (simp add: dotted_def)
qed

theorem clientIP_dotted:
  assumes "a < 256" "b < 256" "c < 256" "d < 256" and "list_all is_digit port"
  shows "clientIP (dotted a b c d @ '':'' @ port) = dotted a b c d"
  using assms by (intro clientIP_plain) (simp_all add: ParseIP_dotted dotted_no_colon)

text \<open>IPv6, and what is no address.\<close>

lemma clientIP_examples:
  "clientIP ''1.2.3.4:5000'' = ''1.2.3.4''"
  "clientIP ''[2001:db8::8:0:7]:443'' = ''2001:db8::8:0:7''"
  "clientIP ''[::ffff:1.2.3.4]:1'' = ''::ffff:1.2.3.4''"
  "clientIP ''[fe80::1%eth0]:80'' = []"
  "clientIP ''010.1.1.1:80'' = []"
  "clientIP ''localhost:80'' = []"
  by (simp_all add: clientIP_def SplitHostPort_def ParseIP_def parseIPv4Fields_def parseIPv6_def
      v6_groups.simps expand_ellipsis_def hex_digits_def is_hex_def hex_val_def is_digit_def digit_val_def)

end
