(* ===== verification/Submit.thy ===== *)
theory Submit
  imports Points Gating Instances Scoring Schedule Client_Addr
begin

text \<open>
  \<open>handleSubmit\<close> of \<open>internal/httpserver/submit.go\<close>, the path on which points are won. The theorem
  says what must hold for a submission to score, and that nothing else changes the scores.
\<close>

subsection \<open>The handler\<close>

text \<open>The limiter's \<open>Allow\<close>, which reads the clock itself.\<close>

definition rate_allow :: "string \<Rightarrow> (world, bool) action" where
  "rate_allow key = do {
     t \<leftarrow> time_now;
     State (\<lambda>w. case allow (key, t) (limits w) of (g, l) \<Rightarrow> (g, w\<lparr>limits := l\<rparr>))
   }"

text \<open>The gate: the schedule, then the unlock rules; a problem if one of them is closed.\<close>

definition team_state_of :: "gate_state \<Rightarrow> instant \<Rightarrow> team_state" where
  "team_state_of gs now =
     \<lparr>ts_solved = gs_solved gs, ts_points = gs_points gs, ts_solved_total = int (length (gs_solved gs)),
      ts_block_solved = gs_block_solved gs, ts_block_total = gs_block_total gs, ts_now = now\<rparr>"

definition block_of :: "challenge \<Rightarrow> (world, block option) action" where
  "block_of c =
     (case c_block c of
        None \<Rightarrow> ret None
      | Some k \<Rightarrow> do {
          r \<leftarrow> GetBlock (uuid_text k);
          ret (case r of Inl _ \<Rightarrow> None | Inr b \<Rightarrow> Some b)
        })"

text \<open>What a challenge inherits from its block: the schedule if it has none, and an unlock rule.\<close>

definition inherited_schedule :: "challenge \<Rightarrow> block option \<Rightarrow> json option" where
  "inherited_schedule c b =
     (case b of
        None \<Rightarrow> c_schedule c
      | Some b \<Rightarrow> if c_schedule c = None then k_schedule b else c_schedule c)"

definition block_unlock :: "block option \<Rightarrow> json option" where
  "block_unlock b = (case b of None \<Rightarrow> None | Some b \<Rightarrow> k_unlock b)"

definition lock_gate ::
  "string \<Rightarrow> string \<Rightarrow> challenge \<Rightarrow> block option \<Rightarrow> (world, string option) action"
where
  "lock_gate eventID teamID c b = do {
     g \<leftarrow> TeamGateState eventID teamID;
     (case g of
        Inl _ \<Rightarrow> ret None
      | Inr gs \<Rightarrow> do {
          now \<leftarrow> time_now;
          (let ts = team_state_of gs now
           in if \<not> unlocked (c_unlock c) ts \<or> \<not> unlocked (block_unlock b) ts
              then ret (Some ''challenge is locked'') else ret None)
        })
   }"

definition submit_gate ::
  "platform \<Rightarrow> string \<Rightarrow> string \<Rightarrow> challenge \<Rightarrow> (world, string option) action"
where
  "submit_gate P eventID teamID c = do {
     b \<leftarrow> block_of c;
     now \<leftarrow> time_now;
     (if \<not> fst (open_at P (inherited_schedule c b) now) then ret (Some ''challenge is not open'')
      else lock_gate eventID teamID c b)
   }"

text \<open>Whether the flag is right: one of the challenge's, or else the team's own.\<close>

definition specs_of :: "flag list \<Rightarrow> flag_spec list" where
  "specs_of fs = map (\<lambda>f. \<lparr>fs_hash = fl_hash f, fs_case_sensitive = fl_case f\<rparr>) fs"

definition check_team_flag ::
  "platform \<Rightarrow> server \<Rightarrow> string \<Rightarrow> string \<Rightarrow> string \<Rightarrow> string \<Rightarrow> (world, bool) action"
where
  "check_team_flag P srv eventID teamID ecID sub = do {
     r \<leftarrow> ChallengeInstanceSpec ecID;
     ret (case r of
            Inl _ \<Rightarrow> False
          | Inr raw \<Rightarrow>
              (case parseInstanceSpec raw of
                 None \<Rightarrow> False
               | Some sp \<Rightarrow> usesTeamFlag sp \<and>
                   trim_space sub = team_flag P (sv_flag_secret srv) eventID teamID ecID))
   }"

datatype verdict =
    Incorrect
  | Correct (already: bool) (first: bool) (awarded: int)

definition flag_field :: "(string \<times> string setter) list" where
  "flag_field = [(''flag'', set_string (\<lambda>x _. x))]"

definition record_verdict ::
  "platform \<Rightarrow> server \<Rightarrow> user \<Rightarrow> event \<Rightarrow> string \<Rightarrow> string \<Rightarrow> string \<Rightarrow> challenge \<Rightarrow> string \<Rightarrow> string \<Rightarrow>
   bool \<Rightarrow> (world, verdict reply) action"
where
  "record_verdict P srv u e eventID ecID teamID c sub ip correct =
     (let sub_hash = flag_hash P sub True; userID = uuid_text (u_id u)
      in if \<not> correct then do {
           r \<leftarrow> RecordWrong eventID ecID teamID userID sub_hash ip;
           (case r of
              Inl _ \<Rightarrow> ret (Problem 500 ''record failed'')
            | Inr _ \<Rightarrow> ret (Reply 200 Incorrect))
         }
         else do {
           r \<leftarrow> RecordSolve e ecID teamID userID sub_hash ip (points (Some (c_scoring c)));
           (case r of
              Inl _ \<Rightarrow> ret (Problem 500 ''record solve failed'')
            | Inr res \<Rightarrow> do {
                (if \<not> already_solved res then do {
                   scoreChanged srv eventID;
                   publish srv eventID ''challenges.changed'' JNull;
                   deliverWebhook P ''solve.created''
                     (JObj [(''ec_id'', JStr ecID), (''event_id'', JStr eventID), (''team_id'', JStr teamID)])
                 } else ret ());
                ret (Reply 200 (Correct (already_solved res) (first_blood res) (res_points res)))
              })
         })"

definition submit_challenge ::
  "platform \<Rightarrow> server \<Rightarrow> user \<Rightarrow> event \<Rightarrow> string \<Rightarrow> string \<Rightarrow> string \<Rightarrow> challenge \<Rightarrow> json option \<Rightarrow> string \<Rightarrow>
   (world, verdict reply) action"
where
  "submit_challenge P srv u e eventID ecID teamID c body ip = do {
     gate \<leftarrow> submit_gate P eventID teamID c;
     (case gate of
        Some detail \<Rightarrow> ret (Problem 403 detail)
      | None \<Rightarrow>
          (case decodeJSON flag_field [] body of
             None \<Rightarrow> ret (Problem 400 ''bad request'')
           | Some sub \<Rightarrow>
               if sub = [] then ret (Problem 422 ''flag is required'')
               else do {
                 fs \<leftarrow> ChallengeFlags ecID;
                 (case fs of
                    Inl _ \<Rightarrow> ret (Problem 500 ''flag lookup failed'')
                  | Inr fs \<Rightarrow> do {
                      correct \<leftarrow> (if verify P sub (specs_of fs) then ret True
                                  else check_team_flag P srv eventID teamID ecID sub);
                      record_verdict P srv u e eventID ecID teamID c sub ip correct
                    })
               }))
   }"

definition handleSubmit ::
  "platform \<Rightarrow> server \<Rightarrow> user \<Rightarrow> string \<Rightarrow> string \<Rightarrow> json option \<Rightarrow> string \<Rightarrow> (world, verdict reply) action"
where
  "handleSubmit P srv u eventID ecID body addr = do {
     ev \<leftarrow> GetEvent eventID;
     (case ev of
        Inl NotFound \<Rightarrow> ret (Problem 404 ''event not found'')
      | Inl _ \<Rightarrow> ret (Problem 500 ''event lookup failed'')
      | Inr e \<Rightarrow> do {
          now \<leftarrow> time_now;
          (if (case e_starts e of None \<Rightarrow> False | Some t \<Rightarrow> time_before now t)
           then ret (Problem 403 ''event has not started'')
           else if (case e_ends e of None \<Rightarrow> False | Some t \<Rightarrow> time_after now t)
           then ret (Problem 403 ''event has ended'')
           else do {
             t \<leftarrow> PlayerTeamForEvent eventID (uuid_text (u_id u));
             (case t of
                Inl NotFound \<Rightarrow> ret (Problem 403 ''your team is not registered for this event'')
              | Inl _ \<Rightarrow> ret (Problem 500 ''membership lookup failed'')
              | Inr teamID \<Rightarrow> do {
                  ok \<leftarrow> rate_allow (''submit:'' @ eventID @ '':'' @ teamID);
                  (if \<not> ok then ret (Problem 429 ''submission rate limit exceeded'')
                   else do {
                     c \<leftarrow> GetChallenge ecID;
                     (case c of
                        Inl NotFound \<Rightarrow> ret (Problem 404 ''challenge not found'')
                      | Inl _ \<Rightarrow> ret (Problem 500 ''challenge lookup failed'')
                      | Inr c \<Rightarrow>
                          if uuid_text (c_event c) \<noteq> eventID \<or> c_state c \<noteq> ''published''
                          then ret (Problem 404 ''challenge not found'')
                          else submit_challenge P srv u e eventID ecID teamID c body (clientIP addr))
                   })
                })
           })
        })
   }"

subsection \<open>When a submission may score\<close>

definition block_in :: "database \<Rightarrow> challenge \<Rightarrow> block option" where
  "block_in d c = (case c_block c of None \<Rightarrow> None | Some k \<Rightarrow> find (\<lambda>b. k_id b = k) (blocks d))"

text \<open>
  The gate was open: at some reading of the clock the schedule was, and the unlock rules held. What
  a fault keeps the handler from reading it treats as not there: without the block its schedule does
  not count, and without the team's state the unlock rules do not.
\<close>

definition locks_open :: "string \<Rightarrow> string \<Rightarrow> challenge \<Rightarrow> block option \<Rightarrow> world \<Rightarrow> bool" where
  "locks_open eventID teamID c b w \<longleftrightarrow>
     (\<forall>ev tm. uuid_in eventID = Some ev \<longrightarrow> uuid_in teamID = Some tm \<longrightarrow>
        (\<exists>now \<in> range (clock w). let ts = team_state_of (gate_of ev tm (db w)) now
           in unlocked (c_unlock c) ts \<and> unlocked (block_unlock b) ts))"

definition gate_open :: "platform \<Rightarrow> string \<Rightarrow> string \<Rightarrow> challenge \<Rightarrow> world \<Rightarrow> bool" where
  "gate_open P eventID teamID c w \<longleftrightarrow>
     (\<exists>b. (b = block_in (db w) c \<or> \<not> reliable w \<and> b = None) \<and>
        (reliable w \<longrightarrow> locks_open eventID teamID c b w) \<and>
        (\<exists>now \<in> range (clock w). fst (open_at P (inherited_schedule c b) now)))"

definition in_window :: "event \<Rightarrow> instant \<Rightarrow> bool" where
  "in_window e now \<longleftrightarrow> (\<forall>t. e_starts e = Some t \<longrightarrow> t \<le> now) \<and> (\<forall>t. e_ends e = Some t \<longrightarrow> now \<le> t)"

definition right_flag ::
  "platform \<Rightarrow> server \<Rightarrow> string \<Rightarrow> string \<Rightarrow> string \<Rightarrow> challenge \<Rightarrow> database \<Rightarrow> string \<Rightarrow> bool"
where
  "right_flag P srv eventID teamID ecID c d sub \<longleftrightarrow>
     verify P sub (specs_of (filter (\<lambda>f. fl_ec f = c_id c) (flags d))) \<or>
     (\<exists>sp. parseInstanceSpec (c_instance c) = Some sp \<and> usesTeamFlag sp \<and>
        trim_space sub = team_flag P (sv_flag_secret srv) eventID teamID ecID)"

definition admissible ::
  "platform \<Rightarrow> server \<Rightarrow> user \<Rightarrow> string \<Rightarrow> string \<Rightarrow> json option \<Rightarrow> world \<Rightarrow>
   event \<Rightarrow> uuid \<Rightarrow> challenge \<Rightarrow> string \<Rightarrow> bool"
where
  "admissible P srv u eventID ecID body w e tm c sub \<longleftrightarrow>
     e \<in> set (events (db w)) \<and> uuid_in eventID = Some (e_id e) \<and>
     (\<exists>now \<in> range (clock w). in_window e now) \<and>
     player_team (e_id e) (u_id u) (db w) = Some tm \<and>
     c \<in> set (challenges (db w)) \<and> uuid_in ecID = Some (c_id c) \<and> c_event c = e_id e \<and>
     c_state c = ''published'' \<and> gate_open P eventID (uuid_text tm) c w \<and>
     decodeJSON flag_field [] body = Some sub \<and> sub \<noteq> [] \<and>
     right_flag P srv eventID (uuid_text tm) ecID c (db w) sub"

text \<open>A wrong submission is kept with the hash of what was typed, and nothing else changes.\<close>

definition wrong_recorded ::
  "platform \<Rightarrow> user \<Rightarrow> string \<Rightarrow> string \<Rightarrow> json option \<Rightarrow> database \<Rightarrow> database \<Rightarrow> bool"
where
  "wrong_recorded P u eventID ecID body d d' \<longleftrightarrow>
     (\<exists>s sub. \<not> sb_correct s \<and> uuid_in eventID = Some (sb_event s) \<and> uuid_in ecID = Some (sb_ec s) \<and>
        sb_user s = u_id u \<and> decodeJSON flag_field [] body = Some sub \<and>
        sb_hash s = flag_hash P sub True \<and> d' = d\<lparr>submissions := submissions d @ [s]\<rparr>)"

definition submit_post ::
  "platform \<Rightarrow> server \<Rightarrow> user \<Rightarrow> string \<Rightarrow> string \<Rightarrow> json option \<Rightarrow> string \<Rightarrow> world \<Rightarrow>
   verdict reply \<Rightarrow> database \<Rightarrow> bool"
where
  "submit_post P srv u eventID ecID body ip w r d' \<longleftrightarrow>
     (let scored = (\<lambda>res. \<exists>e tm c sub. admissible P srv u eventID ecID body w e tm c sub \<and>
            solve_outcome e ecID (uuid_text tm) (uuid_text (u_id u)) (flag_hash P sub True) ip
              (points (Some (c_scoring c))) (db w) res d')
      in case r of
           Problem code detail \<Rightarrow>
             d' = db w \<or> code = 500 \<and> (wrong_recorded P u eventID ecID body (db w) d' \<or> (\<exists>err. scored (Inl err)))
         | Reply code v \<Rightarrow> code = 200 \<and>
             (case v of
                Incorrect \<Rightarrow> wrong_recorded P u eventID ecID body (db w) d'
              | Correct a f n \<Rightarrow> scored (Inr \<lparr>already_solved = a, first_blood = f, res_points = n\<rparr>)))"

subsection \<open>The handler keeps to it\<close>

lemma wp_block_of:
  assumes "\<And>b w'. undisturbed w w' \<Longrightarrow> b = block_in (db w) c \<or> \<not> reliable w \<and> b = None \<Longrightarrow> Q b w'"
  shows "wp (block_of c) Q w"
proof (cases "c_block c")
  case None
  then show ?thesis using assms [of w None] by (simp add: block_of_def block_in_def)
next
  case (Some k)
  show ?thesis
    unfolding block_of_def Some option.case wp_bind
    apply (rule wp_GetBlock)
    apply (rename_tac r w')
    apply (simp, rule assms, assumption)
    apply (case_tac "find (\<lambda>b. k_id b = k) (blocks (db w))")
     apply (auto simp: Some block_in_def uuid_in_text split: sum.splits)
    done
qed

lemma locks_open_undisturbed:
  assumes "undisturbed w w'" and "locks_open eventID teamID c b w'"
  shows "locks_open eventID teamID c b w"
proof -
  have "db w' = db w" and "range (clock w') \<subseteq> range (clock w)"
    using assms(1) by (simp_all add: undisturbed_def)
  then show ?thesis using assms(2) unfolding locks_open_def by (metis subsetD)
qed

lemma wp_lock_gate:
  assumes "\<And>r w'. undisturbed w w' \<Longrightarrow> (r = None \<Longrightarrow> reliable w \<Longrightarrow> locks_open eventID teamID c b w) \<Longrightarrow> Q r w'"
  shows "wp (lock_gate eventID teamID c b) Q w"
  unfolding lock_gate_def wp_bind
  apply (rule wp_TeamGateState)
  subgoal premises p for g w1
  proof (cases g)
    case (Inl e)
    then show ?thesis using p(3) by (auto intro!: assms p(1) simp: locks_open_def)
  next
    case (Inr gs)
    with p(2) obtain ev tm where ids: "uuid_in eventID = Some ev" "uuid_in teamID = Some tm"
      and gs: "gs = gate_of ev tm (db w)" by blast
    have opened: "locks_open eventID teamID c b w"
      if "now \<in> range (clock w1)" and "unlocked (c_unlock c) (team_state_of gs now)"
        and "unlocked (block_unlock b) (team_state_of gs now)" for now
      unfolding locks_open_def Let_def
      using that undisturbedD(3) [OF p(1) that(1)] by (metis ids gs option.inject)
    show ?thesis
      unfolding Inr sum.case wp_bind
      by (rule wp_time_now_undisturbed)
         (auto simp: Let_def intro!: assms undisturbed_trans [OF p(1)] intro: opened)
  qed
  done

lemma wp_submit_gate:
  assumes "\<And>r w'. undisturbed w w' \<Longrightarrow> (r = None \<Longrightarrow> gate_open P eventID teamID c w) \<Longrightarrow> Q r w'"
  shows "wp (submit_gate P eventID teamID c) Q w"
  unfolding submit_gate_def wp_bind
  apply (rule wp_block_of)
  apply (rule wp_time_now_undisturbed)
  subgoal premises p for b w1 now w2
  proof -
    have u: "undisturbed w w2" using p(1,3) by (rule undisturbed_trans)
    have now: "now \<in> range (clock w)" using p(1,4) by (rule undisturbedD(3))
    show ?thesis
    proof (cases "fst (open_at P (inherited_schedule c b) now)")
      case False
      then show ?thesis by (auto intro!: assms u)
    next
      case True
      then have "wp (lock_gate eventID teamID c b) Q w2"
        using now p(2) undisturbedD(2) [OF u]
        by (intro wp_lock_gate assms undisturbed_trans [OF u])
           (auto simp: gate_open_def dest: locks_open_undisturbed [OF u])
      with True show ?thesis by simp
    qed
  qed
  done

lemma gate_open_undisturbed:
  assumes "undisturbed w w'" and "gate_open P eventID teamID c w'"
  shows "gate_open P eventID teamID c w"
proof -
  from assms(2) obtain b now
    where b: "b = block_in (db w') c \<or> \<not> reliable w' \<and> b = None"
      and locks: "reliable w' \<longrightarrow> locks_open eventID teamID c b w'"
      and now: "now \<in> range (clock w')" "fst (open_at P (inherited_schedule c b) now)"
    unfolding gate_open_def by blast
  have "b = block_in (db w) c \<or> \<not> reliable w \<and> b = None"
    using b undisturbedD(1,2) [OF assms(1)] by auto
  moreover have "reliable w \<longrightarrow> locks_open eventID teamID c b w"
    using locks undisturbedD(2) [OF assms(1)] locks_open_undisturbed [OF assms(1)] by blast
  moreover have "now \<in> range (clock w)" using now(1) by (rule undisturbedD(3) [OF assms(1)])
  ultimately show ?thesis unfolding gate_open_def using now(2) by blast
qed

lemma gate_open_limits [simp]:
  "gate_open P eventID teamID c (w\<lparr>limits := l\<rparr>) = gate_open P eventID teamID c w"
  by (simp add: gate_open_def locks_open_def)

lemma undisturbed_limits:
  "undisturbed w w' \<Longrightarrow> undisturbed (w\<lparr>limits := l\<rparr>) (w'\<lparr>limits := l\<rparr>)"
  by (simp add: undisturbed_def)

lemma wp_rate_allow:
  assumes "\<And>r l. Q r (w\<lparr>clock := pop (clock w), limits := l\<rparr>)"
  shows "wp (rate_allow key) Q w"
  using assms by (simp add: rate_allow_def wp_State split: prod.split)

lemma wp_check_team_flag:
  assumes "\<And>r w'. undisturbed w w' \<Longrightarrow>
      (r \<Longrightarrow> \<exists>ec c sp. uuid_in ecID = Some ec \<and> find (\<lambda>c. c_id c = ec) (challenges (db w)) = Some c \<and>
        parseInstanceSpec (c_instance c) = Some sp \<and> usesTeamFlag sp \<and>
        trim_space sub = team_flag P (sv_flag_secret srv) eventID teamID ecID) \<Longrightarrow> Q r w'"
  shows "wp (check_team_flag P srv eventID teamID ecID sub) Q w"
  unfolding check_team_flag_def ChallengeInstanceSpec_def wp_bind
  by (rule wp_read; (intro quiet_intros)?)
     (auto simp: cast_uuid_def row_or_not_found_def intro!: assms split: option.splits sum.splits)

lemma wrong_recordedI:
  assumes "insert_submission eventID ecID teamID (uuid_text (u_id u)) (flag_hash P sub True) False ip now v d = Inr (a, d')"
    and "decodeJSON flag_field [] body = Some sub"
  shows "wrong_recorded P u eventID ecID body d d'"
proof -
  from assms(1) obtain ev ec tm where "uuid_in eventID = Some ev" "uuid_in ecID = Some ec"
    and "d' = d\<lparr>submissions := submissions d @ [\<lparr>sb_event = ev, sb_ec = ec, sb_team = tm,
      sb_user = u_id u, sb_hash = flag_hash P sub True, sb_correct = False, sb_at = now, sb_ip = ip\<rparr>]\<rparr>"
    by (auto simp: insert_submission_Inr uuid_in_text)
  with assms(2) show ?thesis
    unfolding wrong_recorded_def
    by (intro exI [of _ "\<lparr>sb_event = ev, sb_ec = ec, sb_team = tm,
      sb_user = u_id u, sb_hash = flag_hash P sub True, sb_correct = False, sb_at = now, sb_ip = ip\<rparr>"]) simp
qed

lemma wp_record_verdict:
  assumes "books (db w)" and "db w = db w0" and "decodeJSON flag_field [] body = Some sub"
    and "correct \<Longrightarrow> admissible P srv u eventID ecID body w0 e tm c sub"
  shows "wp (record_verdict P srv u e eventID ecID (uuid_text tm) c sub ip correct)
    (\<lambda>r w'. submit_post P srv u eventID ecID body ip w0 r (db w')) w"
proof (cases correct)
  case False
  then show ?thesis
    unfolding record_verdict_def Let_def RecordWrong_def
    using assms(2,3)
    by (auto intro!: wp_db_call simp: submit_post_def failed_def dest: wrong_recordedI)
next
  case True
  have scored: "submit_post P srv u eventID ecID body ip w0
      (Reply 200 (Correct (already_solved res) (first_blood res) (res_points res))) d'"
    if "solve_outcome e ecID (uuid_text tm) (uuid_text (u_id u)) (flag_hash P sub True) ip
          (points (Some (c_scoring c))) (db w) (Inr res) d'" for res d'
    using that assms(2) assms(4) [OF True] unfolding submit_post_def by (cases res) auto
  have not_scored: "submit_post P srv u eventID ecID body ip w0 (Problem 500 ''record solve failed'') d'"
    if "solve_outcome e ecID (uuid_text tm) (uuid_text (u_id u)) (flag_hash P sub True) ip
          (points (Some (c_scoring c))) (db w) (Inl err) d'" for err d'
    using that assms(2) assms(4) [OF True] unfolding submit_post_def by auto
  show ?thesis
    unfolding record_verdict_def Let_def
    apply (simp add: True)
    apply (rule wp_mono [OF RecordSolve_wp [OF assms(1)]])
    subgoal premises p for r w'
    proof (cases r)
      case (Inl err)
      then show ?thesis using p by (auto intro: not_scored)
    next
      case (Inr res)
      have "submit_post P srv u eventID ecID body ip w0
        (Reply 200 (Correct (already_solved res) (first_blood res) (res_points res))) (db w')"
        using p Inr by (auto intro: scored)
      then show ?thesis
        by (auto simp: Inr intro!: quiet_wp [of "scoreChanged srv eventID"]
          quiet_wp [of "publish srv eventID ''challenges.changed'' JNull"] quiet_wp [OF quiet_deliverWebhook])
    qed
    done
qed

lemma wp_check_flags:
  assumes c: "find (\<lambda>c. c_id c = ec) (challenges (db w)) = Some c" "uuid_in ecID = Some ec"
    and judged: "\<And>x w'. undisturbed w w' \<Longrightarrow>
      (x \<Longrightarrow> right_flag P srv eventID teamID ecID c (db w) sub) \<Longrightarrow> wp (k x) Q w'"
    and fault: "\<And>w'. undisturbed w w' \<Longrightarrow> Q (Problem 500 ''flag lookup failed'') w'"
  shows "wp (ChallengeFlags ecID \<bind> (\<lambda>fs. case fs of
             Inl _ \<Rightarrow> ret (Problem 500 ''flag lookup failed'')
           | Inr fs \<Rightarrow> (if verify P sub (specs_of fs) then ret True
                else check_team_flag P srv eventID teamID ecID sub) \<bind> k)) Q w"
  unfolding wp_bind
proof (rule wp_ChallengeFlags)
  fix r w'
  assume u: "undisturbed w w'" and found: "\<And>fs. r = Inr fs \<Longrightarrow>
    \<exists>ec. uuid_in ecID = Some ec \<and> fs = filter (\<lambda>f. fl_ec f = ec) (flags (db w))"
  have same: "db w' = db w" using u by (rule undisturbedD)
  show "wp (case r of Inl _ \<Rightarrow> ret (Problem 500 ''flag lookup failed'')
      | Inr fs \<Rightarrow> (if verify P sub (specs_of fs) then ret True
           else check_team_flag P srv eventID teamID ecID sub) \<bind> k) Q w'"
  proof (cases r)
    case (Inl x)
    then show ?thesis using fault [OF u] by simp
  next
    case (Inr fs)
    with found [OF Inr] c find_SomeD [OF c(1)]
    have fs: "fs = filter (\<lambda>f. fl_ec f = c_id c) (flags (db w))" by simp
    show ?thesis
    proof (cases "verify P sub (specs_of fs)")
      case True
      then show ?thesis using judged [OF u, of True] fs by (simp add: Inr right_flag_def)
    next
      case False
      have "wp (check_team_flag P srv eventID teamID ecID sub) (\<lambda>x. wp (k x) Q) w'"
        by (rule wp_check_team_flag, rule judged, erule undisturbed_trans [OF u])
           (use c same in \<open>auto simp: right_flag_def\<close>)
      with False show ?thesis by (simp add: Inr)
    qed
  qed
qed

lemma wp_submit_challenge:
  assumes b: "books (db w)" and u: "undisturbed (w0\<lparr>limits := l\<rparr>) w"
    and e: "e \<in> set (events (db w0))" "uuid_in eventID = Some (e_id e)"
      "\<exists>now \<in> range (clock w0). in_window e now" "player_team (e_id e) (u_id u) (db w0) = Some tm"
    and c: "find (\<lambda>c. c_id c = ec) (challenges (db w0)) = Some c" "uuid_in ecID = Some ec"
      "c_event c = e_id e" "c_state c = ''published''"
  shows "wp (submit_challenge P srv u e eventID ecID (uuid_text tm) c body ip)
    (\<lambda>r w'. submit_post P srv u eventID ecID body ip w0 r (db w')) w"
  unfolding submit_challenge_def wp_bind
proof (rule wp_submit_gate)
  let ?post = "\<lambda>r w'. submit_post P srv u eventID ecID body ip w0 r (db w')"
  fix r :: "string option" and w1
  assume u1: "undisturbed w w1" and g: "r = None \<Longrightarrow> gate_open P eventID (uuid_text tm) c w"
  have rejected: "submit_post P srv u eventID ecID body ip w0 (Problem code detail) (db w')"
    if "undisturbed w1 w'" for code detail w'
    using undisturbed_trans [OF u undisturbed_trans [OF u1 that]]
    by (simp add: submit_post_def undisturbed_def)
  have same: "db w1 = db w0" using undisturbed_trans [OF u u1] by (simp add: undisturbed_def)
  have c': "c \<in> set (challenges (db w0))" "c_id c = ec" using find_SomeD [OF c(1)] by simp_all
  have checked: "wp (ChallengeFlags ecID \<bind> (\<lambda>fs. case fs of
           Inl _ \<Rightarrow> ret (Problem 500 ''flag lookup failed'')
         | Inr fs \<Rightarrow> (if verify P sub (specs_of fs) then ret True
              else check_team_flag P srv eventID (uuid_text tm) ecID sub) \<bind>
              record_verdict P srv u e eventID ecID (uuid_text tm) c sub ip)) ?post w1"
    if r: "r = None" and sub: "decodeJSON flag_field [] body = Some sub" "sub \<noteq> []" for sub
  proof (rule wp_check_flags)
    fix x w3
    assume u3: "undisturbed w1 w3"
      and x: "x \<Longrightarrow> right_flag P srv eventID (uuid_text tm) ecID c (db w1) sub"
    have "admissible P srv u eventID ecID body w0 e tm c sub" if x
      using e c(2-4) c' sub x [OF that] same gate_open_undisturbed [OF u g [OF r]]
      by (simp add: admissible_def)
    moreover have "db w3 = db w0" and "books (db w3)"
      using undisturbedD(1) [OF u3] undisturbedD(1) [OF u1] same b by simp_all
    ultimately show "wp (record_verdict P srv u e eventID ecID (uuid_text tm) c sub ip x) ?post w3"
      using sub by (intro wp_record_verdict) auto
  qed (use c same in \<open>auto intro: rejected\<close>)
  show "wp (case r of Some detail \<Rightarrow> ret (Problem 403 detail)
     | None \<Rightarrow> (case decodeJSON flag_field [] body of
         None \<Rightarrow> ret (Problem 400 ''bad request'')
       | Some sub \<Rightarrow> if sub = [] then ret (Problem 422 ''flag is required'')
           else ChallengeFlags ecID \<bind> (\<lambda>fs. case fs of
             Inl _ \<Rightarrow> ret (Problem 500 ''flag lookup failed'')
           | Inr fs \<Rightarrow> (if verify P sub (specs_of fs) then ret True
              else check_team_flag P srv eventID (uuid_text tm) ecID sub) \<bind>
              record_verdict P srv u e eventID ecID (uuid_text tm) c sub ip))) ?post w1"
  proof (cases r)
    case None
    then show ?thesis
      using rejected [OF undisturbed_refl] checked [OF None]
      by (cases "decodeJSON flag_field [] body") simp_all
  qed (simp add: rejected)
qed

lemma in_window_iff:
  "in_window e now \<longleftrightarrow> \<not> (case e_starts e of None \<Rightarrow> False | Some t \<Rightarrow> time_before now t) \<and>
     \<not> (case e_ends e of None \<Rightarrow> False | Some t \<Rightarrow> time_after now t)"
  by (auto simp: in_window_def time_before_def time_after_def split: option.split)

lemma rejected_undisturbed:
  "undisturbed (w\<lparr>limits := l\<rparr>) w' \<Longrightarrow> submit_post P srv u eventID ecID body ip w (Problem code detail) (db w')"
  by (simp add: submit_post_def undisturbed_def)

lemma wp_after_limit:
  assumes b: "books (db w)" and u: "undisturbed (w0\<lparr>limits := l\<rparr>) w"
    and e: "e \<in> set (events (db w0))" "uuid_in eventID = Some (e_id e)"
      "\<exists>now \<in> range (clock w0). in_window e now" "player_team (e_id e) (u_id u) (db w0) = Some tm"
  shows "wp (GetChallenge ecID \<bind> (\<lambda>c. case c of
        Inl NotFound \<Rightarrow> ret (Problem 404 ''challenge not found'')
      | Inl _ \<Rightarrow> ret (Problem 500 ''challenge lookup failed'')
      | Inr c \<Rightarrow> if uuid_text (c_event c) \<noteq> eventID \<or> c_state c \<noteq> ''published''
          then ret (Problem 404 ''challenge not found'')
          else submit_challenge P srv u e eventID ecID (uuid_text tm) c body ip))
    (\<lambda>r w'. submit_post P srv u eventID ecID body ip w0 r (db w')) w"
  unfolding wp_bind
proof (rule wp_GetChallenge)
  fix r :: "store_error + challenge" and w1
  assume u1: "undisturbed w w1"
    and found: "\<And>c. r = Inr c \<Longrightarrow> \<exists>ec. uuid_in ecID = Some ec \<and> find (\<lambda>c. c_id c = ec) (challenges (db w)) = Some c"
  have u01: "undisturbed (w0\<lparr>limits := l\<rparr>) w1" using u u1 by (rule undisturbed_trans)
  show "wp (case r of
        Inl NotFound \<Rightarrow> ret (Problem 404 ''challenge not found'')
      | Inl _ \<Rightarrow> ret (Problem 500 ''challenge lookup failed'')
      | Inr c \<Rightarrow> if uuid_text (c_event c) \<noteq> eventID \<or> c_state c \<noteq> ''published''
          then ret (Problem 404 ''challenge not found'')
          else submit_challenge P srv u e eventID ecID (uuid_text tm) c body ip)
    (\<lambda>r w'. submit_post P srv u eventID ecID body ip w0 r (db w')) w1"
  proof (cases r)
    case (Inl x)
    then show ?thesis by (simp add: rejected_undisturbed [OF u01] split: store_error.split)
  next
    case (Inr c)
    with found obtain ec where c: "uuid_in ecID = Some ec" "find (\<lambda>c. c_id c = ec) (challenges (db w0)) = Some c"
      using undisturbedD(1) [OF u] by auto
    have "wp (submit_challenge P srv u e eventID ecID (uuid_text tm) c body ip)
       (\<lambda>r w'. submit_post P srv u eventID ecID body ip w0 r (db w')) w1"
      if "uuid_text (c_event c) = eventID" "c_state c = ''published''"
      using b c e that undisturbedD(1) [OF u1] by (intro wp_submit_challenge [OF _ u01]) (auto simp: uuid_in_text)
    then show ?thesis by (simp add: Inr rejected_undisturbed [OF u01])
  qed
qed

lemma handleSubmit_wp:
  assumes b: "books (db w)"
  shows "wp (handleSubmit P srv u eventID ecID body addr)
    (\<lambda>r w'. submit_post P srv u eventID ecID body (clientIP addr) w r (db w')) w"
proof -
  let ?post = "\<lambda>r w'. submit_post P srv u eventID ecID body (clientIP addr) w r (db w')"
  have rejected: "submit_post P srv u eventID ecID body (clientIP addr) w (Problem code detail) (db w')"
    if "undisturbed w w'" for code detail w'
    using that by (simp add: submit_post_def undisturbed_def)
  show ?thesis
    unfolding handleSubmit_def wp_bind
  proof (rule wp_GetEvent, goal_cases)
    case (1 r w1)
    then have u1: "undisturbed w w1" by simp
    show ?case
    proof (cases r)
      case (Inl x)
      then show ?thesis by (simp add: rejected [OF u1] split: store_error.split)
    next
      case (Inr e)
      with 1 have e: "e \<in> set (events (db w))" "uuid_in eventID = Some (e_id e)"
        by (auto dest: find_SomeD)
      show ?thesis
        unfolding Inr sum.case wp_bind
      proof (rule wp_time_now_undisturbed, goal_cases)
        case (1 now w2)
        have u2: "undisturbed w w2" using u1 1(1) by (rule undisturbed_trans)
        have now: "now \<in> range (clock w)" using 1(2) by (rule undisturbedD(3) [OF u1])
        show ?case
        proof (cases "in_window e now")
          case False
          then show ?thesis by (auto simp: in_window_iff rejected [OF u2])
        next
          case True
          show ?thesis
            using True unfolding in_window_iff
            apply simp
            apply (rule wp_PlayerTeamForEvent)
            subgoal premises p for r w3
            proof (cases r)
              case (Inl x)
              have "undisturbed w w3" using u2 p(2) by (rule undisturbed_trans)
              with Inl show ?thesis by (simp add: rejected split: store_error.split)
            next
              case (Inr t)
              with p(3) e obtain tm where tm: "player_team (e_id e) (u_id u) (db w) = Some tm" "t = uuid_text tm"
                using undisturbedD(1) [OF u2] by (fastforce simp: uuid_in_text)
              have u4: "undisturbed (w\<lparr>limits := l\<rparr>) (w3\<lparr>clock := pop (clock w3), limits := l\<rparr>)" for l
                using undisturbed_trans [OF u2 p(2)] by (auto simp: undisturbed_def)
              show ?thesis
                unfolding Inr sum.case wp_bind
                apply (rule wp_rate_allow)
                apply (simp only: tm(2) split: if_split)
                apply (intro conjI impI)
                 apply (use rejected_undisturbed [OF u4] in auto)[1]
                apply (rule wp_after_limit [OF _ u4 e _ tm(1)])
                 apply (use b True now undisturbedD(1) [OF undisturbed_trans [OF u2 p(2)]] in auto)
                done
            qed
            done
        qed
      qed
    qed
  qed
qed

lemma submit_post_books:
  assumes "books (db w)" and "submit_post P srv u eventID ecID body ip w r d'"
  shows "books d'"
proof -
  have wrong: "books d'" if "wrong_recorded P u eventID ecID body (db w) d'"
    using assms(1) that by (auto simp: wrong_recorded_def intro: books_same)
  have right: "books d'" if "solve_outcome e ecID tm us h ip pts (db w) res d'" for e tm us h pts res
    using that after_solve_books [OF assms(1)] assms(1)
    by (fastforce simp: solve_outcome_def solve_applied_def split: sum.splits if_splits)
  show ?thesis
    using assms(2) wrong right
    by (auto simp: submit_post_def assms(1) split: reply.splits verdict.splits)
qed


text \<open>The demo player submits the flag: 100 points, and 50 for the first blood.\<close>

definition demo_submission :: "(world, verdict reply) action" where
  "demo_submission = handleSubmit demo_platform demo_server demo_user (uuid_text 4) (uuid_text 5)
     (Some (JObj [(''flag'', JStr ''flag{a}'')])) ''1.2.3.4:5000''"

definition demo_scored :: world where
  "demo_scored = snd (run_state demo_submission demo_world)"

lemma demo_flag:
  "decodeJSON flag_field [] (Some (JObj [(''flag'', JStr ''flag{a}'')])) = Some ''flag{a}''"
  "flag_hash demo_platform ''flag{a}'' True = ''flag{a}''"
  "verify demo_platform ''flag{a}'' (specs_of [\<lparr>fl_ec = 5, fl_hash = ''flag{a}'', fl_case = True\<rparr>])"
  "points (Some (JObj [(''type'', JStr ''static''), (''points'', JInt 100)])) = 100"
proof -
  show "decodeJSON flag_field [] (Some (JObj [(''flag'', JStr ''flag{a}'')])) = Some ''flag{a}''"
    by code_simp
  show h: "flag_hash demo_platform ''flag{a}'' True = ''flag{a}''"
    by (simp add: flag_hash_def normalize_def demo_platform_def trim_space_printable printable_def)
  show "verify demo_platform ''flag{a}'' (specs_of [\<lparr>fl_ec = 5, fl_hash = ''flag{a}'', fl_case = True\<rparr>])"
    using h by (simp add: verify_def specs_of_def)
  show "points (Some (JObj [(''type'', JStr ''static''), (''points'', JInt 100)])) = 100"
    using points_static [of 100] by (simp add: static_doc_def int64_ok_def min_int64_def max_int64_def)
qed

lemmas lookup_defs = GetEvent_def PlayerTeamForEvent_def GetChallenge_def ChallengeFlags_def
  ChallengeInstanceSpec_def ListPlugins_def

lemma demo_submission_run:
  "case run_state demo_submission demo_world of (r, w) \<Rightarrow>
     r = Reply 200 (Correct False True 150) \<and>
     board (db w) = [\<lparr>b_event = 4, b_team = 3, b_points = 150, b_solves = 1, b_last = Some 1000\<rparr>]"
  unfolding demo_submission_def
  apply (simp add: handleSubmit_def lookup_defs run_simps call_defs demo_defs player_team_def
      rate_allow_def allow_def new_limiter_def fresh_bucket_def Let_def)
  apply (simp add: run_simps call_defs Let_def submit_challenge_def submit_gate_def block_of_def
      inherited_schedule_def lock_gate_def open_at_None TeamGateState_def or_fail_def solved_rows_def
      board_points_def block_totals_def published_in_def map_filter_def team_state_of_def
      block_unlock_def unlocked_def demo_flag)
  apply (simp add: run_simps call_defs Let_def lookup_defs demo_flag)
  apply (simp add: run_simps call_defs Let_def record_verdict_def RecordSolve_def transaction_def
      nilIfEmpty_def demo_flag score_defs)
  apply (simp add: run_simps call_defs scoreChanged_def publish_def deliverWebhook_def lookup_defs
      order_by_def score_defs query_def)
  done

lemma demo_scored_reply:
  "run_state demo_submission demo_world = (Reply 200 (Correct False True 150), demo_scored)"
  using demo_submission_run by (simp add: demo_scored_def split_beta prod_eq_iff)


end
