(* ===== verification/Files.thy ===== *)
theory Files
  imports Store Demo
begin

text \<open>
  Files attached to challenges: \<open>internal/store/files.go\<close> and the download endpoint of
  \<open>internal/httpserver/files.go\<close>. The theorems: who is given a file, and that the name sent in the
  header cannot break out of it.
\<close>

subsection \<open>The store\<close>

text \<open>The metadata of a file is its row without the bytes; \<open>ORDER BY name\<close>.\<close>

definition ListChallengeFiles :: "string \<Rightarrow> (world, store_error + challenge_file list) action" where
  "ListChallengeFiles ecID = do {
     r \<leftarrow> db_call (\<lambda>now u d. cast_uuid ecID (\<lambda>ec.
       Inr (map (\<lambda>f. f\<lparr>f_data := []\<rparr>) (order_by (\<lambda>f g. name_le (f_name f) (f_name g))
              (filter (\<lambda>f. f_ec f = ec) (files d))), d)));
     ret (failed r)
   }"

definition GetChallengeFile :: "string \<Rightarrow> (world, store_error + challenge_file) action" where
  "GetChallengeFile fileID = do {
     r \<leftarrow> db_call (\<lambda>now u d. cast_uuid fileID (\<lambda>i. Inr (find (\<lambda>f. f_id f = i) (files d), d)));
     ret (row_or_not_found r)
   }"

record file_input =
  fn_name :: string
  fn_type :: string
  fn_data :: string
  fn_sha256 :: string
  fn_size :: int

definition delete_files :: "string \<Rightarrow> unit stmt" where
  "delete_files ecID now u d = cast_uuid ecID (\<lambda>ec.
     Inr ((), d\<lparr>files := filter (\<lambda>f. f_ec f \<noteq> ec) (files d)\<rparr>))"

definition insert_file :: "string \<Rightarrow> file_input \<Rightarrow> unit stmt" where
  "insert_file ecID f now u d = cast_uuid ecID (\<lambda>ec.
     require (fresh_key f_id u (files d)) UniqueViolation (
     require (exists_row c_id ec (challenges d)) ForeignKeyViolation (
     Inr ((), d\<lparr>files := files d @ [\<lparr>f_id = u, f_ec = ec, f_name = fn_name f, f_type = fn_type f,
       f_size = fn_size f, f_sha256 = fn_sha256 f, f_data = fn_data f\<rparr>]\<rparr>))))"

fun insert_files ::
  "instant \<Rightarrow> string \<Rightarrow> file_input list \<Rightarrow> (world, 'b tx_end) action \<Rightarrow> (world, 'b tx_end) action"
where
  "insert_files now ecID [] k = k"
| "insert_files now ecID (f # fs) k =
     tx_try now (insert_file ecID f) fail (\<lambda>_. insert_files now ecID fs k)"

definition ReplaceChallengeFiles ::
  "string \<Rightarrow> file_input list \<Rightarrow> (world, store_error + unit) action"
where
  "ReplaceChallengeFiles ecID fs =
     transaction (\<lambda>now.
       tx_try now (delete_files ecID) fail (\<lambda>_. insert_files now ecID fs (ret (Commit ()))))"

lemma quiet_files [simp, quiet_intros]:
  "quiet (ListChallengeFiles ecID)" "quiet (GetChallengeFile fileID)"
  unfolding ListChallengeFiles_def GetChallengeFile_def by (intro quiet_intros)+

subsection \<open>Downloading\<close>

text \<open>
  The name is valid UTF-8 (the database holds no other text), so that what \<open>strings.Map\<close> replaces
  are single bytes.
\<close>

definition is_separator :: "char \<Rightarrow> bool" where
  "is_separator c \<longleftrightarrow> byte c = 47 \<or> byte c = 92"

definition safe_char :: "char \<Rightarrow> char" where
  "safe_char c = (if byte c < 32 \<or> byte c = 34 then CHR ''_'' else c)"

definition sanitizeFilename :: "string \<Rightarrow> string" where
  "sanitizeFilename name =
     (let base = rev (takeWhile (\<lambda>c. \<not> is_separator c) (rev name)); clean = map safe_char base
      in if clean = [] then ''file'' else clean)"

text \<open>The answer: content type, size, name and bytes.\<close>

definition handleDownloadFile ::
  "user option \<Rightarrow> string \<Rightarrow> string \<Rightarrow> string \<Rightarrow> (world, (string \<times> int \<times> string \<times> string) reply) action"
where
  "handleDownloadFile u eventID ecID fileID = do {
     c \<leftarrow> GetChallenge ecID;
     (case c of
        Inl NotFound \<Rightarrow> ret (Problem 404 ''challenge not found'')
      | Inl _ \<Rightarrow> ret (Problem 500 ''get failed'')
      | Inr c \<Rightarrow>
          if uuid_text (c_event c) \<noteq> eventID then ret (Problem 404 ''challenge not found'')
          else if c_state c \<noteq> ''published'' \<and> \<not> is_admin u then ret (Problem 404 ''challenge not found'')
          else do {
            f \<leftarrow> GetChallengeFile fileID;
            ret (case f of
                   Inl NotFound \<Rightarrow> Problem 404 ''file not found''
                 | Inl _ \<Rightarrow> Problem 500 ''get failed''
                 | Inr f \<Rightarrow>
                     if uuid_text (f_ec f) \<noteq> ecID then Problem 404 ''file not found''
                     else Reply 200 (f_type f, f_size f, sanitizeFilename (f_name f), f_data f))
          })
   }"

lemma wp_GetChallengeFile:
  assumes "\<And>r w'. undisturbed w w' \<Longrightarrow>
      (\<And>f. r = Inr f \<Longrightarrow> uuid_in fileID = Some (f_id f) \<and> f \<in> set (files (db w))) \<Longrightarrow> Q r w'"
  shows "wp (GetChallengeFile fileID) Q w"
  unfolding GetChallengeFile_def wp_bind
  by (rule wp_read; (intro quiet_intros)?)
     (auto simp: cast_uuid_def intro!: assms split: option.splits dest: find_SomeD)

text \<open>
  C23. A file is given only to those who may see its challenge. When \<open>handleDownloadFile\<close> sends bytes,
  they are those stored for the named file, sent with its stored size, type and cleaned name; the file
  is one of the challenge that was named, the challenge belongs to the event that was named, and it is
  published, unless an admin asks.
\<close>

theorem download_allowed:
  assumes "run_state (handleDownloadFile u eventID ecID fileID) w = (Reply code (typ, len, name, bytes), w')"
  shows "\<exists>c \<in> set (challenges (db w)). \<exists>f \<in> set (files (db w)).
     uuid_text (c_event c) = eventID \<and> uuid_in ecID = Some (c_id c) \<and> f_ec f = c_id c \<and>
     uuid_in fileID = Some (f_id f) \<and> f_data f = bytes \<and> f_size f = len \<and> f_type f = typ \<and>
     name = sanitizeFilename (f_name f) \<and> (c_state c = ''published'' \<or> is_admin u)"
proof -
  let ?Q = "\<lambda>r w'. r = Reply code (typ, len, name, bytes) \<longrightarrow>
     (\<exists>c \<in> set (challenges (db w)). \<exists>f \<in> set (files (db w)).
     uuid_text (c_event c) = eventID \<and> uuid_in ecID = Some (c_id c) \<and> f_ec f = c_id c \<and>
     uuid_in fileID = Some (f_id f) \<and> f_data f = bytes \<and> f_size f = len \<and> f_type f = typ \<and>
     name = sanitizeFilename (f_name f) \<and> (c_state c = ''published'' \<or> is_admin u))"
  have "wp (handleDownloadFile u eventID ecID fileID) ?Q w"
    unfolding handleDownloadFile_def wp_bind
  proof (rule wp_GetChallenge, rule wp_sum)
    fix r w1 x
    show "wp (case x of NotFound \<Rightarrow> ret (Problem 404 ''challenge not found'')
        | _ \<Rightarrow> ret (Problem 500 ''get failed'')) ?Q w1"
      by (simp split: store_error.split)
  next
    fix r w1 c
    assume "undisturbed w w1" and "\<And>c. r = Inr c \<Longrightarrow> \<exists>ec. uuid_in ecID = Some ec \<and>
        find (\<lambda>c. c_id c = ec) (challenges (db w)) = Some c" and "r = Inr c"
    then have same: "db w1 = db w" and c: "uuid_in ecID = Some (c_id c)" "c \<in> set (challenges (db w))"
      by (auto simp: undisturbed_def dest!: find_SomeD)
    have "f_ec f = c_id c" if "uuid_text (f_ec f) = ecID" for f :: challenge_file
      using that c(1) uuid_in_text [of "f_ec f"] by simp
    then show "wp (if uuid_text (c_event c) \<noteq> eventID then ret (Problem 404 ''challenge not found'')
          else if c_state c \<noteq> ''published'' \<and> \<not> is_admin u then ret (Problem 404 ''challenge not found'')
          else do {
            f \<leftarrow> GetChallengeFile fileID;
            ret (case f of
                   Inl NotFound \<Rightarrow> Problem 404 ''file not found''
                 | Inl _ \<Rightarrow> Problem 500 ''get failed''
                 | Inr f \<Rightarrow>
                     if uuid_text (f_ec f) \<noteq> ecID then Problem 404 ''file not found''
                     else Reply 200 (f_type f, f_size f, sanitizeFilename (f_name f), f_data f))
          }) ?Q w1"
      using c unfolding wp_bind
      by (auto intro!: wp_GetChallengeFile split: sum.splits store_error.splits simp: same) (metis+)
  qed
  from wpD [OF this assms] show ?thesis by simp
qed

text \<open>
  C24. The name in \<open>Content-Disposition\<close> cannot break out of the header: whatever name was stored, it
  is not empty, and has no path separator, no quote and no byte below 32. (The byte 127, also a control
  character, passes: \<open>sanitize_keeps_delete\<close>.)
\<close>

theorem sanitized_name:
  "sanitizeFilename name \<noteq> [] \<and>
   (\<forall>c \<in> set (sanitizeFilename name). \<not> is_separator c \<and> byte c \<noteq> 34 \<and> byte c \<ge> 32)"
proof -
  have "byte (CHR ''_'') = 95" by code_simp
  then have "\<not> is_separator (safe_char c) \<and> byte (safe_char c) \<noteq> 34 \<and> byte (safe_char c) \<ge> 32"
    if "\<not> is_separator c" for c
    using that by (auto simp: safe_char_def is_separator_def)
  then have "\<forall>c \<in> set (map safe_char (rev (takeWhile (\<lambda>c. \<not> is_separator c) (rev name)))).
      \<not> is_separator c \<and> byte c \<noteq> 34 \<and> byte c \<ge> 32"
    by (auto dest: set_takeWhileD)
  moreover have "\<forall>c \<in> set ''file''. \<not> is_separator c \<and> byte c \<noteq> 34 \<and> byte c \<ge> 32" by code_simp
  ultimately show ?thesis by (auto simp: sanitizeFilename_def Let_def)
qed

lemma sanitize_keeps_delete: "sanitizeFilename [CHR 0x7F] = [CHR 0x7F]"
  by code_simp

theorem sanitized_name_witness:
  "sanitizeFilename (''../'' @ CHR 0x22 # ''a'') = ''_a'' \<and> byte (hd (sanitizeFilename (''../'' @ CHR 0x22 # ''a''))) \<noteq> 34"
proof
  show clean: "sanitizeFilename (''../'' @ CHR 0x22 # ''a'') = ''_a''" by code_simp
  show "byte (hd (sanitizeFilename (''../'' @ CHR 0x22 # ''a''))) \<noteq> 34"
    using sanitized_name [of "''../'' @ CHR 0x22 # ''a''"] clean by simp
qed

definition demo_file :: challenge_file where
  "demo_file = \<lparr>f_id = 11, f_ec = 5, f_name = ''a/b.txt'', f_type = ''text/plain'', f_size = 2,
     f_sha256 = [], f_data = ''hi''\<rparr>"

theorem download_allowed_witness:
  "let w = demo_world\<lparr>db := demo_db\<lparr>files := [demo_file]\<rparr>\<rparr>;
       r = fst (run_state (handleDownloadFile None (uuid_text 4) (uuid_text 5) (uuid_text 11)) w)
   in r = Reply 200 (''text/plain'', 2, ''b.txt'', ''hi'') \<and> (\<exists>f \<in> set (files (db w)). f_data f = ''hi'' \<and> f_size f = 2)"
proof -
  let ?w = "demo_world\<lparr>db := demo_db\<lparr>files := [demo_file]\<rparr>\<rparr>"
  let ?m = "handleDownloadFile None (uuid_text 4) (uuid_text 5) (uuid_text 11)"
  have "sanitizeFilename ''a/b.txt'' = ''b.txt''" by code_simp
  then have run: "fst (run_state ?m ?w) = Reply 200 (''text/plain'', 2, ''b.txt'', ''hi'')"
    by (simp add: handleDownloadFile_def GetChallenge_def GetChallengeFile_def run_simps call_defs
        demo_defs demo_file_def)
  then have "run_state ?m ?w = (Reply 200 (''text/plain'', 2, ''b.txt'', ''hi''), snd (run_state ?m ?w))"
    by (simp add: prod_eq_iff)
  from download_allowed [OF this] run show ?thesis by (auto simp: Let_def)
qed

end
