(* ===== verification/Library.thy ===== *)
theory Library
  imports Gating Demo
begin

text \<open>
  The challenge library of \<open>internal/store/library.go\<close>: reusable challenges with their immutable
  revisions, embedding a revision into an event, blocks and saved views. The theorems: the
  revisions of a challenge are numbered without a gap up to the current one, whatever is done and
  whatever fails, and an embedded challenge has exactly the flags of its revision.
\<close>

subsection \<open>Challenges and revisions\<close>

definition default_scoring :: json where
  "default_scoring = JObj [(''type'', JStr ''static''), (''points'', JInt 100)]"

definition insert_library ::
  "string \<Rightarrow> string \<Rightarrow> string \<Rightarrow> string \<Rightarrow> int option \<Rightarrow> string option \<Rightarrow> string list \<Rightarrow> lib_challenge stmt"
where
  "insert_library orgID slug title category difficulty author tags now u d =
     cast_uuid orgID (\<lambda>org.
       require (case difficulty of None \<Rightarrow> True | Some n \<Rightarrow> int2_ok n) OutOfRange (
       require (fresh_key l_id u (library d)) UniqueViolation (
       require (fresh_key (\<lambda>l. (l_org l, l_slug l)) (org, slug) (library d)) UniqueViolation (
       require (exists_row o_id org (orgs d)) ForeignKeyViolation (
       let row = \<lparr>l_id = u, l_org = org, l_slug = slug, l_title = title, l_category = category,
                  l_difficulty = difficulty, l_author = author, l_tags = tags, l_rev = 1,
                  l_archived = None, l_created = now\<rparr>
       in Inr (row, d\<lparr>library := library d @ [row]\<rparr>))))))"

definition rev_key :: "revision \<Rightarrow> uuid \<times> int" where
  "rev_key r = (r_lib r, r_rev r)"

definition insert_revision ::
  "string \<Rightarrow> int \<Rightarrow> string \<Rightarrow> json \<Rightarrow> json \<Rightarrow> string option \<Rightarrow> string option \<Rightarrow> unit stmt"
where
  "insert_revision challengeID rv descMD scoring flgs connTpl createdBy now u d =
     cast_uuid challengeID (\<lambda>lib. cast_uuid_opt createdBy (\<lambda>by.
       require (int4_ok rv) OutOfRange (
       require (fresh_key rev_key (lib, rv) (revisions d)) UniqueViolation (
       require (exists_row l_id lib (library d)) ForeignKeyViolation (
       require (case by of None \<Rightarrow> True | Some us \<Rightarrow> exists_row u_id us (users d)) ForeignKeyViolation (
       Inr ((), d\<lparr>revisions := revisions d @
         [\<lparr>r_lib = lib, r_rev = rv, r_desc = descMD, r_scoring = scoring, r_flags = flgs,
           r_conn = connTpl, r_by = by, r_created = now\<rparr>]\<rparr>)))))))"

text \<open>A document that is absent has a default.\<close>

definition or_default :: "json \<Rightarrow> json option \<Rightarrow> json" where
  "or_default j raw = (case raw of None \<Rightarrow> j | Some x \<Rightarrow> x)"

definition CreateLibraryChallenge ::
  "string \<Rightarrow> string \<Rightarrow> string \<Rightarrow> string \<Rightarrow> int option \<Rightarrow> string option \<Rightarrow> string list \<Rightarrow> string \<Rightarrow>
   json option \<Rightarrow> json option \<Rightarrow> string option \<Rightarrow> string \<Rightarrow> (world, store_error + lib_challenge) action"
where
  "CreateLibraryChallenge orgID slug title category difficulty author tags descMD scoring flgs connTpl
     createdBy =
     transaction (\<lambda>now.
       tx_try now (insert_library orgID slug title category difficulty author tags)
         (\<lambda>e. Inl (if e = UniqueViolation then Conflict else Failed e)) (\<lambda>c.
       tx_try now (insert_revision (uuid_text (l_id c)) 1 descMD (or_default default_scoring scoring)
                     (or_default (JArr []) flgs) connTpl (nilIfEmpty createdBy)) fail (\<lambda>_.
       ret (Commit c))))"

definition GetLibraryChallenge :: "string \<Rightarrow> (world, store_error + lib_challenge) action" where
  "GetLibraryChallenge cid = do {
     r \<leftarrow> db_call (\<lambda>now u d. cast_uuid cid (\<lambda>i. Inr (find (\<lambda>l. l_id l = i) (library d), d)));
     ret (row_or_not_found r)
   }"

definition ListLibrary :: "string \<Rightarrow> string \<Rightarrow> (world, store_error + lib_challenge list) action" where
  "ListLibrary orgID tag = do {
     r \<leftarrow> db_call (\<lambda>now u d. cast_uuid orgID (\<lambda>org.
       Inr (sort_key (\<lambda>l. - l_created l)
              (filter (\<lambda>l. l_org l = org \<and> l_archived l = None \<and> (tag \<noteq> [] \<longrightarrow> List.member (l_tags l) tag))
                (library d)), d)));
     ret (failed r)
   }"

definition GetRevision :: "string \<Rightarrow> int \<Rightarrow> (world, store_error + revision) action" where
  "GetRevision challengeID rv = do {
     r \<leftarrow> db_call (\<lambda>now u d. cast_uuid challengeID (\<lambda>lib.
       require (int4_ok rv) OutOfRange (Inr (find (\<lambda>r. rev_key r = (lib, rv)) (revisions d), d))));
     ret (row_or_not_found r)
   }"

definition ListRevisions :: "string \<Rightarrow> (world, store_error + revision list) action" where
  "ListRevisions challengeID = do {
     r \<leftarrow> db_call (\<lambda>now u d. cast_uuid challengeID (\<lambda>lib.
       Inr (sort_key (\<lambda>r. - r_rev r) (filter (\<lambda>r. r_lib r = lib) (revisions d)), d)));
     ret (failed r)
   }"

text \<open>\<open>UPDATE challenges SET current_rev = current_rev + 1 ... RETURNING current_rev\<close>.\<close>

definition bump_rev :: "string \<Rightarrow> int option stmt" where
  "bump_rev challengeID now u d =
     cast_uuid challengeID (\<lambda>lib.
       case find (\<lambda>l. l_id l = lib) (library d) of
         None \<Rightarrow> Inr (None, d)
       | Some l \<Rightarrow>
           require (int4_ok (l_rev l + 1)) OutOfRange (
           Inr (Some (l_rev l + 1),
                d\<lparr>library := update_where (\<lambda>l. l_id l = lib) (\<lambda>l. l\<lparr>l_rev := l_rev l + 1\<rparr>) (library d)\<rparr>)))"

definition NewRevision ::
  "string \<Rightarrow> string \<Rightarrow> json option \<Rightarrow> json option \<Rightarrow> string option \<Rightarrow> string \<Rightarrow> (world, store_error + int) action"
where
  "NewRevision challengeID descMD scoring flgs connTpl createdBy =
     transaction (\<lambda>now.
       tx_try now (bump_rev challengeID) fail (\<lambda>r.
         case r of
           None \<Rightarrow> ret (Rollback (Inl NotFound))
         | Some rv \<Rightarrow>
             tx_try now (insert_revision challengeID rv descMD (or_default default_scoring scoring)
                           (or_default (JArr []) flgs) connTpl (nilIfEmpty createdBy)) fail (\<lambda>_.
             ret (Commit rv))))"

definition CloneChallenge ::
  "string \<Rightarrow> string \<Rightarrow> string \<Rightarrow> string \<Rightarrow> (world, store_error + lib_challenge) action"
where
  "CloneChallenge srcID newSlug newTitle createdBy = do {
     c \<leftarrow> GetLibraryChallenge srcID;
     (case c of
        Inl e \<Rightarrow> ret (Inl e)
      | Inr c \<Rightarrow> do {
          r \<leftarrow> GetRevision srcID (l_rev c);
          (case r of
             Inl e \<Rightarrow> ret (Inl e)
           | Inr r \<Rightarrow>
               CreateLibraryChallenge (uuid_text (l_org c)) newSlug
                 (if newTitle = [] then l_title c @ '' (copy)'' else newTitle) (l_category c)
                 (l_difficulty c) (l_author c) (l_tags c) (r_desc r) (Some (r_scoring r))
                 (Some (r_flags r)) (r_conn r) createdBy)
        })
   }"

subsection \<open>Embedding\<close>

text \<open>A flag inside a revision: \<open>{"hash": hex, "case_sensitive": bool}\<close>.\<close>

record rev_flag =
  rf_hash :: string
  rf_case :: bool

definition rev_flag_fields :: "(string \<times> rev_flag setter) list" where
  "rev_flag_fields =
     [(''hash'', set_string (\<lambda>x r. r\<lparr>rf_hash := x\<rparr>)),
      (''case_sensitive'', set_bool (\<lambda>x r. r\<lparr>rf_case := x\<rparr>))]"

definition zero_rev_flag :: rev_flag where
  "zero_rev_flag = \<lparr>rf_hash = [], rf_case = False\<rparr>"

text \<open>\<open>_ = json.Unmarshal(r.Flags, &rflags)\<close>: errors are ignored, what decodes is used.\<close>

definition decode_rev_flags :: "json \<Rightarrow> rev_flag list" where
  "decode_rev_flags j =
     fst (set_slice zero_rev_flag (decode_struct False rev_flag_fields) (\<lambda>xs _. xs) j [])"

definition encode_rev_flags :: "rev_flag list \<Rightarrow> json" where
  "encode_rev_flags fs =
     JArr (map (\<lambda>f. JObj [(''hash'', JStr (rf_hash f)), (''case_sensitive'', JBool (rf_case f))]) fs)"

fun insert_flags ::
  "instant \<Rightarrow> string \<Rightarrow> rev_flag list \<Rightarrow> (world, 'b tx_end) action \<Rightarrow> (world, 'b tx_end) action"
where
  "insert_flags now ecID [] k = k"
| "insert_flags now ecID (f # fs) k =
     (case hex_decode (rf_hash f) of
        None \<Rightarrow> insert_flags now ecID fs k
      | Some h \<Rightarrow> tx_try now (insert_flag ecID h (rf_case f)) fail (\<lambda>_. insert_flags now ecID fs k))"

definition insert_embedded ::
  "string \<Rightarrow> string \<Rightarrow> int \<Rightarrow> lib_challenge \<Rightarrow> revision \<Rightarrow> challenge stmt"
where
  "insert_embedded eventID challengeID rv lib r now u d =
     cast_uuid eventID (\<lambda>ev. cast_uuid challengeID (\<lambda>l.
       require (exists_row l_id l (library d)) ForeignKeyViolation (
       insert_challenge ((new_challenge now u ev)\<lparr>c_title := l_title lib, c_category := l_category lib,
         c_desc := r_desc r, c_scoring := r_scoring r, c_lib := Some l, c_rev := Some rv,
         c_tags := l_tags lib\<rparr>) d)))"

definition EmbedFromLibrary ::
  "string \<Rightarrow> string \<Rightarrow> int \<Rightarrow> (world, store_error + challenge) action"
where
  "EmbedFromLibrary eventID challengeID rv = do {
     c \<leftarrow> GetLibraryChallenge challengeID;
     (case c of
        Inl e \<Rightarrow> ret (Inl e)
      | Inr lib \<Rightarrow> (let rv = (if rv = 0 then l_rev lib else rv) in do {
          r \<leftarrow> GetRevision challengeID rv;
          (case r of
             Inl e \<Rightarrow> ret (Inl e)
           | Inr r \<Rightarrow>
               transaction (\<lambda>now.
                 tx_try now (insert_embedded eventID challengeID rv lib r) fail (\<lambda>c.
                 insert_flags now (uuid_text (c_id c)) (decode_rev_flags (r_flags r)) (ret (Commit c)))))
        }))
   }"

subsection \<open>Blocks and saved views\<close>

definition CreateBlock ::
  "string \<Rightarrow> string \<Rightarrow> int \<Rightarrow> string option \<Rightarrow> json option \<Rightarrow> json option \<Rightarrow> (world, store_error + block) action"
where
  "CreateBlock eventID name position color sched unlock_rule = do {
     r \<leftarrow> db_call (\<lambda>now u d. cast_uuid eventID (\<lambda>ev.
       require (int4_ok position) OutOfRange (
       require (fresh_key k_id u (blocks d)) UniqueViolation (
       require (fresh_key (\<lambda>b. (k_event b, k_name b)) (ev, name) (blocks d)) UniqueViolation (
       require (exists_row e_id ev (events d)) ForeignKeyViolation (
       let row = \<lparr>k_id = u, k_event = ev, k_name = name, k_position = position, k_color = color,
                  k_schedule = sched, k_unlock = unlock_rule, k_created = now\<rparr>
       in Inr (row, d\<lparr>blocks := blocks d @ [row]\<rparr>)))))));
     ret (conflict_if_unique r)
   }"

definition ListBlocks :: "string \<Rightarrow> (world, store_error + block list) action" where
  "ListBlocks eventID = do {
     r \<leftarrow> db_call (\<lambda>now u d. cast_uuid eventID (\<lambda>ev.
       Inr (sort_key k_position (order_by (\<lambda>a b. name_le (k_name a) (k_name b))
              (filter (\<lambda>b. k_event b = ev) (blocks d))), d)));
     ret (failed r)
   }"

definition view_key :: "saved_view \<Rightarrow> uuid \<times> uuid \<times> string" where
  "view_key v = (v_event v, v_user v, v_name v)"

definition CreateSavedView ::
  "string \<Rightarrow> string \<Rightarrow> string \<Rightarrow> json option \<Rightarrow> (world, store_error + string) action"
where
  "CreateSavedView eventID userID name flt = do {
     r \<leftarrow> db_call (\<lambda>now u d. cast_uuid eventID (\<lambda>ev. cast_uuid userID (\<lambda>us.
       let f = or_default (JObj []) flt
       in case find (\<lambda>v. view_key v = (ev, us, name)) (saved_views d) of
            Some v \<Rightarrow> Inr (uuid_text (v_id v), d\<lparr>saved_views :=
              update_where (\<lambda>v. view_key v = (ev, us, name)) (\<lambda>v. v\<lparr>v_filter := f\<rparr>) (saved_views d)\<rparr>)
          | None \<Rightarrow>
              require (fresh_key v_id u (saved_views d)) UniqueViolation (
              require (exists_row e_id ev (events d)) ForeignKeyViolation (
              require (exists_row u_id us (users d)) ForeignKeyViolation (
              Inr (uuid_text u, d\<lparr>saved_views := saved_views d @
                [\<lparr>v_id = u, v_event = ev, v_user = us, v_name = name, v_filter = f\<rparr>]\<rparr>)))))));
     ret (failed r)
   }"

definition ListSavedViews :: "string \<Rightarrow> string \<Rightarrow> (world, store_error + saved_view list) action" where
  "ListSavedViews eventID userID = do {
     r \<leftarrow> db_call (\<lambda>now u d. cast_uuid eventID (\<lambda>ev. cast_uuid userID (\<lambda>us.
       Inr (order_by (\<lambda>a b. name_le (v_name a) (v_name b))
              (filter (\<lambda>v. v_event v = ev \<and> v_user v = us) (saved_views d)), d))));
     ret (failed r)
   }"

lemma quiet_library [simp, quiet_intros]:
  "quiet (GetLibraryChallenge cid)" "quiet (ListLibrary orgID tag)" "quiet (ListRevisions cid)"
  "quiet (ListBlocks eventID)" "quiet (ListSavedViews eventID userID)"
  unfolding GetLibraryChallenge_def ListLibrary_def ListRevisions_def ListBlocks_def ListSavedViews_def
  by (intro quiet_intros)+

lemma quiet_GetRevision [simp, quiet_intros]: "quiet (GetRevision cid rv)"
  unfolding GetRevision_def by (intro quiet_bind quiet_ret quiet_reads) (auto simp: reads_def)

subsection \<open>Revisions are numbered without a gap\<close>

definition revs_of :: "uuid \<Rightarrow> database \<Rightarrow> int set" where
  "revs_of lib d = {r_rev r | r. r \<in> set (revisions d) \<and> r_lib r = lib}"

definition revs_ok :: "database \<Rightarrow> bool" where
  "revs_ok d \<longleftrightarrow> distinct (map l_id (library d)) \<and> distinct (map rev_key (revisions d)) \<and>
     (\<forall>r \<in> set (revisions d). r_lib r \<in> l_id ` set (library d)) \<and>
     (\<forall>l \<in> set (library d). 1 \<le> l_rev l \<and> revs_of (l_id l) d = {1..l_rev l})"

lemma revs_ok_same:
  "revs_ok d \<Longrightarrow> library d' = library d \<Longrightarrow> revisions d' = revisions d \<Longrightarrow> revs_ok d'"
  by (simp add: revs_ok_def revs_of_def)

lemma revs_of_append:
  "revisions d' = revisions d @ [r] \<Longrightarrow>
   revs_of lib d' = (if r_lib r = lib then insert (r_rev r) (revs_of lib d) else revs_of lib d)"
  by (auto simp: revs_of_def)

lemma insert_library_Inr:
  "insert_library orgID slug title category difficulty author tags now u d = Inr (c, d') \<longleftrightarrow>
     (\<exists>org. uuid_in orgID = Some org \<and> (case difficulty of None \<Rightarrow> True | Some n \<Rightarrow> int2_ok n) \<and>
        u \<notin> l_id ` set (library d) \<and> (org, slug) \<notin> (\<lambda>l. (l_org l, l_slug l)) ` set (library d) \<and>
        org \<in> o_id ` set (orgs d) \<and>
        c = \<lparr>l_id = u, l_org = org, l_slug = slug, l_title = title, l_category = category,
             l_difficulty = difficulty, l_author = author, l_tags = tags, l_rev = 1,
             l_archived = None, l_created = now\<rparr> \<and>
        d' = d\<lparr>library := library d @ [c]\<rparr>)"
  unfolding insert_library_def by (auto simp: fresh_key_iff exists_row_iff Let_def)

lemma insert_revision_Inr:
  assumes "insert_revision cid n descMD scoring flgs connTpl createdBy now u d = Inr (a, d')"
    and "uuid_in cid = Some lib"
  shows "\<exists>r. r_lib r = lib \<and> r_rev r = n \<and> (lib, n) \<notin> rev_key ` set (revisions d) \<and>
     lib \<in> l_id ` set (library d) \<and> r_flags r = flgs \<and> d' = d\<lparr>revisions := revisions d @ [r]\<rparr>"
proof -
  from assms obtain who where lib: "(lib, n) \<notin> rev_key ` set (revisions d)" "lib \<in> l_id ` set (library d)"
    and d': "d' = d\<lparr>revisions := revisions d @
          [\<lparr>r_lib = lib, r_rev = n, r_desc = descMD, r_scoring = scoring, r_flags = flgs,
            r_conn = connTpl, r_by = who, r_created = now\<rparr>]\<rparr>"
    unfolding insert_revision_def
    by (auto simp: fresh_key_iff exists_row_iff cast_uuid_opt_Inr split: option.splits)
  show ?thesis
    by (rule exI [of _ "\<lparr>r_lib = lib, r_rev = n, r_desc = descMD, r_scoring = scoring, r_flags = flgs,
            r_conn = connTpl, r_by = who, r_created = now\<rparr>"])
      (use lib d' in simp)
qed

lemma insert_revision_cast:
  "insert_revision cid n descMD scoring flgs connTpl createdBy now u d = Inr (a, d') \<Longrightarrow>
   \<exists>lib. uuid_in cid = Some lib"
  unfolding insert_revision_def by auto

lemma bump_rev_Inr:
  "bump_rev cid now u d = Inr (Some n, d') \<Longrightarrow>
     \<exists>lib l. uuid_in cid = Some lib \<and> l \<in> set (library d) \<and> l_id l = lib \<and> n = l_rev l + 1 \<and>
       d' = d\<lparr>library := update_where (\<lambda>l. l_id l = lib) (\<lambda>l. l\<lparr>l_rev := l_rev l + 1\<rparr>) (library d)\<rparr>"
  unfolding bump_rev_def by (fastforce split: option.splits dest: find_SomeD)

lemma bump_rev_None: "bump_rev cid now u d = Inr (None, d') \<Longrightarrow> d' = d"
  unfolding bump_rev_def by (auto split: option.splits)

lemma revs_ok_create:
  assumes ok: "revs_ok d"
    and lib: "insert_library orgID slug title category difficulty author tags now u d = Inr (c, d1)"
    and rv: "insert_revision (uuid_text (l_id c)) 1 descMD scoring flgs connTpl createdBy now u' d1 = Inr (a, d2)"
  shows "revs_ok d2"
proof -
  from lib have c: "l_id c = u" "l_rev c = 1" "u \<notin> l_id ` set (library d)"
    and d1: "d1 = d\<lparr>library := library d @ [c]\<rparr>"
    by (auto simp: insert_library_Inr)
  from insert_revision_Inr [OF rv uuid_in_text] c obtain r
    where r: "r_lib r = u" "r_rev r = 1" "(u, 1) \<notin> rev_key ` set (revisions d1)"
      and d2: "d2 = d1\<lparr>revisions := revisions d1 @ [r]\<rparr>"
    by auto
  have none: "revs_of u d = {}"
    using ok c(3) by (auto simp: revs_ok_def revs_of_def)
  have other: "l_id l \<noteq> u" if "l \<in> set (library d)" for l using that c(3) by auto
  have "revs_of x d2 = (if x = u then insert 1 (revs_of x d) else revs_of x d)" for x
    using revs_of_append [of d2 d r] r by (auto simp: d1 d2)
  then show ?thesis
    using ok c r none other by (auto simp: revs_ok_def d1 d2 rev_key_def)
qed

lemma revs_ok_new:
  assumes ok: "revs_ok d" and bump: "bump_rev cid now u d = Inr (Some n, d1)"
    and rv: "insert_revision cid n descMD scoring flgs connTpl createdBy now u' d1 = Inr (a, d2)"
  shows "revs_ok d2"
proof -
  from bump_rev_Inr [OF bump] obtain l0
    where l0: "uuid_in cid = Some (l_id l0)" "l0 \<in> set (library d)" "n = l_rev l0 + 1"
      and d1: "d1 = d\<lparr>library := update_where (\<lambda>l. l_id l = l_id l0) (\<lambda>l. l\<lparr>l_rev := l_rev l + 1\<rparr>) (library d)\<rparr>"
    by auto
  from insert_revision_Inr [OF rv l0(1)] obtain r
    where r: "r_lib r = l_id l0" "r_rev r = n" "(l_id l0, n) \<notin> rev_key ` set (revisions d)"
      and d2: "d2 = d1\<lparr>revisions := revisions d @ [r]\<rparr>"
    by (auto simp: d1)
  have ids: "map l_id (library d2) = map l_id (library d)"
    by (simp add: d1 d2 map_update_where)
  have revs: "revs_of x d2 = (if x = l_id l0 then insert n (revs_of x d) else revs_of x d)" for x
    using revs_of_append [of d2 d r] r by (auto simp: d2)
  have "1 \<le> l_rev l \<and> revs_of (l_id l) d2 = {1..l_rev l}" if l: "l \<in> set (library d2)" for l
  proof -
    from l obtain k where k: "k \<in> set (library d)"
      and lk: "l = (if l_id k = l_id l0 then k\<lparr>l_rev := l_rev k + 1\<rparr> else k)"
      by (auto simp: d1 d2 set_update_where)
    have "k = l0" if "l_id k = l_id l0"
      using that ok k l0(2) by (auto simp: revs_ok_def distinct_map inj_on_def)
    with k lk ok l0 revs show ?thesis by (auto simp: revs_ok_def)
  qed
  moreover have "distinct (map rev_key (revisions d2))"
    using ok r by (auto simp: revs_ok_def d2 rev_key_def)
  moreover have "r_lib x \<in> l_id ` set (library d2)" if "x \<in> set (revisions d2)" for x
  proof -
    have "l_id ` set (library d2) = l_id ` set (library d)" using ids by (metis list.set_map)
    with that ok r l0(2) show ?thesis by (auto simp: revs_ok_def d2)
  qed
  ultimately show ?thesis using ok ids by (simp add: revs_ok_def)
qed

text \<open>What a library operation may do to the revisions: append to them, or nothing.\<close>

definition revs_grow :: "database \<Rightarrow> database \<Rightarrow> bool" where
  "revs_grow d d' \<longleftrightarrow> prefix (revisions d) (revisions d') \<and> (revs_ok d \<longrightarrow> revs_ok d')"

lemma revs_grow_refl [simp]: "revs_grow d d"
  by (simp add: revs_grow_def)

lemma revs_grow_create:
  assumes "insert_library orgID slug title category difficulty author tags now u d = Inr (c, d1)"
    and "insert_revision (uuid_text (l_id c)) 1 descMD scoring flgs connTpl createdBy now u' d1 = Inr (a, d2)"
  shows "revs_grow d d2"
  using assms(1) revs_ok_create [OF _ assms] insert_revision_Inr [OF assms(2) uuid_in_text]
  by (auto simp: revs_grow_def insert_library_Inr)

lemma revs_grow_new:
  assumes "bump_rev cid now u d = Inr (Some n, d1)"
    and "insert_revision cid n descMD scoring flgs connTpl createdBy now u' d1 = Inr (a, d2)"
  shows "revs_grow d d2"
  using bump_rev_Inr [OF assms(1)] revs_ok_new [OF _ assms] insert_revision_Inr [OF assms(2)]
  by (fastforce simp: revs_grow_def)

lemma CreateLibraryChallenge_grow:
  "wp (CreateLibraryChallenge orgID slug title category difficulty author tags descMD scoring flgs connTpl by)
     (\<lambda>r w'. revs_grow (db w) (db w')) w"
  unfolding CreateLibraryChallenge_def
  apply (rule wp_transaction)
   apply (rule wp_tx_try)
    apply (rule wp_tx_try)
     apply (auto dest: revs_grow_create)
  done

lemma NewRevision_grow:
  "wp (NewRevision cid descMD scoring flgs connTpl by) (\<lambda>r w'. revs_grow (db w) (db w')) w"
  unfolding NewRevision_def
  apply (rule wp_transaction)
   apply (rule wp_tx_try)
    apply (simp only: split: option.split)
    apply (intro conjI impI allI)
     apply (simp)
    apply (rule wp_tx_try)
     apply (auto dest: revs_grow_new)
  done

lemma wp_GetLibraryChallenge:
  assumes "\<And>r w'. undisturbed w w' \<Longrightarrow>
      (\<And>l. r = Inr l \<Longrightarrow> uuid_in cid = Some (l_id l) \<and> l \<in> set (library (db w))) \<Longrightarrow> Q r w'"
  shows "wp (GetLibraryChallenge cid) Q w"
  unfolding GetLibraryChallenge_def wp_bind
  by (rule wp_read; (intro quiet_intros)?)
     (auto simp: cast_uuid_def intro!: assms split: option.splits dest: find_SomeD)

lemma wp_GetRevision:
  assumes "\<And>x w'. undisturbed w w' \<Longrightarrow>
      (\<And>r. x = Inr r \<Longrightarrow> r \<in> set (revisions (db w)) \<and> (\<forall>lib. uuid_in cid = Some lib \<longrightarrow> rev_key r = (lib, n))) \<Longrightarrow>
      Q x w'"
  shows "wp (GetRevision cid n) Q w"
  unfolding GetRevision_def wp_bind
  by (rule wp_read)
     (auto simp: cast_uuid_def reads_def intro!: assms split: option.splits dest: find_SomeD)

lemma CloneChallenge_grow:
  "wp (CloneChallenge srcID newSlug newTitle by) (\<lambda>r w'. revs_grow (db w) (db w')) w"
  unfolding CloneChallenge_def wp_bind
  apply (rule wp_GetLibraryChallenge)
  apply (rule wp_sum, simp add: undisturbed_def)
  apply (simp only: wp_bind)
  apply (rule wp_GetRevision)
  apply (rule wp_sum, simp add: undisturbed_def)
  subgoal premises p for _ w1 _ _ w2
    using CreateLibraryChallenge_grow [where w = w2] undisturbedD(1) [OF p(1)] undisturbedD(1) [OF p(4)] by simp
  done

inductive library_step :: "world \<Rightarrow> world \<Rightarrow> bool" where
  Create: "run_state (CreateLibraryChallenge orgID slug title category difficulty author tags descMD
     scoring flgs connTpl userID) w = (r, w') \<Longrightarrow> library_step w w'"
| Revise: "run_state (NewRevision cid descMD scoring flgs connTpl userID) w = (r, w') \<Longrightarrow> library_step w w'"
| Clone: "run_state (CloneChallenge cid slug title userID) w = (r, w') \<Longrightarrow> library_step w w'"

lemma library_step_grow: "library_step w w' \<Longrightarrow> revs_grow (db w) (db w')"
  by (induction rule: library_step.induct)
     (auto dest: wpD [OF CreateLibraryChallenge_grow] wpD [OF NewRevision_grow] wpD [OF CloneChallenge_grow])

lemma revisions_grown:
  assumes "library_step\<^sup>*\<^sup>* w w'" and "revs_ok (db w)"
  shows "prefix (revisions (db w)) (revisions (db w')) \<and> revs_ok (db w')"
  using assms
proof (induction rule: rtranclp_induct)
  case base
  then show ?case by simp
next
  case (step w1 w2)
  then show ?case using library_step_grow [of w1 w2] by (auto simp: revs_grow_def)
qed

text \<open>
  C12. Revisions are immutable and numbered without a gap. After any number of creations, new
  revisions and clones, whatever failed on the way, every revision there was is still there and
  unchanged, and the revisions of each challenge are numbered from 1 to its current revision, each
  number once; so the current revision exists, and a new one never meets its own number.
\<close>

theorem revisions_history:
  assumes "library_step\<^sup>*\<^sup>* w w'" and "revs_ok (db w)"
  shows "prefix (revisions (db w)) (revisions (db w')) \<and> revs_ok (db w')"
  using revisions_grown [OF assms] .

definition demo_create :: "(world, store_error + lib_challenge) action" where
  "demo_create = CreateLibraryChallenge (uuid_text 1) ''web'' ''Web'' ''web'' None None [] [] None None None
     (uuid_text 2)"

definition demo_created :: world where
  "demo_created = snd (run_state demo_create demo_world)"

lemma demo_create_run:
  "run_state demo_create demo_world = (fst (run_state demo_create demo_world), demo_created)"
  by (simp add: demo_created_def)

lemma demo_created_revisions: "map rev_key (revisions (db demo_created)) = [(101, 1)]"
  unfolding demo_created_def demo_create_def
  by (simp add: CreateLibraryChallenge_def transaction_def run_simps call_defs demo_defs Let_def
      insert_library_def insert_revision_def exists_row_def fresh_key_def nilIfEmpty_def
      cast_uuid_opt_def rev_key_def int4_ok_def)

theorem revisions_history_witness:
  "map rev_key (revisions (db demo_created)) = [(101, 1)] \<and> revs_ok (db demo_created)"
proof -
  have "library_step demo_world demo_created"
    using Create [OF demo_create_run [unfolded demo_create_def]] by simp
  moreover have "revs_ok (db demo_world)"
    by (simp add: revs_ok_def demo_defs revs_of_def)
  ultimately show ?thesis
    using revisions_history [of demo_world demo_created] demo_created_revisions by blast
qed

subsection \<open>An embedded challenge has the flags of its revision\<close>

lemma decode_encode_rev_flags: "decode_rev_flags (encode_rev_flags fs) = fs"
proof -
  have "decode_struct False rev_flag_fields
      (JObj [(''hash'', JStr (rf_hash f)), (''case_sensitive'', JBool (rf_case f))]) zero_rev_flag = (f, True)" for f
    by (simp add: rev_flag_fields_def zero_rev_flag_def ascii_lower_def)
  then show ?thesis
    by (simp add: decode_rev_flags_def encode_rev_flags_def Let_def comp_def map_idI del: decode_struct.simps)
qed

interpretation rev_flags: codec encode_rev_flags "\<lambda>j. Some (decode_rev_flags j)"
  by unfold_locales (simp add: decode_encode_rev_flags)

definition flag_rows :: "uuid \<Rightarrow> rev_flag list \<Rightarrow> flag list" where
  "flag_rows ec fs = List.map_filter
     (\<lambda>f. map_option (\<lambda>h. \<lparr>fl_ec = ec, fl_hash = h, fl_case = rf_case f\<rparr>) (hex_decode (rf_hash f))) fs"

lemma flag_rows_simps [simp]:
  "flag_rows ec [] = []"
  "flag_rows ec (f # fs) =
     (case hex_decode (rf_hash f) of
        None \<Rightarrow> flag_rows ec fs
      | Some h \<Rightarrow> \<lparr>fl_ec = ec, fl_hash = h, fl_case = rf_case f\<rparr> # flag_rows ec fs)"
  by (simp_all add: flag_rows_def map_filter_simps split: option.split)

lemma wp_insert_flags:
  assumes "\<And>w'. db w' = (db w)\<lparr>flags := flags (db w) @ flag_rows ec fs\<rparr> \<Longrightarrow> wp k Q w'"
    and "\<And>e w'. Q (Rollback (Inl (Failed e))) w'"
  shows "wp (insert_flags now (uuid_text ec) fs k) Q w"
  using assms
proof (induction fs arbitrary: w)
  case Nil
  then show ?case by simp
next
  case (Cons f fs)
  show ?case
  proof (cases "hex_decode (rf_hash f)")
    case None
    then show ?thesis using Cons by simp
  next
    case (Some h)
    have "wp (tx_try now (insert_flag (uuid_text ec) h (rf_case f)) fail
        (\<lambda>_. insert_flags now (uuid_text ec) fs k)) Q w"
    proof (rule wp_tx_try)
      fix a d
      assume "insert_flag (uuid_text ec) h (rf_case f) now (uuids w 0) (db w) = Inr (a, d)"
      then have "d = (db w)\<lparr>flags := flags (db w) @ [\<lparr>fl_ec = ec, fl_hash = h, fl_case = rf_case f\<rparr>]\<rparr>"
        by (auto simp: insert_flag_def)
      then show "wp (insert_flags now (uuid_text ec) fs k) Q (tick w\<lparr>db := d\<rparr>)"
        using Cons.prems by (intro Cons.IH) (simp_all add: Some)
    qed (rule Cons.prems)
    then show ?thesis by (simp add: Some)
  qed
qed

definition embedded :: "uuid \<Rightarrow> revision \<Rightarrow> challenge \<Rightarrow> database \<Rightarrow> database \<Rightarrow> bool" where
  "embedded ev r c d d' \<longleftrightarrow> c_event c = ev \<and> c_id c \<notin> c_id ` set (challenges d) \<and>
     c_state c = ''draft'' \<and> c_scoring c = r_scoring r \<and> c_desc c = r_desc r \<and>
     c_lib c = Some (r_lib r) \<and> c_rev c = Some (r_rev r) \<and>
     d' = d\<lparr>challenges := challenges d @ [c], flags := flags d @ flag_rows (c_id c) (decode_rev_flags (r_flags r))\<rparr>"

definition embed_done :: "string \<Rightarrow> string \<Rightarrow> int \<Rightarrow> database \<Rightarrow> challenge \<Rightarrow> database \<Rightarrow> bool" where
  "embed_done eventID cid n d c d' \<longleftrightarrow>
     (\<exists>ev lib r. uuid_in eventID = Some ev \<and> uuid_in cid = Some (l_id lib) \<and>
        lib \<in> set (library d) \<and> r \<in> set (revisions d) \<and>
        rev_key r = (l_id lib, if n = 0 then l_rev lib else n) \<and> embedded ev r c d d')"

definition embed_outcome ::
  "string \<Rightarrow> string \<Rightarrow> int \<Rightarrow> database \<Rightarrow> store_error + challenge \<Rightarrow> database \<Rightarrow> bool"
where
  "embed_outcome eventID cid n d res d' \<longleftrightarrow>
     (case res of
        Inr c \<Rightarrow> embed_done eventID cid n d c d'
      | Inl e \<Rightarrow> d' = d \<or> (\<exists>c. embed_done eventID cid n d c d'))"

lemma insert_embedded_Inr:
  "insert_embedded eventID cid n lib r now u d = Inr (c, d') \<Longrightarrow> uuid_in cid = Some (l_id lib) \<Longrightarrow>
   rev_key r = (l_id lib, n) \<Longrightarrow>
   \<exists>ev. uuid_in eventID = Some ev \<and> d' = d\<lparr>challenges := challenges d @ [c]\<rparr> \<and>
     embedded ev r c d (d'\<lparr>flags := flags d @ flag_rows (c_id c) (decode_rev_flags (r_flags r))\<rparr>)"
  by (auto simp: insert_embedded_def insert_challenge_def embedded_def new_challenge_def fresh_key_iff
      rev_key_def)

lemma EmbedFromLibrary_wp:
  "wp (EmbedFromLibrary eventID cid n) (\<lambda>r w'. embed_outcome eventID cid n (db w) r (db w')) w"
  unfolding EmbedFromLibrary_def wp_bind
  apply (rule wp_GetLibraryChallenge)
  apply (rule wp_sum, simp add: undisturbed_def embed_outcome_def)
  apply (simp only: wp_bind Let_def)
  apply (rule wp_GetRevision)
  apply (rule wp_sum, simp add: undisturbed_def embed_outcome_def)
  subgoal premises p for x w1 lib y w2 r
  proof -
    have same: "db w2 = db w" using undisturbedD(1) [OF p(1)] undisturbedD(1) [OF p(4)] by simp
    have lib: "uuid_in cid = Some (l_id lib)" "lib \<in> set (library (db w))" using p(2,3) by auto
    have r: "r \<in> set (revisions (db w))" "rev_key r = (l_id lib, if n = 0 then l_rev lib else n)"
      using p(5) [OF p(6)] lib(1) undisturbedD(1) [OF p(1)] by simp_all
    let ?n = "if n = 0 then l_rev lib else n"
    have ok: "embed_done eventID cid n (db w) c
          (d1\<lparr>flags := flags d1 @ flag_rows (c_id c) (decode_rev_flags (r_flags r))\<rparr>)"
        "d1 = (db w)\<lparr>challenges := challenges (db w) @ [c]\<rparr>"
      if "insert_embedded eventID cid ?n lib r now u (db w) = Inr (c, d1)" for c d1 now u
    proof -
      from insert_embedded_Inr [OF that lib(1) r(2)] obtain ev where ev: "uuid_in eventID = Some ev"
          and d1: "d1 = (db w)\<lparr>challenges := challenges (db w) @ [c]\<rparr>"
          and emb: "embedded ev r c (db w) (d1\<lparr>flags := flags (db w) @ flag_rows (c_id c) (decode_rev_flags (r_flags r))\<rparr>)"
        by blast
      show "d1 = (db w)\<lparr>challenges := challenges (db w) @ [c]\<rparr>" by (rule d1)
      have "flags d1 = flags (db w)" by (simp add: d1)
      with ev lib r emb show "embed_done eventID cid n (db w) c
          (d1\<lparr>flags := flags d1 @ flag_rows (c_id c) (decode_rev_flags (r_flags r))\<rparr>)"
        unfolding embed_done_def by (metis (no_types))
    qed
    show ?thesis
      apply (rule wp_transaction)
       apply (rule wp_tx_try)
        apply (rule wp_insert_flags)
         apply (use same in \<open>auto dest!: ok(1) simp: embed_outcome_def\<close>)
      done
  qed
  done

end
