(* ===== verification/Bulk.thy ===== *)
theory Bulk
  imports Library
begin

text \<open>
  Bulk actions on the challenges of an event (\<open>internal/store/library.go\<close>): selecting them,
  applying an action with a snapshot for undoing it, and undoing it.
\<close>

subsection \<open>Parameters\<close>

text \<open>A \<open>map[string]any\<close>; a nil map is empty.\<close>

type_synonym any_map = "string \<rightharpoonup> json"

definition getStr :: "any_map \<Rightarrow> string \<Rightarrow> string" where
  "getStr m k = (case m k of Some (JStr s) \<Rightarrow> s | _ \<Rightarrow> [])"

definition json_strings :: "json list \<Rightarrow> string list" where
  "json_strings = List.map_filter (\<lambda>j. case j of JStr s \<Rightarrow> Some s | _ \<Rightarrow> None)"

text \<open>\<open>None\<close> is the nil slice, which is NULL in a statement.\<close>

definition getStrSlice :: "any_map \<Rightarrow> string \<Rightarrow> string list option" where
  "getStrSlice m k = (case m k of Some (JArr js) \<Rightarrow> Some (json_strings js) | _ \<Rightarrow> None)"

definition getRawJSON :: "any_map \<Rightarrow> string \<Rightarrow> json option" where
  "getRawJSON m k = m k"

subsection \<open>Selecting\<close>

text \<open>The conditions of the query built from the filter.\<close>

definition no_block :: "json \<Rightarrow> bool" where
  "no_block j \<longleftrightarrow> (case j of JStr s \<Rightarrow> s = ''none'' \<or> s = [] | _ \<Rightarrow> True)"

definition block_condition ::
  "any_map \<Rightarrow> ((challenge \<Rightarrow> bool) \<Rightarrow> sql_error + 'a) \<Rightarrow> sql_error + 'a"
where
  "block_condition flt k =
     (case flt ''block_id'' of
        None \<Rightarrow> k (\<lambda>_. True)
      | Some j \<Rightarrow>
          if no_block j then k (\<lambda>c. c_block c = None)
          else cast_uuid (getStr flt ''block_id'') (\<lambda>b. k (\<lambda>c. c_block c = Some b)))"

definition select_challenges :: "string \<Rightarrow> any_map \<Rightarrow> string list stmt" where
  "select_challenges eventID flt now u d =
     cast_uuid eventID (\<lambda>ev. block_condition flt (\<lambda>in_block.
       let state = getStr flt ''state''; category = getStr flt ''category'';
           tags = (case getStrSlice flt ''tags'' of None \<Rightarrow> [] | Some ts \<Rightarrow> ts)
       in Inr (map (\<lambda>c. uuid_text (c_id c)) (filter (\<lambda>c. c_event c = ev \<and>
            (state \<noteq> [] \<longrightarrow> c_state c = state) \<and> (category \<noteq> [] \<longrightarrow> c_category c = category) \<and>
            in_block c \<and> list_all (List.member (c_tags c)) tags) (challenges d)), d)))"

definition ResolveSelector ::
  "string \<Rightarrow> string \<Rightarrow> string list \<Rightarrow> any_map \<Rightarrow> string list \<Rightarrow> (world, store_error + string list) action"
where
  "ResolveSelector eventID mode ids flt exclude =
     (let rest = filter (\<lambda>i. \<not> List.member exclude i)
      in if mode = ''ids'' then ret (Inr (rest ids))
         else or_fail (select_challenges eventID flt) (\<lambda>candidate. ret (Inr (rest candidate))))"

subsection \<open>Snapshots\<close>

record snap_row =
  sr_id :: string
  sr_state :: string
  sr_block :: "string option"
  sr_tags :: "string list"

definition snap_of :: "challenge \<Rightarrow> snap_row" where
  "snap_of c = \<lparr>sr_id = uuid_text (c_id c), sr_state = c_state c,
     sr_block = map_option uuid_text (c_block c), sr_tags = c_tags c\<rparr>"

definition encode_row :: "snap_row \<Rightarrow> json" where
  "encode_row r = JObj [(''id'', JStr (sr_id r)), (''state'', JStr (sr_state r)),
     (''block_id'', (case sr_block r of None \<Rightarrow> JNull | Some b \<Rightarrow> JStr b)),
     (''tags'', JArr (map JStr (sr_tags r)))]"

text \<open>A nil slice is marshalled as \<open>null\<close>.\<close>

definition encode_snap :: "snap_row list \<Rightarrow> json" where
  "encode_snap rows = (if rows = [] then JNull else JArr (map encode_row rows))"

definition zero_row :: snap_row where
  "zero_row = \<lparr>sr_id = [], sr_state = [], sr_block = None, sr_tags = []\<rparr>"

definition snap_fields :: "(string \<times> snap_row setter) list" where
  "snap_fields =
     [(''id'', set_string (\<lambda>x r. r\<lparr>sr_id := x\<rparr>)),
      (''state'', set_string (\<lambda>x r. r\<lparr>sr_state := x\<rparr>)),
      (''block_id'', set_string_ptr (\<lambda>x r. r\<lparr>sr_block := x\<rparr>)),
      (''tags'', set_slice [] (set_string (\<lambda>s _. s)) (\<lambda>xs r. r\<lparr>sr_tags := xs\<rparr>))]"

definition decode_snap :: "json \<Rightarrow> snap_row list option" where
  "decode_snap j =
     (case set_slice zero_row (decode_struct False snap_fields) (\<lambda>xs _. xs) j [] of (rows, ok) \<Rightarrow>
        if ok then Some rows else None)"

definition snapshot :: "string list \<Rightarrow> json stmt" where
  "snapshot ecIDs now u d = cast_uuids ecIDs (\<lambda>ids.
     Inr (encode_snap (map snap_of (filter (\<lambda>c. c_id c \<in> set ids) (challenges d))), d))"

subsection \<open>Applying\<close>

definition update_ids :: "(challenge \<Rightarrow> challenge) \<Rightarrow> string list \<Rightarrow> nat stmt" where
  "update_ids f ecIDs now u d = cast_uuids ecIDs (\<lambda>ids.
     Inr (count_where (\<lambda>c. c_id c \<in> set ids) (challenges d),
          d\<lparr>challenges := update_where (\<lambda>c. c_id c \<in> set ids) f (challenges d)\<rparr>))"

text \<open>The block must be there if a row refers to it.\<close>

definition assign_block :: "string option \<Rightarrow> string list \<Rightarrow> nat stmt" where
  "assign_block blockID ecIDs now u d =
     cast_uuid_opt blockID (\<lambda>b. cast_uuids ecIDs (\<lambda>ids.
       require (case b of None \<Rightarrow> True | Some k \<Rightarrow> exists_row k_id k (blocks d) \<or>
                  count_where (\<lambda>c. c_id c \<in> set ids) (challenges d) = 0) ForeignKeyViolation (
       update_ids (\<lambda>c. c\<lparr>c_block := b\<rparr>) ecIDs now u d)))"

text \<open>
  \<open>SELECT DISTINCT e FROM unnest(tags || $1)\<close>: each tag once (in an order of the server's
  choice, here that of the first occurrence). With \<open>$1\<close> NULL, the concatenation is \<open>tags\<close>.
\<close>

definition add_tags :: "string list option \<Rightarrow> string list \<Rightarrow> string list" where
  "add_tags new tags = remdups (tags @ (case new of None \<Rightarrow> [] | Some ts \<Rightarrow> ts))"

text \<open>\<open>e <> ALL($1)\<close>, which is not true of any \<open>e\<close> when \<open>$1\<close> is NULL.\<close>

definition remove_tags :: "string list option \<Rightarrow> string list \<Rightarrow> string list" where
  "remove_tags gone tags =
     (case gone of None \<Rightarrow> [] | Some ts \<Rightarrow> filter (\<lambda>e. \<not> List.member ts e) tags)"

text \<open>Deleting a challenge deletes what belongs to it.\<close>

definition drop_challenges :: "uuid list \<Rightarrow> database \<Rightarrow> database" where
  "drop_challenges ids d =
     d\<lparr>challenges := filter (\<lambda>c. c_id c \<notin> set ids) (challenges d),
       flags := filter (\<lambda>f. fl_ec f \<notin> set ids) (flags d),
       submissions := filter (\<lambda>s. sb_ec s \<notin> set ids) (submissions d),
       instances := filter (\<lambda>i. i_ec i \<notin> set ids) (instances d),
       files := filter (\<lambda>f. f_ec f \<notin> set ids) (files d)\<rparr>"

definition delete_ids :: "string list \<Rightarrow> nat stmt" where
  "delete_ids ecIDs now u d = cast_uuids ecIDs (\<lambda>ids.
     Inr (count_where (\<lambda>c. c_id c \<in> set ids) (challenges d), drop_challenges ids d))"

definition bulk_change :: "string \<Rightarrow> any_map \<Rightarrow> string list \<Rightarrow> nat stmt option" where
  "bulk_change action params ecIDs =
     (if action = ''publish'' then Some (update_ids (\<lambda>c. c\<lparr>c_state := ''published''\<rparr>) ecIDs)
      else if action = ''hide'' then Some (update_ids (\<lambda>c. c\<lparr>c_state := ''hidden''\<rparr>) ecIDs)
      else if action = ''archive'' then Some (update_ids (\<lambda>c. c\<lparr>c_state := ''archived''\<rparr>) ecIDs)
      else if action = ''set_state'' then
        Some (update_ids (\<lambda>c. c\<lparr>c_state := getStr params ''state''\<rparr>) ecIDs)
      else if action = ''assign_block'' then
        Some (assign_block (nilIfEmpty (getStr params ''block_id'')) ecIDs)
      else if action = ''add_tags'' then
        Some (update_ids (\<lambda>c. c\<lparr>c_tags := add_tags (getStrSlice params ''tags'') (c_tags c)\<rparr>) ecIDs)
      else if action = ''remove_tags'' then
        Some (update_ids (\<lambda>c. c\<lparr>c_tags := remove_tags (getStrSlice params ''tags'') (c_tags c)\<rparr>) ecIDs)
      else if action = ''set_schedule'' then
        Some (update_ids (\<lambda>c. c\<lparr>c_schedule := getRawJSON params ''schedule''\<rparr>) ecIDs)
      else if action = ''delete'' then Some (delete_ids ecIDs)
      else None)"

definition insert_job :: "string \<Rightarrow> string option \<Rightarrow> string \<Rightarrow> nat \<Rightarrow> json option \<Rightarrow> string stmt" where
  "insert_job eventID actorID action affected undo now u d =
     cast_uuid eventID (\<lambda>ev. cast_uuid_opt actorID (\<lambda>actor.
       require (fresh_key j_id u (bulk_jobs d)) UniqueViolation (
       require (exists_row e_id ev (events d)) ForeignKeyViolation (
       Inr (uuid_text u, d\<lparr>bulk_jobs := bulk_jobs d @
         [\<lparr>j_id = u, j_event = ev, j_actor = actor, j_action = action, j_affected = int affected,
           j_undo = undo, j_undone = False\<rparr>]\<rparr>)))))"

definition insert_audit :: "string \<Rightarrow> string option \<Rightarrow> string \<Rightarrow> string \<Rightarrow> json \<Rightarrow> unit stmt" where
  "insert_audit eventID actorID action target meta now u d =
     cast_uuid eventID (\<lambda>ev. cast_uuid_opt actorID (\<lambda>actor.
       Inr ((), d\<lparr>audit_log := audit_log d @
         [\<lparr>a_event = ev, a_actor = actor, a_action = action, a_target = target, a_meta = meta\<rparr>]\<rparr>)))"

definition bulk_meta :: "string \<Rightarrow> nat \<Rightarrow> string list \<Rightarrow> json" where
  "bulk_meta action affected ecIDs =
     JObj [(''action'', JStr action), (''affected'', JInt (int affected)),
           (''count'', JInt (int (length ecIDs)))]"

text \<open>The snapshot is taken first, unless the action is to delete.\<close>

definition with_snapshot ::
  "instant \<Rightarrow> string \<Rightarrow> string list \<Rightarrow> (json option \<Rightarrow> (world, 'b tx_end) action) \<Rightarrow> (world, 'b tx_end) action"
where
  "with_snapshot now action ecIDs k =
     (if action = ''delete'' then k None
      else tx_try now (snapshot ecIDs) fail (\<lambda>snap. k (Some snap)))"

definition BulkApply ::
  "string \<Rightarrow> string \<Rightarrow> string \<Rightarrow> any_map \<Rightarrow> string list \<Rightarrow> (world, store_error + string \<times> nat) action"
where
  "BulkApply eventID actorID action params ecIDs =
     (if ecIDs = [] then ret (Inr ([], 0))
      else transaction (\<lambda>now.
        with_snapshot now action ecIDs (\<lambda>undo.
        case bulk_change action params ecIDs of
          None \<Rightarrow> ret (Rollback (fail (Message ''unknown bulk action'')))
        | Some st \<Rightarrow>
            tx_try now st fail (\<lambda>affected.
            tx_try now (insert_job eventID (nilIfEmpty actorID) action affected undo) fail (\<lambda>jobID.
            tx_try now (insert_audit eventID (nilIfEmpty actorID) (''bulk:'' @ action) jobID
              (bulk_meta action affected ecIDs)) fail (\<lambda>_.
            ret (Commit (jobID, affected))))))))"

subsection \<open>Undoing\<close>

definition restore_row :: "snap_row \<Rightarrow> unit stmt" where
  "restore_row r now u d =
     cast_uuid (sr_id r) (\<lambda>ec. cast_uuid_opt (sr_block r) (\<lambda>b.
       require (case b of None \<Rightarrow> True | Some k \<Rightarrow> exists_row k_id k (blocks d) \<or>
                  \<not> exists_row c_id ec (challenges d)) ForeignKeyViolation (
       Inr ((), d\<lparr>challenges := update_where (\<lambda>c. c_id c = ec)
         (\<lambda>c. c\<lparr>c_state := sr_state r, c_block := b, c_tags := sr_tags r\<rparr>) (challenges d)\<rparr>))))"

fun restore_rows ::
  "instant \<Rightarrow> snap_row list \<Rightarrow> nat \<Rightarrow> (nat \<Rightarrow> (world, 'b tx_end) action) \<Rightarrow> (world, 'b tx_end) action"
where
  "restore_rows now [] n k = k n"
| "restore_rows now (r # rs) n k =
     tx_try now (restore_row r) fail (\<lambda>_. restore_rows now rs (n + 1) k)"

definition mark_undone :: "string \<Rightarrow> unit stmt" where
  "mark_undone jobID now u d = cast_uuid jobID (\<lambda>j.
     Inr ((), d\<lparr>bulk_jobs := update_where (\<lambda>x. j_id x = j) (\<lambda>x. x\<lparr>j_undone := True\<rparr>) (bulk_jobs d)\<rparr>))"

definition BulkUndo :: "string \<Rightarrow> (world, store_error + nat) action" where
  "BulkUndo jobID = do {
     r \<leftarrow> db_call (\<lambda>now u d. cast_uuid jobID (\<lambda>j.
       Inr (map_option (\<lambda>x. (j_undo x, j_undone x)) (find (\<lambda>x. j_id x = j) (bulk_jobs d)), d)));
     (case row_or_not_found r of
        Inl e \<Rightarrow> ret (Inl e)
      | Inr (raw, undone) \<Rightarrow>
          (case (if undone then None else raw) of
             None \<Rightarrow> ret (Inl Conflict)
           | Some j \<Rightarrow>
               (case decode_snap j of
                  None \<Rightarrow> ret (fail (Message ''bad snapshot''))
                | Some snap \<Rightarrow>
                    transaction (\<lambda>now.
                      restore_rows now snap 0 (\<lambda>n.
                      tx_try now (mark_undone jobID) fail (\<lambda>_. ret (Commit n)))))))
   }"

subsection \<open>Snapshots can be read back\<close>

lemma decode_encode_row: "decode_struct False snap_fields (encode_row r) zero_row = (r, True)"
proof -
  have strings: "list_all (\<lambda>j. snd (set_string (\<lambda>s _. s) j ([] :: string))) (map JStr ts) \<and>
      map (\<lambda>j. fst (set_string (\<lambda>s _. s) j ([] :: string))) (map JStr ts) = ts" for ts
    by (induction ts) auto
  show ?thesis
    using strings [of "sr_tags r"]
    by (cases "sr_block r")
       (auto simp: encode_row_def snap_fields_def zero_row_def ascii_lower_def comp_def list_all_iff
          prefix_def Let_def)
qed

lemma decode_encode_snap: "decode_snap (encode_snap rows) = Some rows"
  by (simp add: decode_snap_def encode_snap_def Let_def comp_def decode_encode_row list_all_iff
      map_idI del: decode_struct.simps)

interpretation snapshots: codec encode_snap decode_snap
  by unfold_locales (rule decode_encode_snap)

subsection \<open>What an action does\<close>

lemma update_ids_Inr:
  "update_ids f ecIDs now u d = Inr (n, d') \<Longrightarrow> map uuid_in ecIDs = map Some ids \<Longrightarrow>
   d' = d\<lparr>challenges := update_where (\<lambda>c. c_id c \<in> set ids) f (challenges d)\<rparr>"
  by (auto simp: update_ids_def cast_uuids_Inr inj_map_eq_map)

lemma assign_block_Inr:
  "assign_block b ecIDs now u d = Inr (n, d') \<Longrightarrow>
   \<exists>k. update_ids (\<lambda>c. c\<lparr>c_block := k\<rparr>) ecIDs now u d = Inr (n, d')"
  by (auto simp: assign_block_def cast_uuids_Inr cast_uuid_opt_Inr split: option.splits)

lemma bulk_change_effect:
  assumes "bulk_change action params ecIDs = Some st" and "st now u d = Inr (n, d')"
    and "map uuid_in ecIDs = map Some ids"
  shows "if action = ''delete'' then d' = drop_challenges ids d
     else \<exists>f. (\<forall>c. c_id (f c) = c_id c) \<and>
       d' = d\<lparr>challenges := update_where (\<lambda>c. c_id c \<in> set ids) f (challenges d)\<rparr>"
proof -
  have upd: "\<exists>f. (\<forall>c. c_id (f c) = c_id c) \<and>
       d' = d\<lparr>challenges := update_where (\<lambda>c. c_id c \<in> set ids) f (challenges d)\<rparr>"
    if "update_ids f ecIDs now u d = Inr (n, d')" "\<And>c. c_id (f c) = c_id c" for f
    using update_ids_Inr [OF that(1) assms(3)] that(2) by blast
  have blk: "\<exists>f. (\<forall>c. c_id (f c) = c_id c) \<and>
       d' = d\<lparr>challenges := update_where (\<lambda>c. c_id c \<in> set ids) f (challenges d)\<rparr>"
    if "assign_block b ecIDs now u d = Inr (n, d')" for b
    using assign_block_Inr [OF that] upd by fastforce
  have del: "d' = drop_challenges ids d" if "delete_ids ecIDs now u d = Inr (n, d')"
    using that assms(3) by (auto simp: delete_ids_def cast_uuids_Inr inj_map_eq_map)
  show ?thesis
    using assms(1,2) unfolding bulk_change_def
    by (auto split: if_split_asm dest: del blk intro: upd)
qed

definition bulk_done ::
  "string \<Rightarrow> any_map \<Rightarrow> string list \<Rightarrow> database \<Rightarrow> string \<times> nat \<Rightarrow> database \<Rightarrow> bool"
where
  "bulk_done action params ecIDs d res d' \<longleftrightarrow>
     (\<exists>ids st now u d1 job aud. map uuid_in ecIDs = map Some ids \<and>
        bulk_change action params ecIDs = Some st \<and> st now u d = Inr (snd res, d1) \<and>
        fst res = uuid_text (j_id job) \<and> fresh_key j_id (j_id job) (bulk_jobs d) \<and> \<not> j_undone job \<and>
        j_undo job = (if action = ''delete'' then None
          else Some (encode_snap (map snap_of (filter (\<lambda>c. c_id c \<in> set ids) (challenges d))))) \<and>
        d' = d1\<lparr>bulk_jobs := bulk_jobs d @ [job], audit_log := audit_log d @ [aud]\<rparr>)"

definition bulk_outcome ::
  "string \<Rightarrow> any_map \<Rightarrow> string list \<Rightarrow> database \<Rightarrow> store_error + string \<times> nat \<Rightarrow> database \<Rightarrow> bool"
where
  "bulk_outcome action params ecIDs d r d' \<longleftrightarrow>
     (case r of
        Inr res \<Rightarrow> (if ecIDs = [] then res = ([], 0) \<and> d' = d else bulk_done action params ecIDs d res d')
      | Inl e \<Rightarrow> d' = d \<or> (\<exists>res. bulk_done action params ecIDs d res d'))"

lemma bulk_change_cast:
  "bulk_change action params ecIDs = Some st \<Longrightarrow> st now u d = Inr (n, d') \<Longrightarrow>
   \<exists>ids. map uuid_in ecIDs = map Some ids"
  unfolding bulk_change_def
  by (auto simp: update_ids_def delete_ids_def assign_block_def cast_uuids_Inr cast_uuid_opt_Inr
      split: if_split_asm option.splits)

lemma insert_job_Inr:
  assumes "insert_job eventID actorID action n undo now u d = Inr (jid, d')"
  shows "\<exists>job. jid = uuid_text (j_id job) \<and> fresh_key j_id (j_id job) (bulk_jobs d) \<and> \<not> j_undone job \<and>
     j_undo job = undo \<and> d' = d\<lparr>bulk_jobs := bulk_jobs d @ [job]\<rparr>"
proof -
  from assms obtain ev who where "fresh_key j_id u (bulk_jobs d)" "jid = uuid_text u"
    "d' = d\<lparr>bulk_jobs := bulk_jobs d @ [\<lparr>j_id = u, j_event = ev, j_actor = who, j_action = action,
        j_affected = int n, j_undo = undo, j_undone = False\<rparr>]\<rparr>"
    by (auto simp: insert_job_def cast_uuid_opt_Inr split: option.splits)
  then show ?thesis
    by (intro exI [of _ "\<lparr>j_id = u, j_event = ev, j_actor = who, j_action = action,
        j_affected = int n, j_undo = undo, j_undone = False\<rparr>"]) simp
qed

lemma insert_audit_Inr:
  "insert_audit eventID actorID action target meta now u d = Inr (a, d') \<Longrightarrow>
   \<exists>aud. d' = d\<lparr>audit_log := audit_log d @ [aud]\<rparr>"
  by (auto simp: insert_audit_def cast_uuid_opt_Inr split: option.splits)

lemma drop_challenges_other [simp]:
  "bulk_jobs (drop_challenges ids d) = bulk_jobs d" "audit_log (drop_challenges ids d) = audit_log d"
  "score_events (drop_challenges ids d) = score_events d" "board (drop_challenges ids d) = board d"
  "library (drop_challenges ids d) = library d" "revisions (drop_challenges ids d) = revisions d"
  by (simp_all add: drop_challenges_def)

lemma bulk_change_other:
  assumes "bulk_change action params ecIDs = Some st" and "st now u d = Inr (n, d')"
  shows "bulk_jobs d' = bulk_jobs d" "audit_log d' = audit_log d"
proof -
  from bulk_change_cast [OF assms] obtain ids where "map uuid_in ecIDs = map Some ids" by blast
  from bulk_change_effect [OF assms this] show "bulk_jobs d' = bulk_jobs d" "audit_log d' = audit_log d"
    by (auto split: if_split_asm)
qed

lemma bulk_doneI:
  assumes "bulk_change action params ecIDs = Some st" and "st now u d = Inr (n, d1)"
    and "insert_job eventID actorID action n undo now u' d1 = Inr (jid, d2)"
    and "insert_audit eventID actorID act jid meta now u'' d2 = Inr (a, d3)"
    and "action \<noteq> ''delete'' \<Longrightarrow> \<exists>snap x. snapshot ecIDs now x d = Inr (snap, d) \<and> undo = Some snap"
    and "action = ''delete'' \<Longrightarrow> undo = None"
  shows "bulk_done action params ecIDs d (jid, n) d3"
proof -
  from bulk_change_cast [OF assms(1,2)] obtain ids where ids: "map uuid_in ecIDs = map Some ids" by blast
  from insert_job_Inr [OF assms(3)] obtain job
    where job: "jid = uuid_text (j_id job)" "fresh_key j_id (j_id job) (bulk_jobs d)" "\<not> j_undone job"
        "j_undo job = undo" "d2 = d1\<lparr>bulk_jobs := bulk_jobs d @ [job]\<rparr>"
    by (auto simp: bulk_change_other [OF assms(1,2)])
  from insert_audit_Inr [OF assms(4)] job(5) obtain aud
    where d3: "d3 = d1\<lparr>bulk_jobs := bulk_jobs d @ [job], audit_log := audit_log d @ [aud]\<rparr>"
    by (auto simp: bulk_change_other [OF assms(1,2)])
  have "undo = (if action = ''delete'' then None
      else Some (encode_snap (map snap_of (filter (\<lambda>c. c_id c \<in> set ids) (challenges d)))))"
    using assms(5,6) ids by (auto simp: snapshot_def cast_uuids_Inr inj_map_eq_map)
  with ids job d3 assms(1,2) show ?thesis
    unfolding bulk_done_def fst_conv snd_conv by metis
qed

lemma wp_with_snapshot:
  assumes "\<And>undo w'. db w' = db w \<Longrightarrow>
      (action \<noteq> ''delete'' \<Longrightarrow> \<exists>snap x. snapshot ecIDs now x (db w) = Inr (snap, db w) \<and> undo = Some snap) \<Longrightarrow>
      (action = ''delete'' \<Longrightarrow> undo = None) \<Longrightarrow> wp (k undo) Q w'"
    and "\<And>e w'. Q (Rollback (Inl (Failed e))) w'"
  shows "wp (with_snapshot now action ecIDs k) Q w"
proof (cases "action = ''delete''")
  case True
  then show ?thesis using assms(1) [of w None] by (simp add: with_snapshot_def)
next
  case False
  have "wp (tx_try now (snapshot ecIDs) fail (\<lambda>snap. k (Some snap))) Q w"
  proof (rule wp_tx_try)
    fix snap d
    assume "snapshot ecIDs now (uuids w 0) (db w) = Inr (snap, d)"
    moreover from this have "d = db w" by (auto simp: snapshot_def cast_uuids_Inr)
    ultimately show "wp (k (Some snap)) Q (tick w\<lparr>db := d\<rparr>)"
      using False by (intro assms(1)) auto
  qed (rule assms(2))
  with False show ?thesis by (simp add: with_snapshot_def)
qed

lemma BulkApply_wp:
  "wp (BulkApply eventID actorID action params ecIDs)
     (\<lambda>r w'. bulk_outcome action params ecIDs (db w) r (db w')) w"
proof (cases "ecIDs = []")
  case True
  then show ?thesis by (simp add: BulkApply_def bulk_outcome_def)
next
  case False
  show ?thesis
    unfolding BulkApply_def
    apply (simp only: False if_False)
    apply (rule wp_transaction)
     apply (rule wp_with_snapshot)
      apply (simp only: split: option.split)
      apply (intro conjI impI allI)
       apply (simp add: bulk_outcome_def)
      apply (rule wp_tx_try)
       apply (rule wp_tx_try)
        apply (rule wp_tx_try)
    subgoal premises p for undo w1 st n d1 jid d2 a d3
    proof -
      have "bulk_done action params ecIDs (db w) (jid, n) d3"
        by (rule bulk_doneI [OF p(4) p(5) [unfolded p(1) tick_simps] p(6,7) [simplified]])
          (use p(2,3) in simp_all)
      then show ?thesis by (auto simp: bulk_outcome_def False)
    qed
        apply (simp_all add: bulk_outcome_def)
    done
qed

subsection \<open>What undoing restores\<close>

text \<open>The columns a snapshot holds.\<close>

definition core :: "challenge \<Rightarrow> uuid \<times> string \<times> uuid option \<times> string list" where
  "core c = (c_id c, c_state c, c_block c, c_tags c)"

definition set_core :: "challenge \<Rightarrow> challenge \<Rightarrow> challenge" where
  "set_core c0 c = (if c_id c = c_id c0
     then c\<lparr>c_state := c_state c0, c_block := c_block c0, c_tags := c_tags c0\<rparr> else c)"

lemma set_core_id [simp]: "c_id (set_core c0 c) = c_id c"
  by (simp add: set_core_def)

lemma core_set_core: "core (set_core c0 c) = (if c_id c = c_id c0 then core c0 else core c)"
  by (simp add: set_core_def core_def)

lemma restore_row_Inr:
  assumes "restore_row (snap_of c0) now u d = Inr (a, d')"
  shows "d' = d\<lparr>challenges := map (set_core c0) (challenges d)\<rparr>"
proof -
  have "update_where (\<lambda>c. c_id c = c_id c0)
      (\<lambda>c. c\<lparr>c_state := c_state c0, c_block := c_block c0, c_tags := c_tags c0\<rparr>) cs = map (set_core c0) cs" for cs
    by (simp add: update_where_def set_core_def [abs_def])
  with assms show ?thesis
    by (auto simp: restore_row_def snap_of_def cast_uuid_opt_Inr uuid_in_text split: option.splits)
qed

lemma wp_restore_rows:
  assumes "\<And>w'. (\<And>cs. rs = map snap_of cs \<Longrightarrow>
        db w' = (db w)\<lparr>challenges := map (fold set_core cs) (challenges (db w))\<rparr>) \<Longrightarrow>
      wp (k (n + length rs)) Q w'"
    and "\<And>e w'. Q (Rollback (Inl (Failed e))) w'"
  shows "wp (restore_rows now rs n k) Q w"
  using assms
proof (induction rs arbitrary: w n)
  case Nil
  show ?case using Nil.prems(1) [of w] by simp
next
  case (Cons r rs)
  have "wp (restore_rows now rs (n + 1) k) Q (tick w\<lparr>db := d\<rparr>)"
    if d: "restore_row r now (uuids w 0) (db w) = Inr (a, d)" for a d
  proof (rule Cons.IH)
    fix w' :: world
    assume IH: "\<And>cs. rs = map snap_of cs \<Longrightarrow> db w' = (db (tick w\<lparr>db := d\<rparr>))
        \<lparr>challenges := map (fold set_core cs) (challenges (db (tick w\<lparr>db := d\<rparr>)))\<rparr>"
    have "db w' = (db w)\<lparr>challenges := map (fold set_core cs) (challenges (db w))\<rparr>"
      if cs: "r # rs = map snap_of cs" for cs
    proof -
      from cs obtain c0 cs' where c: "cs = c0 # cs'" "r = snap_of c0" "rs = map snap_of cs'"
        by (cases cs) auto
      then show ?thesis
        using IH [OF c(3)] restore_row_Inr [OF d [unfolded c(2)]] by (simp add: comp_def)
    qed
    then show "wp (k (n + 1 + length rs)) Q w'" using Cons.prems(1) [of w'] by simp
  qed (rule Cons.prems(2))
  then show ?case
    unfolding restore_rows.simps by (intro wp_tx_try) (simp_all add: Cons.prems(2))
qed

definition undo_done :: "string \<Rightarrow> database \<Rightarrow> nat \<Rightarrow> database \<Rightarrow> bool" where
  "undo_done jobID d n d' \<longleftrightarrow>
     (\<exists>x doc rows. uuid_in jobID = Some (j_id x) \<and> find (\<lambda>y. j_id y = j_id x) (bulk_jobs d) = Some x \<and>
        \<not> j_undone x \<and> j_undo x = Some doc \<and> decode_snap doc = Some rows \<and> n = length rows \<and>
        (\<forall>cs. rows = map snap_of cs \<longrightarrow>
          d' = d\<lparr>challenges := map (fold set_core cs) (challenges d),
                 bulk_jobs := update_where (\<lambda>y. j_id y = j_id x) (\<lambda>y. y\<lparr>j_undone := True\<rparr>) (bulk_jobs d)\<rparr>))"

definition undo_outcome :: "string \<Rightarrow> database \<Rightarrow> store_error + nat \<Rightarrow> database \<Rightarrow> bool" where
  "undo_outcome jobID d r d' \<longleftrightarrow>
     (case r of Inr n \<Rightarrow> undo_done jobID d n d' | Inl e \<Rightarrow> d' = d \<or> (\<exists>n. undo_done jobID d n d'))"

lemma mark_undone_Inr:
  "mark_undone jobID now u d = Inr (a, d') \<Longrightarrow> uuid_in jobID = Some j \<Longrightarrow>
   d' = d\<lparr>bulk_jobs := update_where (\<lambda>y. j_id y = j) (\<lambda>y. y\<lparr>j_undone := True\<rparr>) (bulk_jobs d)\<rparr>"
  by (auto simp: mark_undone_def)

lemma undo_transaction:
  assumes "uuid_in jobID = Some (j_id x)" "find (\<lambda>y. j_id y = j_id x) (bulk_jobs (db w)) = Some x"
    "\<not> j_undone x" "j_undo x = Some doc" "decode_snap doc = Some rows"
  shows "wp (transaction (\<lambda>now. restore_rows now rows 0 (\<lambda>n.
            tx_try now (mark_undone jobID) fail (\<lambda>_. ret (Commit n)))))
     (\<lambda>r w'. undo_outcome jobID (db w) r (db w')) w"
proof (rule wp_transaction, rule wp_restore_rows, rule wp_tx_try, goal_cases)
  case (1 w1 a d)
  have "d = (db w)\<lparr>challenges := map (fold set_core cs) (challenges (db w)),
      bulk_jobs := update_where (\<lambda>y. j_id y = j_id x) (\<lambda>y. y\<lparr>j_undone := True\<rparr>) (bulk_jobs (db w))\<rparr>"
    if "rows = map snap_of cs" for cs
    using mark_undone_Inr [OF 1(2) assms(1)] 1(1) [OF that] by simp
  then have "undo_done jobID (db w) (length rows) d"
    using assms unfolding undo_done_def by blast
  then show ?case by (auto simp: undo_outcome_def)
qed (simp_all add: undo_outcome_def)

lemma BulkUndo_wp:
  "wp (BulkUndo jobID) (\<lambda>r w'. undo_outcome jobID (db w) r (db w')) w"
  unfolding BulkUndo_def wp_bind
proof (rule wp_read; (intro quiet_intros)?)
  fix r w1
  assume u: "undisturbed w w1" and r: "r = map_sum (\<lambda>e. e) fst (cast_uuid jobID (\<lambda>j.
       Inr (map_option (\<lambda>x. (j_undo x, j_undone x)) (find (\<lambda>x. j_id x = j) (bulk_jobs (db w))), db w))) \<or>
       \<not> reliable w \<and> r = Inl ConnError"
  have same: "undo_outcome jobID (db w) (Inl e) (db w1)" for e
    using undisturbedD(1) [OF u] by (simp add: undo_outcome_def)
  show "wp (case row_or_not_found r of
        Inl e \<Rightarrow> ret (Inl e)
      | Inr (raw, undone) \<Rightarrow>
          (case (if undone then None else raw) of
             None \<Rightarrow> ret (Inl Conflict)
           | Some j \<Rightarrow>
               (case decode_snap j of
                  None \<Rightarrow> ret (fail (Message ''bad snapshot''))
                | Some snap \<Rightarrow>
                    transaction (\<lambda>now.
                      restore_rows now snap 0 (\<lambda>n.
                      tx_try now (mark_undone jobID) fail (\<lambda>_. ret (Commit n)))))))
     (\<lambda>r w'. undo_outcome jobID (db w) r (db w')) w1"
  proof (cases "row_or_not_found r")
    case (Inl e)
    then show ?thesis using same by simp
  next
    case (Inr p)
    then have "r = Inr (Some p)" by simp
    with r obtain j where j: "uuid_in jobID = Some j"
        "map_option (\<lambda>x. (j_undo x, j_undone x)) (find (\<lambda>x. j_id x = j) (bulk_jobs (db w))) = Some p"
      by (auto simp: cast_uuid_def eq_commute [of "Some p" "map_option f x" for f x] split: option.splits)
    then obtain x where "find (\<lambda>x. j_id x = j) (bulk_jobs (db w)) = Some x" "p = (j_undo x, j_undone x)"
      by auto
    with j(1) have x: "uuid_in jobID = Some (j_id x)"
        "find (\<lambda>y. j_id y = j_id x) (bulk_jobs (db w1)) = Some x" "p = (j_undo x, j_undone x)"
      using undisturbedD(1) [OF u] by (auto dest: find_SomeD)
    show ?thesis
      using undo_transaction [OF x(1,2)] undisturbedD(1) [OF u] same
      by (auto simp: Inr x(3) split: option.split)
  qed
qed (simp_all add: cast_uuid_def)

lemma fold_set_core:
  assumes "distinct (map c_id cs)"
  shows "core (fold set_core cs c) =
     (case find (\<lambda>c0. c_id c0 = c_id c) cs of None \<Rightarrow> core c | Some c0 \<Rightarrow> core c0)"
  using assms
proof (induction cs arbitrary: c)
  case (Cons c0 cs)
  have "c_id c0 = c_id c \<Longrightarrow> find (\<lambda>c1. c_id c1 = c_id c) cs = None"
    using Cons.prems unfolding find_None_iff by simp (metis imageI)
  with Cons show ?case by (auto simp: core_set_core split: option.split)
qed simp

lemma undo_of_change:
  assumes "distinct (map c_id cs)" and "\<And>c. c_id (f c) = c_id c"
  shows "map core (map (fold set_core (filter (\<lambda>c. c_id c \<in> X) cs)) (update_where (\<lambda>c. c_id c \<in> X) f cs))
     = map core cs"
proof -
  let ?hit = "filter (\<lambda>c. c_id c \<in> X) cs"
  have dist: "distinct (map c_id ?hit)" using assms(1) by (simp add: distinct_map inj_on_def)
  have "core (fold set_core ?hit (if c_id c \<in> X then f c else c)) = core c" if c: "c \<in> set cs" for c
  proof (cases "c_id c \<in> X")
    case True
    with c have "find (\<lambda>c0. c_id c0 = c_id c) ?hit = Some c" by (intro find_unique [OF dist]) simp
    with True show ?thesis using fold_set_core [OF dist, of "f c"] by (simp add: assms(2))
  next
    case False
    then have "find (\<lambda>c0. c_id c0 = c_id c) ?hit = None" by (auto simp: find_None_iff)
    with False show ?thesis using fold_set_core [OF dist, of c] by simp
  qed
  then show ?thesis by (simp add: update_where_def)
qed

lemma undo_done_job:
  assumes "undo_done jobID d n d'" and "jobID = uuid_text (j_id job)"
    and "find (\<lambda>y. j_id y = j_id job) (bulk_jobs d) = Some job"
  shows "\<not> j_undone job \<and> (\<exists>rows. j_undo job \<noteq> None \<and> decode_snap (the (j_undo job)) = Some rows \<and>
     (\<forall>cs. rows = map snap_of cs \<longrightarrow>
        d' = d\<lparr>challenges := map (fold set_core cs) (challenges d),
               bulk_jobs := update_where (\<lambda>y. j_id y = j_id job) (\<lambda>y. y\<lparr>j_undone := True\<rparr>) (bulk_jobs d)\<rparr>))"
proof -
  from assms(1,2) obtain x doc rows where x: "j_id job = j_id x"
      "find (\<lambda>y. j_id y = j_id x) (bulk_jobs d) = Some x"
    and rest: "\<not> j_undone x" "j_undo x = Some doc" "decode_snap doc = Some rows"
      "\<forall>cs. rows = map snap_of cs \<longrightarrow>
        d' = d\<lparr>challenges := map (fold set_core cs) (challenges d),
               bulk_jobs := update_where (\<lambda>y. j_id y = j_id x) (\<lambda>y. y\<lparr>j_undone := True\<rparr>) (bulk_jobs d)\<rparr>"
    unfolding undo_done_def by (auto simp: uuid_in_text)
  from x assms(3) have "x = job" by simp
  with rest show ?thesis by simp
qed

text \<open>
  C13. A bulk action can be undone. After any action but \<open>delete\<close>, undoing its job, unless it fails,
  gives every challenge of the database its state, its block and its tags back (its schedule is not
  restored), and a second undo is refused.
\<close>

theorem bulk_undo_restores:
  assumes "distinct (map c_id (challenges (db w)))" and "ecIDs \<noteq> []" and "action \<noteq> ''delete''"
    and "run_state (BulkApply eventID actorID action params ecIDs) w = (Inr (jobID, n), w1)"
    and "db w2 = db w1" and "run_state (BulkUndo jobID) w2 = (Inr m, w3)"
    and "db w4 = db w3" and "run_state (BulkUndo jobID) w4 = (r, w5)"
  shows "map core (challenges (db w3)) = map core (challenges (db w)) \<and>
    db w5 = db w3 \<and> (\<exists>e. r = Inl e)"
proof -
  from wpD [OF BulkApply_wp assms(4)] assms(2,3) obtain ids st now u d1 job aud
    where ids: "map uuid_in ecIDs = map Some ids"
      and st: "bulk_change action params ecIDs = Some st" "st now u (db w) = Inr (n, d1)"
      and job: "jobID = uuid_text (j_id job)" "fresh_key j_id (j_id job) (bulk_jobs (db w))"
        "j_undo job = Some (encode_snap (map snap_of (filter (\<lambda>c. c_id c \<in> set ids) (challenges (db w)))))"
      and w1: "db w1 = d1\<lparr>bulk_jobs := bulk_jobs (db w) @ [job], audit_log := audit_log (db w) @ [aud]\<rparr>"
    by (auto simp: bulk_outcome_def bulk_done_def)
  from bulk_change_effect [OF st ids] assms(3)
  have "\<exists>f. (\<forall>c. c_id (f c) = c_id c) \<and>
      challenges d1 = update_where (\<lambda>c. c_id c \<in> set ids) f (challenges (db w))" by auto
  then obtain f where f: "\<And>c. c_id (f c) = c_id c"
      and d1: "challenges d1 = update_where (\<lambda>c. c_id c \<in> set ids) f (challenges (db w))" by blast
  have found: "find (\<lambda>y. j_id y = j_id job) (bulk_jobs (db w2)) = Some job"
    using find_snoc_fresh [OF job(2)] by (simp add: assms(5) w1)
  let ?hit = "filter (\<lambda>c. c_id c \<in> set ids) (challenges (db w))"
  from wpD [OF BulkUndo_wp assms(6)] have "undo_done jobID (db w2) m (db w3)"
    by (simp add: undo_outcome_def)
  from undo_done_job [OF this job(1) found] job(3)
  have w3: "db w3 = (db w2)\<lparr>challenges := map (fold set_core ?hit) (challenges (db w2)),
      bulk_jobs := update_where (\<lambda>y. j_id y = j_id job) (\<lambda>y. y\<lparr>j_undone := True\<rparr>) (bulk_jobs (db w2))\<rparr>"
    by (auto simp: decode_encode_snap)
  have "map core (challenges (db w3)) = map core (challenges (db w))"
    using undo_of_change [OF assms(1) f] by (simp add: w3 assms(5) w1 d1)
  moreover have "find (\<lambda>y. j_id y = j_id job) (bulk_jobs (db w4)) = Some (job\<lparr>j_undone := True\<rparr>)"
    using found by (simp add: assms(7) w3 find_update_where)
  then have "\<not> undo_done jobID (db w4) k d" for k d
    using undo_done_job [of jobID "db w4" k d "job\<lparr>j_undone := True\<rparr>"] job(1) by auto
  ultimately show ?thesis
    using wpD [OF BulkUndo_wp assms(8)] assms(7) by (auto simp: undo_outcome_def split: sum.splits)
qed

definition demo_hide :: "(world, store_error + string \<times> nat) action" where
  "demo_hide = BulkApply (uuid_text 4) (uuid_text 2) ''hide'' Map.empty [uuid_text 5]"

definition demo_hidden :: world where
  "demo_hidden = snd (run_state demo_hide demo_world)"

lemmas bulk_defs = BulkApply_def BulkUndo_def bulk_change_def with_snapshot_def snapshot_def
  update_ids_def delete_ids_def drop_challenges_def insert_job_def insert_audit_def cast_uuid_opt_def
  nilIfEmpty_def exists_row_def fresh_key_def count_where_def update_where_def transaction_def

lemma demo_hide_run: "run_state demo_hide demo_world = (Inr (uuid_text 103, 1), demo_hidden)"
proof -
  have "fst (run_state demo_hide demo_world) = Inr (uuid_text 103, 1)"
    unfolding demo_hide_def
    by (simp add: bulk_defs run_simps call_defs demo_defs Let_def snap_of_def)
  then show ?thesis by (simp add: demo_hidden_def prod_eq_iff)
qed

definition demo_unhide :: "(world, store_error + nat) action" where
  "demo_unhide = BulkUndo (uuid_text 103)"

lemma demo_unhide_run:
  "run_state demo_unhide demo_hidden = (Inr 1, snd (run_state demo_unhide demo_hidden))"
proof -
  have "fst (run_state demo_unhide demo_hidden) = Inr 1"
    unfolding demo_unhide_def demo_hidden_def demo_hide_def
    by (simp add: bulk_defs mark_undone_def restore_row_def run_simps call_defs demo_defs Let_def
        decode_encode_snap snap_of_def)
  then show ?thesis by (simp add: prod_eq_iff)
qed

theorem bulk_undo_restores_witness:
  "map core (challenges (db (snd (run_state demo_unhide demo_hidden)))) = [(5, ''published'', None, [])] \<and>
   map core (challenges (db demo_hidden)) = [(5, ''hidden'', None, [])]"
proof
  show "map core (challenges (db demo_hidden)) = [(5, ''hidden'', None, [])]"
    unfolding demo_hidden_def demo_hide_def
    by (simp add: bulk_defs run_simps call_defs demo_defs Let_def core_def)
  have "distinct (map c_id (challenges (db demo_world)))" by (simp add: demo_defs)
  from bulk_undo_restores [OF this _ _ demo_hide_run [unfolded demo_hide_def] refl
      demo_unhide_run [unfolded demo_unhide_def] refl prod.collapse [symmetric]]
  show "map core (challenges (db (snd (run_state demo_unhide demo_hidden)))) = [(5, ''published'', None, [])]"
    by (simp add: demo_unhide_def demo_defs core_def)
qed

text \<open>
  What a bulk delete removed stays removed: its job cannot be undone.
\<close>

theorem bulk_delete_final:
  assumes "ecIDs \<noteq> []"
    and "run_state (BulkApply eventID actorID ''delete'' params ecIDs) w = (Inr (jobID, n), w1)"
    and "db w2 = db w1" and "run_state (BulkUndo jobID) w2 = (r, w3)"
  shows "db w3 = db w1 \<and> (\<exists>e. r = Inl e)"
proof -
  from wpD [OF BulkApply_wp assms(2)] assms(1) obtain d1 job aud
    where job: "jobID = uuid_text (j_id job)" "fresh_key j_id (j_id job) (bulk_jobs (db w))" "j_undo job = None"
      and w1: "db w1 = d1\<lparr>bulk_jobs := bulk_jobs (db w) @ [job], audit_log := audit_log (db w) @ [aud]\<rparr>"
    by (auto simp: bulk_outcome_def bulk_done_def)
  have "find (\<lambda>y. j_id y = j_id job) (bulk_jobs (db w2)) = Some job"
    using find_snoc_fresh [OF job(2)] by (simp add: assms(3) w1)
  then have "\<not> undo_done jobID (db w2) k d" for k d
    using undo_done_job [OF _ job(1)] job(3) by auto
  then show ?thesis
    using wpD [OF BulkUndo_wp assms(4)] assms(3) by (auto simp: undo_outcome_def split: sum.splits)
qed

definition demo_delete :: "(world, store_error + string \<times> nat) action" where
  "demo_delete = BulkApply (uuid_text 4) (uuid_text 2) ''delete'' Map.empty [uuid_text 5]"

definition demo_deleted :: world where
  "demo_deleted = snd (run_state demo_delete demo_world)"

lemma demo_delete_run: "run_state demo_delete demo_world = (Inr (uuid_text 102, 1), demo_deleted)"
proof -
  have "fst (run_state demo_delete demo_world) = Inr (uuid_text 102, 1)"
    unfolding demo_delete_def
    by (simp add: bulk_defs run_simps call_defs demo_defs Let_def)
  then show ?thesis by (simp add: demo_deleted_def prod_eq_iff)
qed

theorem bulk_delete_final_witness:
  "db (snd (run_state (BulkUndo (uuid_text 102)) demo_deleted)) = db demo_deleted"
  using bulk_delete_final [OF _ demo_delete_run [unfolded demo_delete_def] refl prod.collapse [symmetric]]
  by blast

end
