(* ===== verification/Library_Api.thy ===== *)
theory Library_Api
  imports Bulk Submit Requests
begin

text \<open>
  The handlers of \<open>internal/httpserver/library.go\<close>. The theorem follows a flag from the library
  to a challenge embedded in an event: exactly the flags that were typed in are accepted there.
\<close>

subsection \<open>Flags\<close>

record flag_input =
  fi_value :: string
  fi_case :: "bool option"

definition flag_input_fields :: "(string \<times> flag_input setter) list" where
  "flag_input_fields =
     [(''value'', set_string (\<lambda>x r. r\<lparr>fi_value := x\<rparr>)),
      (''case_sensitive'', set_bool_ptr (\<lambda>x r. r\<lparr>fi_case := x\<rparr>))]"

definition zero_flag_input :: flag_input where
  "zero_flag_input = \<lparr>fi_value = [], fi_case = None\<rparr>"

definition set_flags :: "(flag_input list \<Rightarrow> 'r \<Rightarrow> 'r) \<Rightarrow> 'r setter" where
  "set_flags = set_slice zero_flag_input (decode_struct True flag_input_fields)"

text \<open>Flags without text are skipped; case matters unless the author says otherwise.\<close>

definition flag_case :: "flag_input \<Rightarrow> bool" where
  "flag_case f = (case fi_case f of None \<Rightarrow> True | Some b \<Rightarrow> b)"

definition typed_flags :: "flag_input list \<Rightarrow> flag_input list" where
  "typed_flags fs = filter (\<lambda>f. trim_space (fi_value f) \<noteq> []) fs"

definition hashedFlagsJSON :: "platform \<Rightarrow> flag_input list \<Rightarrow> json" where
  "hashedFlagsJSON P fs = encode_rev_flags (map (\<lambda>f.
     \<lparr>rf_hash = hex_encode (flag_hash P (fi_value f) (flag_case f)), rf_case = flag_case f\<rparr>) (typed_flags fs))"

subsection \<open>The library\<close>

record lib_input =
  li_slug :: string
  li_title :: string
  li_category :: string
  li_difficulty :: "int option"
  li_author :: "string option"
  li_tags :: "string list"
  li_desc :: string
  li_scoring :: "json option"
  li_conn :: "string option"
  li_flags :: "flag_input list"

definition zero_lib_input :: lib_input where
  "zero_lib_input = \<lparr>li_slug = [], li_title = [], li_category = [], li_difficulty = None,
     li_author = None, li_tags = [], li_desc = [], li_scoring = None, li_conn = None, li_flags = []\<rparr>"

definition lib_input_fields :: "(string \<times> lib_input setter) list" where
  "lib_input_fields =
     [(''slug'', set_string (\<lambda>x r. r\<lparr>li_slug := x\<rparr>)),
      (''title'', set_string (\<lambda>x r. r\<lparr>li_title := x\<rparr>)),
      (''category'', set_string (\<lambda>x r. r\<lparr>li_category := x\<rparr>)),
      (''difficulty'', set_int_ptr (\<lambda>x r. r\<lparr>li_difficulty := x\<rparr>)),
      (''author'', set_string_ptr (\<lambda>x r. r\<lparr>li_author := x\<rparr>)),
      (''tags'', set_strings (\<lambda>x r. r\<lparr>li_tags := x\<rparr>)),
      (''description_md'', set_string (\<lambda>x r. r\<lparr>li_desc := x\<rparr>)),
      (''scoring'', set_raw (\<lambda>x r. r\<lparr>li_scoring := x\<rparr>)),
      (''connection_tpl'', set_string_ptr (\<lambda>x r. r\<lparr>li_conn := x\<rparr>)),
      (''flags'', set_flags (\<lambda>x r. r\<lparr>li_flags := x\<rparr>))]"

definition handleCreateLibraryChallenge ::
  "platform \<Rightarrow> user \<Rightarrow> json option \<Rightarrow> (world, lib_challenge reply) action"
where
  "handleCreateLibraryChallenge P u body =
     with_body lib_input_fields zero_lib_input body (\<lambda>i.
       if trim_space (li_slug i) = [] \<or> trim_space (li_title i) = []
       then ret (Problem 422 ''slug and title are required'')
       else if li_flags i = [] then ret (Problem 422 ''at least one flag is required'')
       else do {
         r \<leftarrow> CreateLibraryChallenge (uuid_text (u_org u)) (trim_space (li_slug i))
                (trim_space (li_title i)) (if li_category i = [] then ''misc'' else li_category i)
                (li_difficulty i) (li_author i) (li_tags i) (li_desc i) (li_scoring i)
                (Some (hashedFlagsJSON P (li_flags i))) (li_conn i) (uuid_text (u_id u));
         ret (case r of
                Inl Conflict \<Rightarrow> Problem 409 ''slug already exists in library''
              | Inl _ \<Rightarrow> Problem 500 ''create failed''
              | Inr c \<Rightarrow> Reply 201 c)
       })"

definition handleListLibrary :: "user \<Rightarrow> string \<Rightarrow> (world, lib_challenge list reply) action" where
  "handleListLibrary u tag = do {
     r \<leftarrow> ListLibrary (uuid_text (u_org u)) tag;
     ret (case r of Inl _ \<Rightarrow> Problem 500 ''list failed'' | Inr cs \<Rightarrow> Reply 200 cs)
   }"

definition handleGetLibraryChallenge :: "string \<Rightarrow> (world, (lib_challenge \<times> revision) reply) action" where
  "handleGetLibraryChallenge cid = do {
     c \<leftarrow> GetLibraryChallenge cid;
     (case c of
        Inl NotFound \<Rightarrow> ret (Problem 404 ''challenge not found'')
      | Inl _ \<Rightarrow> ret (Problem 500 ''get failed'')
      | Inr c \<Rightarrow> do {
          r \<leftarrow> GetRevision cid (l_rev c);
          ret (case r of Inl _ \<Rightarrow> Problem 500 ''revision failed'' | Inr r \<Rightarrow> Reply 200 (c, r))
        })
   }"

definition handleListRevisions :: "string \<Rightarrow> (world, revision list reply) action" where
  "handleListRevisions cid = do {
     r \<leftarrow> ListRevisions cid;
     ret (case r of Inl _ \<Rightarrow> Problem 500 ''list failed'' | Inr rs \<Rightarrow> Reply 200 rs)
   }"

record rev_input =
  ri_desc :: string
  ri_scoring :: "json option"
  ri_conn :: "string option"
  ri_flags :: "flag_input list"

definition zero_rev_input :: rev_input where
  "zero_rev_input = \<lparr>ri_desc = [], ri_scoring = None, ri_conn = None, ri_flags = []\<rparr>"

definition rev_input_fields :: "(string \<times> rev_input setter) list" where
  "rev_input_fields =
     [(''description_md'', set_string (\<lambda>x r. r\<lparr>ri_desc := x\<rparr>)),
      (''scoring'', set_raw (\<lambda>x r. r\<lparr>ri_scoring := x\<rparr>)),
      (''connection_tpl'', set_string_ptr (\<lambda>x r. r\<lparr>ri_conn := x\<rparr>)),
      (''flags'', set_flags (\<lambda>x r. r\<lparr>ri_flags := x\<rparr>))]"

definition handleNewRevision ::
  "platform \<Rightarrow> user \<Rightarrow> string \<Rightarrow> json option \<Rightarrow> (world, int reply) action"
where
  "handleNewRevision P u cid body =
     with_body rev_input_fields zero_rev_input body (\<lambda>i. do {
       r \<leftarrow> NewRevision cid (ri_desc i) (ri_scoring i) (Some (hashedFlagsJSON P (ri_flags i)))
              (ri_conn i) (uuid_text (u_id u));
       ret (case r of
              Inl NotFound \<Rightarrow> Problem 404 ''challenge not found''
            | Inl _ \<Rightarrow> Problem 500 ''new revision failed''
            | Inr n \<Rightarrow> Reply 201 n)
     })"

record clone_input =
  ci_slug :: string
  ci_title :: string

definition clone_fields :: "(string \<times> clone_input setter) list" where
  "clone_fields =
     [(''slug'', set_string (\<lambda>x r. r\<lparr>ci_slug := x\<rparr>)),
      (''title'', set_string (\<lambda>x r. r\<lparr>ci_title := x\<rparr>))]"

definition handleCloneChallenge ::
  "user \<Rightarrow> string \<Rightarrow> json option \<Rightarrow> (world, lib_challenge reply) action"
where
  "handleCloneChallenge u cid body =
     with_body clone_fields \<lparr>ci_slug = [], ci_title = []\<rparr> body (\<lambda>i.
       if trim_space (ci_slug i) = [] then ret (Problem 422 ''slug is required'')
       else do {
         r \<leftarrow> CloneChallenge cid (trim_space (ci_slug i)) (trim_space (ci_title i)) (uuid_text (u_id u));
         ret (case r of
                Inl NotFound \<Rightarrow> Problem 404 ''source challenge not found''
              | Inl Conflict \<Rightarrow> Problem 409 ''target slug already exists''
              | Inl _ \<Rightarrow> Problem 500 ''clone failed''
              | Inr c \<Rightarrow> Reply 201 c)
       })"

record embed_input =
  ei_challenge :: string
  ei_rev :: int

definition embed_fields :: "(string \<times> embed_input setter) list" where
  "embed_fields =
     [(''challenge_id'', set_string (\<lambda>x r. r\<lparr>ei_challenge := x\<rparr>)),
      (''rev'', set_int (\<lambda>x r. r\<lparr>ei_rev := x\<rparr>))]"

definition handleEmbed :: "string \<Rightarrow> json option \<Rightarrow> (world, challenge reply) action" where
  "handleEmbed eventID body =
     with_body embed_fields \<lparr>ei_challenge = [], ei_rev = 0\<rparr> body (\<lambda>i.
       if ei_challenge i = [] then ret (Problem 422 ''challenge_id is required'')
       else do {
         r \<leftarrow> EmbedFromLibrary eventID (ei_challenge i) (ei_rev i);
         ret (case r of
                Inl NotFound \<Rightarrow> Problem 404 ''challenge or revision not found''
              | Inl _ \<Rightarrow> Problem 500 ''embed failed''
              | Inr c \<Rightarrow> Reply 201 c)
       })"

subsection \<open>Blocks\<close>

record block_input =
  bi_name :: string
  bi_position :: int
  bi_color :: "string option"
  bi_schedule :: "json option"
  bi_unlock :: "json option"

definition zero_block_input :: block_input where
  "zero_block_input =
     \<lparr>bi_name = [], bi_position = 0, bi_color = None, bi_schedule = None, bi_unlock = None\<rparr>"

definition block_fields :: "(string \<times> block_input setter) list" where
  "block_fields =
     [(''name'', set_string (\<lambda>x r. r\<lparr>bi_name := x\<rparr>)),
      (''position'', set_int (\<lambda>x r. r\<lparr>bi_position := x\<rparr>)),
      (''color'', set_string_ptr (\<lambda>x r. r\<lparr>bi_color := x\<rparr>)),
      (''schedule'', set_raw (\<lambda>x r. r\<lparr>bi_schedule := x\<rparr>)),
      (''unlock_rule'', set_raw (\<lambda>x r. r\<lparr>bi_unlock := x\<rparr>))]"

definition handleCreateBlock :: "string \<Rightarrow> json option \<Rightarrow> (world, block reply) action" where
  "handleCreateBlock eventID body =
     with_body block_fields zero_block_input body (\<lambda>i.
       if trim_space (bi_name i) = [] then ret (Problem 422 ''name is required'')
       else do {
         r \<leftarrow> CreateBlock eventID (trim_space (bi_name i)) (bi_position i) (bi_color i)
                (bi_schedule i) (bi_unlock i);
         ret (case r of
                Inl Conflict \<Rightarrow> Problem 409 ''block name already exists''
              | Inl _ \<Rightarrow> Problem 500 ''create block failed''
              | Inr b \<Rightarrow> Reply 201 b)
       })"

definition handleListBlocks :: "string \<Rightarrow> (world, block list reply) action" where
  "handleListBlocks eventID = do {
     r \<leftarrow> ListBlocks eventID;
     ret (case r of Inl _ \<Rightarrow> Problem 500 ''list failed'' | Inr bs \<Rightarrow> Reply 200 bs)
   }"

subsection \<open>Bulk actions and saved views\<close>

record selector_input =
  si_mode :: string
  si_ids :: "string list"
  si_filter :: any_map
  si_exclude :: "string list"

record action_input =
  ai_type :: string
  ai_params :: any_map

record bulk_input =
  bu_selector :: selector_input
  bu_action :: action_input

definition selector_fields :: "(string \<times> selector_input setter) list" where
  "selector_fields =
     [(''mode'', set_string (\<lambda>x r. r\<lparr>si_mode := x\<rparr>)),
      (''ids'', set_strings (\<lambda>x r. r\<lparr>si_ids := x\<rparr>)),
      (''filter'', set_any_map si_filter (\<lambda>x r. r\<lparr>si_filter := x\<rparr>)),
      (''exclude_ids'', set_strings (\<lambda>x r. r\<lparr>si_exclude := x\<rparr>))]"

definition action_fields :: "(string \<times> action_input setter) list" where
  "action_fields =
     [(''type'', set_string (\<lambda>x r. r\<lparr>ai_type := x\<rparr>)),
      (''params'', set_any_map ai_params (\<lambda>x r. r\<lparr>ai_params := x\<rparr>))]"

definition bulk_fields :: "(string \<times> bulk_input setter) list" where
  "bulk_fields =
     [(''selector'', set_struct bu_selector (\<lambda>x r. r\<lparr>bu_selector := x\<rparr>) selector_fields),
      (''action'', set_struct bu_action (\<lambda>x r. r\<lparr>bu_action := x\<rparr>) action_fields)]"

definition zero_bulk_input :: bulk_input where
  "zero_bulk_input =
     \<lparr>bu_selector = \<lparr>si_mode = [], si_ids = [], si_filter = Map.empty, si_exclude = []\<rparr>,
      bu_action = \<lparr>ai_type = [], ai_params = Map.empty\<rparr>\<rparr>"

definition bulk_actions :: "string list" where
  "bulk_actions = [''publish'', ''hide'', ''archive'', ''set_state'', ''assign_block'', ''add_tags'',
     ''remove_tags'', ''set_schedule'', ''delete'']"

definition handleBulk ::
  "server \<Rightarrow> user \<Rightarrow> string \<Rightarrow> json option \<Rightarrow> (world, (string \<times> nat) reply) action"
where
  "handleBulk srv u eventID body =
     with_body bulk_fields zero_bulk_input body (\<lambda>i.
       let sel = bu_selector i; act = bu_action i
       in if \<not> oneOf (ai_type act) bulk_actions then ret (Problem 422 ''unknown action'')
          else do {
            ids \<leftarrow> ResolveSelector eventID (si_mode sel) (si_ids sel) (si_filter sel) (si_exclude sel);
            (case ids of
               Inl _ \<Rightarrow> ret (Problem 500 ''selector failed'')
             | Inr ids \<Rightarrow> do {
                 r \<leftarrow> BulkApply eventID (uuid_text (u_id u)) (ai_type act) (ai_params act) ids;
                 (case r of
                    Inl _ \<Rightarrow> ret (Problem 500 ''bulk failed'')
                  | Inr res \<Rightarrow> do {
                      publish srv eventID ''challenges.changed'' JNull;
                      ret (Reply 200 res)
                    })
               })
          })"

definition handleBulkUndo :: "string \<Rightarrow> (world, nat reply) action" where
  "handleBulkUndo jobID = do {
     r \<leftarrow> BulkUndo jobID;
     ret (case r of
            Inl NotFound \<Rightarrow> Problem 404 ''job not found''
          | Inl Conflict \<Rightarrow> Problem 409 ''nothing to undo''
          | Inl _ \<Rightarrow> Problem 500 ''undo failed''
          | Inr n \<Rightarrow> Reply 200 n)
   }"

record view_input =
  vi_name :: string
  vi_filter :: "json option"

definition view_fields :: "(string \<times> view_input setter) list" where
  "view_fields =
     [(''name'', set_string (\<lambda>x r. r\<lparr>vi_name := x\<rparr>)),
      (''filter'', set_raw (\<lambda>x r. r\<lparr>vi_filter := x\<rparr>))]"

definition handleCreateSavedView :: "user \<Rightarrow> string \<Rightarrow> json option \<Rightarrow> (world, string reply) action" where
  "handleCreateSavedView u eventID body =
     with_body view_fields \<lparr>vi_name = [], vi_filter = None\<rparr> body (\<lambda>i.
       if trim_space (vi_name i) = [] then ret (Problem 422 ''name is required'')
       else do {
         r \<leftarrow> CreateSavedView eventID (uuid_text (u_id u)) (trim_space (vi_name i)) (vi_filter i);
         ret (case r of Inl _ \<Rightarrow> Problem 500 ''save failed'' | Inr v \<Rightarrow> Reply 201 v)
       })"

definition handleListSavedViews :: "user \<Rightarrow> string \<Rightarrow> (world, saved_view list reply) action" where
  "handleListSavedViews u eventID = do {
     r \<leftarrow> ListSavedViews eventID (uuid_text (u_id u));
     ret (case r of Inl _ \<Rightarrow> Problem 500 ''list failed'' | Inr vs \<Rightarrow> Reply 200 vs)
   }"

subsection \<open>From the library to the player\<close>

lemma CreateLibraryChallenge_flags:
  "wp (CreateLibraryChallenge orgID slug title category difficulty author tags descMD scoring (Some j) connTpl by)
     (\<lambda>r w'. revs_grow (db w) (db w') \<and>
        (\<forall>l. r = Inr l \<longrightarrow> (\<exists>rv \<in> set (revisions (db w')). rev_key rv = (l_id l, 1) \<and> r_flags rv = j))) w"
proof (rule wp_conj [OF CreateLibraryChallenge_grow])
  show "wp (CreateLibraryChallenge orgID slug title category difficulty author tags descMD scoring (Some j) connTpl by)
     (\<lambda>r w'. \<forall>l. r = Inr l \<longrightarrow> (\<exists>rv \<in> set (revisions (db w')). rev_key rv = (l_id l, 1) \<and> r_flags rv = j)) w"
    unfolding CreateLibraryChallenge_def
    apply (rule wp_transaction)
     apply (rule wp_tx_try)
      apply (rule wp_tx_try)
       apply (auto simp: or_default_def rev_key_def dest!: insert_revision_Inr [OF _ uuid_in_text])
    done
qed

lemma verify_flag_rows:
  "verify P sub (specs_of (flag_rows ec (decode_rev_flags (hashedFlagsJSON P fs)))) \<longleftrightarrow>
     (\<exists>f \<in> set (typed_flags fs). flag_hash P (fi_value f) (flag_case f) = flag_hash P sub (flag_case f))"
proof -
  have "specs_of (flag_rows ec (map (\<lambda>f. \<lparr>rf_hash = hex_encode (flag_hash P (fi_value f) (flag_case f)),
          rf_case = flag_case f\<rparr>) fs')) = map (\<lambda>f. stored P (fst f) (snd f)) (map (\<lambda>f. (fi_value f, flag_case f)) fs')" for fs'
    by (induction fs') (simp_all add: specs_of_def stored_def)
  then show ?thesis
    unfolding hashedFlagsJSON_def decode_encode_rev_flags by (simp only: verify_stored) simp
qed

text \<open>
  C11. What an author types in is what players may submit. A challenge is created in the library with
  some flags; however it is revised, and whatever else is done to the library, embedding its first
  revision in an event gives a challenge that accepts exactly the submissions that agree with one
  of those flags (those that are not blank) under the hash.
\<close>

theorem embedded_accepts:
  assumes "revs_ok (db w)"
    and "run_state (CreateLibraryChallenge orgID slug title category difficulty author tags descMD scoring
           (Some (hashedFlagsJSON P fs)) connTpl userID) w = (Inr l, w1)"
    and "library_step\<^sup>*\<^sup>* w1 w2"
    and "fl_ec ` set (flags (db w2)) \<subseteq> c_id ` set (challenges (db w2))"
    and "run_state (EmbedFromLibrary eventID (uuid_text (l_id l)) 1) w2 = (Inr c, w3)"
  shows "verify P sub (specs_of (filter (\<lambda>f. fl_ec f = c_id c) (flags (db w3)))) \<longleftrightarrow>
     (\<exists>f \<in> set (typed_flags fs). flag_hash P (fi_value f) (flag_case f) = flag_hash P sub (flag_case f))"
proof -
  from wpD [OF CreateLibraryChallenge_flags assms(2)] obtain rv
    where ok: "revs_ok (db w1)" and rv: "rv \<in> set (revisions (db w1))" "rev_key rv = (l_id l, 1)"
      "r_flags rv = hashedFlagsJSON P fs"
    using assms(1) by (auto simp: revs_grow_def)
  from revisions_grown [OF assms(3) ok] have ok2: "revs_ok (db w2)" and rv2: "rv \<in> set (revisions (db w2))"
    using rv(1) by (auto dest: set_mono_prefix)
  from wpD [OF EmbedFromLibrary_wp assms(5)] obtain ev r
    where r: "r \<in> set (revisions (db w2))" "rev_key r = (l_id l, 1)" and emb: "embedded ev r c (db w2) (db w3)"
    by (auto simp: embed_outcome_def embed_done_def uuid_in_text)
  have "r = rv"
    using ok2 r rv(2) rv2 by (auto simp: revs_ok_def distinct_map inj_on_def)
  moreover have "filter (\<lambda>f. fl_ec f = c_id c) (flag_rows (c_id c) xs) = flag_rows (c_id c) xs" for xs
    by (induction xs) (auto split: option.split)
  moreover have "c_id c \<notin> fl_ec ` set (flags (db w2))"
    using assms(4) emb unfolding embedded_def by blast
  then have "filter (\<lambda>f. fl_ec f = c_id c) (flags (db w2)) = []"
    unfolding filter_empty_conv by (metis imageI)
  ultimately have "filter (\<lambda>f. fl_ec f = c_id c) (flags (db w3)) =
      flag_rows (c_id c) (decode_rev_flags (hashedFlagsJSON P fs))"
    using emb rv(3) by (simp add: embedded_def)
  then show ?thesis by (simp add: verify_flag_rows)
qed

text \<open>The demo organization adds a challenge to its library, and embeds it in the demo event.\<close>

definition demo_lib_create :: "(world, store_error + lib_challenge) action" where
  "demo_lib_create = CreateLibraryChallenge (uuid_text 1) ''web'' ''Web'' ''web'' None None [] [] None
     (Some (hashedFlagsJSON demo_platform [\<lparr>fi_value = ''A'', fi_case = None\<rparr>])) None (uuid_text 2)"

definition demo_lib :: world where
  "demo_lib = snd (run_state demo_lib_create demo_world)"

lemmas library_defs = CreateLibraryChallenge_def transaction_def run_simps call_defs insert_library_def
  insert_revision_def exists_row_def fresh_key_def nilIfEmpty_def cast_uuid_opt_def rev_key_def int4_ok_def
  or_default_def

lemma demo_lib_run:
  "\<exists>l. run_state demo_lib_create demo_world = (Inr l, demo_lib) \<and> l_id l = 101"
proof -
  have "case fst (run_state demo_lib_create demo_world) of Inl e \<Rightarrow> False | Inr l \<Rightarrow> l_id l = 101"
    unfolding demo_lib_create_def by (simp add: library_defs demo_defs Let_def)
  then show ?thesis by (auto simp: demo_lib_def prod_eq_iff split: sum.splits)
qed

definition demo_embed :: "(world, store_error + challenge) action" where
  "demo_embed = EmbedFromLibrary (uuid_text 4) (uuid_text 101) 1"

definition demo_embedded :: world where
  "demo_embedded = snd (run_state demo_embed demo_lib)"

lemma demo_embed_run:
  "\<exists>c. run_state demo_embed demo_lib = (Inr c, demo_embedded) \<and> c_id c = 107"
proof -
  have dec: "decode_rev_flags (hashedFlagsJSON demo_platform fs) = map (\<lambda>f.
     \<lparr>rf_hash = hex_encode (flag_hash demo_platform (fi_value f) (flag_case f)), rf_case = flag_case f\<rparr>)
       (typed_flags fs)" for fs
    by (simp add: hashedFlagsJSON_def decode_encode_rev_flags)
  have flag: "typed_flags [\<lparr>fi_value = ''A'', fi_case = None\<rparr>] = [\<lparr>fi_value = ''A'', fi_case = None\<rparr>]"
    by (simp add: typed_flags_def trim_space_printable printable_def)
  have "case fst (run_state demo_embed demo_lib) of Inl e \<Rightarrow> False | Inr c \<Rightarrow> c_id c = 107"
    unfolding demo_embed_def demo_lib_def demo_lib_create_def
    by (simp add: library_defs demo_defs Let_def EmbedFromLibrary_def GetLibraryChallenge_def
        GetRevision_def insert_embedded_def insert_challenge_def insert_flag_def dec flag)
  then show ?thesis by (auto simp: demo_embedded_def prod_eq_iff split: sum.splits)
qed

theorem embedded_accepts_witness:
  "verify demo_platform '' A '' (specs_of (filter (\<lambda>f. fl_ec f = 107) (flags (db demo_embedded))))"
proof -
  obtain l where l: "run_state demo_lib_create demo_world = (Inr l, demo_lib)" "l_id l = 101"
    using demo_lib_run by blast
  obtain c where c: "run_state demo_embed demo_lib = (Inr c, demo_embedded)" "c_id c = 107"
    using demo_embed_run by blast
  have "revs_ok (db demo_world)" by (simp add: revs_ok_def demo_defs revs_of_def)
  moreover have "fl_ec ` set (flags (db demo_lib)) \<subseteq> c_id ` set (challenges (db demo_lib))"
    unfolding demo_lib_def demo_lib_create_def by (simp add: library_defs demo_defs Let_def)
  ultimately have "verify demo_platform '' A '' (specs_of (filter (\<lambda>f. fl_ec f = c_id c) (flags (db demo_embedded)))) \<longleftrightarrow>
     (\<exists>f \<in> set (typed_flags [\<lparr>fi_value = ''A'', fi_case = None\<rparr>]).
        flag_hash demo_platform (fi_value f) (flag_case f) = flag_hash demo_platform '' A '' (flag_case f))"
    using embedded_accepts [OF _ l(1) [unfolded demo_lib_create_def] rtranclp.rtrancl_refl _
        c(1) [unfolded demo_embed_def, folded l(2)]] by simp
  moreover have "trim_space ''A'' = ''A''" "trim_space '' A '' = ''A''"
    by (simp add: trim_space_printable printable_def, code_simp)
  ultimately show ?thesis
    by (simp add: c(2) typed_flags_def flag_hash_def normalize_def)
qed

end
