(* ===== verification/Challenge_Api.thy ===== *)
theory Challenge_Api
  imports Submit Files Library Library_Api
begin

text \<open>
  The handlers for challenges (\<open>internal/httpserver/challenges.go\<close>). The theorem: what the list of
  challenges shows a player as open is what the submission handler's gate lets through.
\<close>

subsection \<open>Creating a challenge\<close>

record challenge_input =
  ch_title :: string
  ch_category :: string
  ch_desc :: string
  ch_scoring :: "json option"
  ch_state :: string
  ch_flags :: "flag_input list"

definition zero_challenge_input :: challenge_input where
  "zero_challenge_input = \<lparr>ch_title = [], ch_category = [], ch_desc = [], ch_scoring = None,
     ch_state = [], ch_flags = []\<rparr>"

definition challenge_fields :: "(string \<times> challenge_input setter) list" where
  "challenge_fields =
     [(''title'', set_string (\<lambda>x r. r\<lparr>ch_title := x\<rparr>)),
      (''category'', set_string (\<lambda>x r. r\<lparr>ch_category := x\<rparr>)),
      (''description_md'', set_string (\<lambda>x r. r\<lparr>ch_desc := x\<rparr>)),
      (''scoring'', set_raw (\<lambda>x r. r\<lparr>ch_scoring := x\<rparr>)),
      (''state'', set_string (\<lambda>x r. r\<lparr>ch_state := x\<rparr>)),
      (''flags'', set_flags (\<lambda>x r. r\<lparr>ch_flags := x\<rparr>))]"

definition challenge_states :: "string list" where
  "challenge_states = [''draft'', ''published'', ''hidden'']"

record challenge_detail =
  cd_row :: challenge
  cd_points :: int
  cd_files :: "challenge_file list"

text \<open>The flags are added one by one, each a statement of its own; blank ones are skipped.\<close>

fun add_each_flag :: "platform \<Rightarrow> string \<Rightarrow> flag_input list \<Rightarrow> (world, bool) action" where
  "add_each_flag P ecID [] = ret True"
| "add_each_flag P ecID (f # fs) =
     (if trim_space (fi_value f) = [] then add_each_flag P ecID fs
      else do {
        r \<leftarrow> AddFlag ecID (flag_hash P (fi_value f) (flag_case f)) (flag_case f);
        (case r of Inl _ \<Rightarrow> ret False | Inr _ \<Rightarrow> add_each_flag P ecID fs)
      })"

definition handleCreateChallenge ::
  "platform \<Rightarrow> string \<Rightarrow> json option \<Rightarrow> (world, challenge_detail reply) action"
where
  "handleCreateChallenge P eventID body = do {
     ev \<leftarrow> GetEvent eventID;
     (if ev = Inl NotFound then ret (Problem 404 ''event not found'')
      else with_body challenge_fields zero_challenge_input body (\<lambda>i.
        let category = (if ch_category i = [] then ''misc'' else ch_category i);
            state = (if ch_state i = [] then ''draft'' else ch_state i)
        in if trim_space (ch_title i) = [] then ret (Problem 422 ''title is required'')
           else if ch_flags i = [] then ret (Problem 422 ''at least one flag is required'')
           else if \<not> oneOf state challenge_states
             then ret (Problem 422 ''state must be draft|published|hidden'')
           else do {
             r \<leftarrow> CreateChallenge eventID (trim_space (ch_title i)) category (ch_desc i)
                    (or_default default_scoring (ch_scoring i)) state;
             (case r of
                Inl _ \<Rightarrow> ret (Problem 500 ''create challenge failed'')
              | Inr c \<Rightarrow> do {
                  ok \<leftarrow> add_each_flag P (uuid_text (c_id c)) (ch_flags i);
                  ret (if ok then Reply 201 \<lparr>cd_row = c, cd_points = points (Some (c_scoring c)), cd_files = []\<rparr>
                       else Problem 500 ''add flag failed'')
                })
           }))
   }"

subsection \<open>The list\<close>

record list_item =
  il_row :: challenge
  il_points :: int
  il_locked :: bool
  il_status :: string
  il_solves :: int

text \<open>Whether a challenge is shown to a player (\<open>None\<close>: it is not), and whether as locked.\<close>

definition lock_status ::
  "platform \<Rightarrow> team_state \<Rightarrow> challenge \<Rightarrow> block option \<Rightarrow> (bool \<times> string) option"
where
  "lock_status P ts c b =
     (case open_at P (inherited_schedule c b) (ts_now ts) of (opened, closed) \<Rightarrow>
        if \<not> opened \<and> closed = ''hidden'' then None
        else if \<not> unlocked (c_unlock c) ts \<or> \<not> unlocked (block_unlock b) ts then Some (True, ''locked'')
        else if \<not> opened then Some (True, ''scheduled'')
        else Some (False, ''open''))"

text \<open>The block map of the handler: the event's blocks by id, a later one replacing an earlier.\<close>

definition block_from :: "block list \<Rightarrow> challenge \<Rightarrow> block option" where
  "block_from bs c = (case c_block c of None \<Rightarrow> None | Some k \<Rightarrow> find (\<lambda>b. k_id b = k) (rev bs))"

definition list_items ::
  "platform \<Rightarrow> bool \<Rightarrow> team_state \<Rightarrow> block list \<Rightarrow> (string \<rightharpoonup> int) \<Rightarrow> challenge list \<Rightarrow> list_item list"
where
  "list_items P admin ts bs counts cs = List.map_filter (\<lambda>c.
     map_option (\<lambda>(locked, st). \<lparr>il_row = c, il_points = points (Some (c_scoring c)), il_locked = locked,
         il_status = st, il_solves = int_at counts (uuid_text (c_id c))\<rparr>)
       (if admin then Some (False, ''open'') else lock_status P ts c (block_from bs c))) cs"

definition no_team_state :: "instant \<Rightarrow> team_state" where
  "no_team_state now = team_state_of zero_gate now"

definition team_state_for ::
  "user option \<Rightarrow> string \<Rightarrow> instant \<Rightarrow> (world, team_state) action"
where
  "team_state_for u eventID now =
     (case u of
        None \<Rightarrow> ret (no_team_state now)
      | Some us \<Rightarrow>
          if is_admin u then ret (no_team_state now)
          else do {
            t \<leftarrow> PlayerTeamForEvent eventID (uuid_text (u_id us));
            (case t of
               Inl _ \<Rightarrow> ret (no_team_state now)
             | Inr teamID \<Rightarrow> do {
                 g \<leftarrow> TeamGateState eventID teamID;
                 ret (case g of Inl _ \<Rightarrow> no_team_state now | Inr gs \<Rightarrow> team_state_of gs now)
               })
          })"

definition handleListChallenges ::
  "platform \<Rightarrow> user option \<Rightarrow> string \<Rightarrow> (world, list_item list reply) action"
where
  "handleListChallenges P u eventID = do {
     cs \<leftarrow> ListChallenges eventID (\<not> is_admin u);
     (case cs of
        Inl _ \<Rightarrow> ret (Problem 500 ''list failed'')
      | Inr cs \<Rightarrow> do {
          bs \<leftarrow> ListBlocks eventID;
          now \<leftarrow> time_now;
          ts \<leftarrow> team_state_for u eventID now;
          counts \<leftarrow> SolveCounts eventID;
          ret (Reply 200 (list_items P (is_admin u) ts (case bs of Inl _ \<Rightarrow> [] | Inr bs \<Rightarrow> bs)
                 (case counts of Inl _ \<Rightarrow> Map.empty | Inr m \<Rightarrow> m) cs))
        })
   }"

subsection \<open>One challenge\<close>

definition handleGetChallenge ::
  "user option \<Rightarrow> string \<Rightarrow> (world, challenge_detail reply) action"
where
  "handleGetChallenge u ecID = do {
     c \<leftarrow> GetChallenge ecID;
     (case c of
        Inl NotFound \<Rightarrow> ret (Problem 404 ''challenge not found'')
      | Inl _ \<Rightarrow> ret (Problem 500 ''get failed'')
      | Inr c \<Rightarrow>
          if c_state c \<noteq> ''published'' \<and> \<not> is_admin u then ret (Problem 404 ''challenge not found'')
          else do {
            fs \<leftarrow> ListChallengeFiles (uuid_text (c_id c));
            ret (Reply 200 \<lparr>cd_row = c, cd_points = points (Some (c_scoring c)),
                   cd_files = (case fs of Inl _ \<Rightarrow> [] | Inr fs \<Rightarrow> fs)\<rparr>)
          })
   }"

definition challenge_state_field :: "(string \<times> string setter) list" where
  "challenge_state_field = [(''state'', set_string (\<lambda>x _. x))]"

definition handleSetChallengeState ::
  "server \<Rightarrow> string \<Rightarrow> string \<Rightarrow> json option \<Rightarrow> (world, string reply) action"
where
  "handleSetChallengeState srv eventID ecID body =
     with_body challenge_state_field [] body (\<lambda>st.
       if \<not> oneOf st challenge_states then ret (Problem 422 ''state must be draft|published|hidden'')
       else do {
         r \<leftarrow> SetChallengeState ecID st;
         (case r of
            Inl NotFound \<Rightarrow> ret (Problem 404 ''challenge not found'')
          | Inl _ \<Rightarrow> ret (Problem 500 ''update failed'')
          | Inr _ \<Rightarrow> do {
              publish srv eventID ''challenges.changed'' JNull;
              ret (Reply 200 st)
            })
       })"

definition handleMyAttempts ::
  "user \<Rightarrow> string \<Rightarrow> string \<Rightarrow> (world, (bool \<times> instant) list reply) action"
where
  "handleMyAttempts u eventID ecID = do {
     t \<leftarrow> PlayerTeamForEvent eventID (uuid_text (u_id u));
     (case t of
        Inl NotFound \<Rightarrow> ret (Reply 200 [])
      | Inl _ \<Rightarrow> ret (Problem 500 ''team lookup failed'')
      | Inr teamID \<Rightarrow> do {
          r \<leftarrow> TeamChallengeAttempts ecID teamID;
          ret (case r of Inl _ \<Rightarrow> Problem 500 ''attempts failed'' | Inr rows \<Rightarrow> Reply 200 rows)
        })
   }"

subsection \<open>The list and the gate agree\<close>

text \<open>A network without faults, and a clock that stands still.\<close>

definition frozen :: "instant \<Rightarrow> world \<Rightarrow> bool" where
  "frozen t w \<longleftrightarrow> reliable w \<and> range (clock w) \<subseteq> {t}"

lemma frozen_undisturbed: "frozen t w \<Longrightarrow> undisturbed w w' \<Longrightarrow> frozen t w'"
  unfolding frozen_def undisturbed_def by blast

lemma frozen_time: "frozen t w \<Longrightarrow> s \<in> range (clock w) \<Longrightarrow> s = t"
  unfolding frozen_def by blast

lemma frozen_clock: "frozen t w \<Longrightarrow> clock w n = t"
  unfolding frozen_def by blast

lemma wp_frozen_read:
  assumes "frozen t w" and "reads st" and "\<And>now u. st now u (db w) = st 0 0 (db w)"
    and "st 0 0 (db w) = Inr (a, d)"
    and "\<And>w'. frozen t w' \<Longrightarrow> undisturbed w w' \<Longrightarrow> Q (Inr a) w'"
  shows "wp (db_call st) Q w"
proof (rule wp_read [OF assms(2,3)])
  fix r w'
  assume "undisturbed w w'"
    and "r = map_sum (\<lambda>e. e) fst (st 0 0 (db w)) \<or> \<not> reliable w \<and> r = Inl ConnError"
  then show "Q r w'"
    using assms(1,4) frozen_undisturbed [OF assms(1)] by (auto simp: frozen_def intro: assms(5))
qed

lemma wp_frozen_time:
  assumes "frozen t w" and "\<And>w'. frozen t w' \<Longrightarrow> undisturbed w w' \<Longrightarrow> Q t w'"
  shows "wp time_now Q w"
  using assms by (intro wp_time_now_undisturbed) (metis frozen_time frozen_undisturbed)

definition gate_result ::
  "platform \<Rightarrow> team_state \<Rightarrow> challenge \<Rightarrow> block option \<Rightarrow> string option"
where
  "gate_result P ts c b =
     (if \<not> fst (open_at P (inherited_schedule c b) (ts_now ts)) then Some ''challenge is not open''
      else if \<not> unlocked (c_unlock c) ts \<or> \<not> unlocked (block_unlock b) ts then Some ''challenge is locked''
      else None)"

lemma gate_result_status: "gate_result P ts c b = None \<longleftrightarrow> lock_status P ts c b = Some (False, ''open'')"
  by (auto simp: gate_result_def lock_status_def split: prod.split)

lemma frozen_gate:
  assumes "frozen t w"
  shows "wp (TeamGateState (uuid_text ev) (uuid_text tm)) (\<lambda>r w'. frozen t w' \<and> undisturbed w w' \<and>
     r = Inr (gate_of ev tm (db w))) w"
  using assms frozen_undisturbed [OF assms]
  by (intro wp_TeamGateState) (auto simp: uuid_in_text frozen_def)

lemma frozen_submit_gate:
  assumes "frozen t w"
  shows "wp (submit_gate P (uuid_text ev) (uuid_text tm) c) (\<lambda>r w'.
     r = gate_result P (team_state_of (gate_of ev tm (db w)) t) c (block_in (db w) c)) w"
  unfolding submit_gate_def wp_bind
proof (rule wp_block_of)
  fix b w1
  assume u1: "undisturbed w w1" and "b = block_in (db w) c \<or> \<not> reliable w \<and> b = None"
  then have b: "b = block_in (db w) c" using assms by (simp add: frozen_def)
  have f1: "frozen t w1" using assms u1 by (rule frozen_undisturbed)
  show "wp time_now (\<lambda>now. wp (if \<not> fst (open_at P (inherited_schedule c b) now)
        then ret (Some ''challenge is not open'') else lock_gate (uuid_text ev) (uuid_text tm) c b)
      (\<lambda>r w'. r = gate_result P (team_state_of (gate_of ev tm (db w)) t) c (block_in (db w) c))) w1"
  proof (rule wp_frozen_time [OF f1])
    fix w2
    assume f2: "frozen t w2" and "undisturbed w1 w2"
    with u1 have same: "db w2 = db w" by (simp add: undisturbed_def)
    have "wp (lock_gate (uuid_text ev) (uuid_text tm) c b)
        (\<lambda>r w'. r = (if \<not> unlocked (c_unlock c) (team_state_of (gate_of ev tm (db w)) t) \<or>
            \<not> unlocked (block_unlock b) (team_state_of (gate_of ev tm (db w)) t)
          then Some ''challenge is locked'' else None)) w2"
      unfolding lock_gate_def wp_bind
      by (rule wp_mono [OF frozen_gate [OF f2]]) (auto simp: same Let_def frozen_clock)
    then show "wp (if \<not> fst (open_at P (inherited_schedule c b) t)
        then ret (Some ''challenge is not open'') else lock_gate (uuid_text ev) (uuid_text tm) c b)
      (\<lambda>r w'. r = gate_result P (team_state_of (gate_of ev tm (db w)) t) c (block_in (db w) c)) w2"
      by (auto simp: gate_result_def b team_state_of_def elim!: wp_mono)
  qed
qed

declare failed_simps [simp]

lemma frozen_ListChallenges:
  assumes "frozen t w"
  shows "wp (ListChallenges (uuid_text ev) only) (\<lambda>r w'. frozen t w' \<and> undisturbed w w' \<and>
     (\<exists>cs. r = Inr cs \<and> set cs = {c \<in> set (challenges (db w)). c_event c = ev \<and> (only \<longrightarrow> c_state c = ''published'')})) w"
  unfolding ListChallenges_def wp_bind
  by (rule wp_frozen_read [OF assms]; (intro quiet_intros)?) (auto simp: cast_uuid_def uuid_in_text)

lemma frozen_ListBlocks:
  assumes "frozen t w"
  shows "wp (ListBlocks (uuid_text ev)) (\<lambda>r w'. frozen t w' \<and> undisturbed w w' \<and>
     (\<exists>bs. r = Inr bs \<and> set bs = {b \<in> set (blocks (db w)). k_event b = ev})) w"
  unfolding ListBlocks_def wp_bind
  by (rule wp_frozen_read [OF assms]; (intro quiet_intros)?) (auto simp: cast_uuid_def uuid_in_text)

lemma frozen_PlayerTeam:
  assumes "frozen t w" and "player_team ev us (db w) = Some tm"
  shows "wp (PlayerTeamForEvent (uuid_text ev) (uuid_text us)) (\<lambda>r w'. frozen t w' \<and> undisturbed w w' \<and>
     r = Inr (uuid_text tm)) w"
  unfolding PlayerTeamForEvent_def wp_bind
  by (rule wp_frozen_read [OF assms(1)]; (intro quiet_intros)?) (auto simp: cast_uuid_def uuid_in_text assms(2))

lemma frozen_SolveCounts:
  assumes "frozen t w"
  shows "wp (SolveCounts (uuid_text ev)) (\<lambda>r w'. True) w"
  by simp

text \<open>
  The list looks a block up among those of the event, the submit handler's gate among all. They find
  the same where the block belongs to the event.
\<close>

definition own_block :: "uuid \<Rightarrow> database \<Rightarrow> challenge \<Rightarrow> block option" where
  "own_block ev d c =
     (case block_in d c of None \<Rightarrow> None | Some b \<Rightarrow> if k_event b = ev then Some b else None)"

lemma block_from_in:
  assumes "set bs = {b \<in> set (blocks d). k_event b = ev}" and "distinct (map k_id (blocks d))"
  shows "block_from bs c = own_block ev d c"
proof (cases "c_block c")
  case None
  then show ?thesis by (simp add: block_from_def block_in_def own_block_def)
next
  case (Some k)
  show ?thesis
  proof (cases "find (\<lambda>b. k_id b = k) (rev bs)")
    case None
    have foreign: "k_event b \<noteq> ev" if "find (\<lambda>b. k_id b = k) (blocks d) = Some b" for b
    proof
      assume "k_event b = ev"
      moreover have "b \<in> set (blocks d)" "k_id b = k" using find_SomeD [OF that] by simp_all
      ultimately have "b \<in> set (rev bs)" using assms(1) by simp
      from find_NoneD [OF None this] \<open>k_id b = k\<close> show False by simp
    qed
    show ?thesis
    proof (cases "find (\<lambda>b. k_id b = k) (blocks d)")
      case (Some b)
      with foreign [OF this] None \<open>c_block c = Some k\<close> show ?thesis
        by (simp add: block_from_def block_in_def own_block_def)
    qed (use None \<open>c_block c = Some k\<close> in \<open>simp add: block_from_def block_in_def own_block_def\<close>)
  next
    case found: (Some b)
    from find_SomeD [OF this] assms(1) have b: "b \<in> set (blocks d)" "k_event b = ev" "k_id b = k" by auto
    have "find (\<lambda>b. k_id b = k) (blocks d) = Some b"
      using find_unique [OF assms(2) b(1)] by (simp add: b(3))
    with found b Some show ?thesis by (simp add: block_from_def block_in_def own_block_def)
  qed
qed

lemma in_map_filter: "y \<in> set (List.map_filter f xs) \<longleftrightarrow> (\<exists>x \<in> set xs. f x = Some y)"
  by (induction xs) (auto simp: map_filter_simps split: option.splits)

lemma in_list_items:
  "i \<in> set (list_items P False ts bs counts cs) \<longleftrightarrow>
     (\<exists>c \<in> set cs. \<exists>locked st. lock_status P ts c (block_from bs c) = Some (locked, st) \<and>
        i = \<lparr>il_row = c, il_points = points (Some (c_scoring c)), il_locked = locked,
             il_status = st, il_solves = int_at counts (uuid_text (c_id c))\<rparr>)"
  unfolding list_items_def in_map_filter by (intro bex_cong refl) (auto split: option.splits)

lemma lock_status_unlocked: "lock_status P ts c b = Some (False, st) \<longleftrightarrow> st = ''open'' \<and> gate_result P ts c b = None"
  by (auto simp: gate_result_def lock_status_def split: prod.split)

lemma listed_unlocked:
  assumes "c \<in> set cs"
  shows "(\<exists>i \<in> set (list_items P False ts bs counts cs). il_row i = c \<and> \<not> il_locked i) \<longleftrightarrow>
    gate_result P ts c (block_from bs c) = None"
proof
  assume "\<exists>i \<in> set (list_items P False ts bs counts cs). il_row i = c \<and> \<not> il_locked i"
  then obtain i where "i \<in> set (list_items P False ts bs counts cs)" "il_row i = c" "\<not> il_locked i" by blast
  then obtain st where "lock_status P ts c (block_from bs c) = Some (False, st)"
    unfolding in_list_items by fastforce
  then show "gate_result P ts c (block_from bs c) = None" by (simp add: lock_status_unlocked)
next
  assume "gate_result P ts c (block_from bs c) = None"
  then have "lock_status P ts c (block_from bs c) = Some (False, ''open'')" by (simp add: lock_status_unlocked)
  with assms have "\<lparr>il_row = c, il_points = points (Some (c_scoring c)), il_locked = False, il_status = ''open'',
      il_solves = int_at counts (uuid_text (c_id c))\<rparr> \<in> set (list_items P False ts bs counts cs)"
    unfolding in_list_items by blast
  then show "\<exists>i \<in> set (list_items P False ts bs counts cs). il_row i = c \<and> \<not> il_locked i"
    by (rule bexI [rotated]) simp
qed

lemma frozen_list:
  assumes "frozen t w" and "\<not> is_admin (Some u)" and "player_team ev (u_id u) (db w) = Some tm"
    and "distinct (map k_id (blocks (db w)))"
  shows "wp (handleListChallenges P (Some u) (uuid_text ev)) (\<lambda>r w'. \<exists>items. r = Reply 200 items \<and>
     (\<forall>c \<in> set (challenges (db w)). c_event c = ev \<longrightarrow> c_state c = ''published'' \<longrightarrow>
        ((\<exists>i \<in> set items. il_row i = c \<and> \<not> il_locked i) \<longleftrightarrow>
         gate_result P (team_state_of (gate_of ev tm (db w)) t) c (own_block ev (db w) c) = None))) w"
  unfolding handleListChallenges_def wp_bind
proof (rule wp_mono [OF frozen_ListChallenges [OF assms(1)]])
  fix r w1
  let ?post = "\<lambda>r w'. \<exists>items. r = Reply 200 items \<and>
     (\<forall>c \<in> set (challenges (db w)). c_event c = ev \<longrightarrow> c_state c = ''published'' \<longrightarrow>
        ((\<exists>i \<in> set items. il_row i = c \<and> \<not> il_locked i) \<longleftrightarrow>
         gate_result P (team_state_of (gate_of ev tm (db w)) t) c (own_block ev (db w) c) = None))"
  assume "frozen t w1 \<and> undisturbed w w1 \<and> (\<exists>cs. r = Inr cs \<and>
      set cs = {c \<in> set (challenges (db w)). c_event c = ev \<and> (\<not> is_admin (Some u) \<longrightarrow> c_state c = ''published'')})"
  then obtain cs where f1: "frozen t w1" and u1: "undisturbed w w1" and r: "r = Inr cs"
    and cs: "set cs = {c \<in> set (challenges (db w)). c_event c = ev \<and> c_state c = ''published''}"
    using assms(2) by auto
  have final: "?post (Reply 200 (list_items P (is_admin (Some u)) (team_state_of (gate_of ev tm (db w)) t) bs counts cs)) w'"
    if bs: "set bs = {b \<in> set (blocks (db w)). k_event b = ev}" for bs counts w'
  proof -
    have "(\<exists>i \<in> set (list_items P False (team_state_of (gate_of ev tm (db w)) t) bs counts cs).
            il_row i = c \<and> \<not> il_locked i) \<longleftrightarrow>
         gate_result P (team_state_of (gate_of ev tm (db w)) t) c (own_block ev (db w) c) = None"
      if c: "c \<in> set (challenges (db w))" "c_event c = ev" "c_state c = ''published''" for c
    proof -
      have "block_from bs c = own_block ev (db w) c"
        using bs assms(4) by (rule block_from_in)
      moreover have "c \<in> set cs" using c cs by simp
      ultimately show ?thesis by (simp add: listed_unlocked)
    qed
    then show ?thesis using assms(2) by simp
  qed
  have team: "wp (team_state_for (Some u) (uuid_text ev) t) (\<lambda>ts w'.
      ts = team_state_of (gate_of ev tm (db w)) t) w2" if f2: "frozen t w2" "db w2 = db w" for w2
    unfolding team_state_for_def option.case
    using assms(2,3)
    apply simp
    apply (rule wp_mono [OF frozen_PlayerTeam [OF f2(1)]])
     apply (simp add: f2(2))
    apply clarsimp
    subgoal for w3
      by (rule wp_mono [OF frozen_gate]) (use f2 in \<open>auto simp: undisturbed_def\<close>)
    done
  show "wp (case r of
        Inl _ \<Rightarrow> ret (Problem 500 ''list failed'')
      | Inr cs \<Rightarrow> do {
          bs \<leftarrow> ListBlocks (uuid_text ev);
          now \<leftarrow> time_now;
          ts \<leftarrow> team_state_for (Some u) (uuid_text ev) now;
          counts \<leftarrow> SolveCounts (uuid_text ev);
          ret (Reply 200 (list_items P (is_admin (Some u)) ts (case bs of Inl _ \<Rightarrow> [] | Inr bs \<Rightarrow> bs)
                 (case counts of Inl _ \<Rightarrow> Map.empty | Inr m \<Rightarrow> m) cs))
        }) ?post w1"
    unfolding r sum.case wp_bind
    apply (rule wp_mono [OF frozen_ListBlocks [OF f1]])
    apply clarify
    apply (rule wp_frozen_time, assumption)
    subgoal for _ w2 bs w3
      apply (rule wp_mono [OF team])
        apply assumption
       apply (use u1 in \<open>simp add: undisturbed_def\<close>)
      apply (rule wp_mono [OF wp_True])
      apply (simp only: wp_ret sum.case)
      apply (rule final)
      apply (use u1 in \<open>simp add: undisturbed_def\<close>)
      done
    done
qed

text \<open>
  A challenge may carry a block of another event: the bulk action \<open>assign_block\<close> takes any block. The
  list then leaves the block's schedule and rule out, which the gate applies.
\<close>

lemma foreign_block_disagrees:
  assumes "frozen t w" and "\<not> is_admin (Some u)" and "player_team ev (u_id u) (db w) = Some tm"
    and "distinct (map k_id (blocks (db w)))"
    and "c \<in> set (challenges (db w))" and "c_event c = ev" and "c_state c = ''published''"
    and "block_in (db w) c = Some b" and "k_event b \<noteq> ev"
    and "run_state (handleListChallenges P (Some u) (uuid_text ev)) w = (Reply 200 items, w')"
    and "run_state (submit_gate P (uuid_text ev) (uuid_text tm) c) w = (gate, w2')"
  shows "(\<exists>i \<in> set items. il_row i = c \<and> \<not> il_locked i) \<longleftrightarrow>
      gate_result P (team_state_of (gate_of ev tm (db w)) t) c None = None"
    and "gate = gate_result P (team_state_of (gate_of ev tm (db w)) t) c (Some b)"
  using wpD [OF frozen_list [OF assms(1-4), where P = P] assms(10)] assms(5-9)
    wpD [OF frozen_submit_gate [OF assms(1), where P = P] assms(11)]
  by (auto simp: own_block_def)

text \<open>
  C17. What the challenge list shows as open to a player and what the submit handler's gate accepts
  agree. On a network that answers and at one instant, for a player with a team in the event, and a
  published challenge of the event that has no block or one of the same event: the challenge is listed
  unlocked exactly when the gate of submit.go lets a submission to it pass. (For a block of another
  event see \<open>foreign_block_disagrees\<close>.)
\<close>

theorem list_matches_gate:
  assumes "frozen t w" and "\<not> is_admin (Some u)" and "player_team ev (u_id u) (db w) = Some tm"
    and "distinct (map k_id (blocks (db w)))"
    and "c \<in> set (challenges (db w))" and "c_event c = ev" and "c_state c = ''published''"
    and "\<And>b. block_in (db w) c = Some b \<Longrightarrow> k_event b = c_event c"
    and "frozen t w2" and "db w2 = db w"
    and "run_state (handleListChallenges P (Some u) (uuid_text ev)) w = (Reply 200 items, w')"
    and "run_state (submit_gate P (uuid_text ev) (uuid_text tm) c) w2 = (gate, w2')"
  shows "gate = None \<longleftrightarrow> (\<exists>i \<in> set items. il_row i = c \<and> \<not> il_locked i)"
proof -
  have "own_block ev (db w) c = block_in (db w) c"
    using assms(6,8) by (auto simp: own_block_def split: option.split)
  then show ?thesis
    using wpD [OF frozen_list [OF assms(1-4), where P = P] assms(11)] assms(5-7,10)
      wpD [OF frozen_submit_gate [OF assms(9), where P = P] assms(12)] by auto
qed

theorem list_matches_gate_witness:
  "\<exists>items. fst (run_state (handleListChallenges demo_platform (Some demo_user) (uuid_text 4)) demo_world) = Reply 200 items \<and>
     (\<exists>i \<in> set items. il_row i = demo_challenge \<and> \<not> il_locked i)"
proof -
  let ?list = "handleListChallenges demo_platform (Some demo_user) (uuid_text 4)"
  let ?gate = "submit_gate demo_platform (uuid_text 4) (uuid_text 3) demo_challenge"
  have frozen: "frozen 1000 demo_world" by (auto simp: frozen_def reliable_def demo_world_def)
  have team: "player_team 4 (u_id demo_user) (db demo_world) = Some 3" by (simp add: player_team_def demo_defs)
  have admin: "\<not> is_admin (Some demo_user)" by (simp add: is_admin_def demo_user_def)
  have blocks: "distinct (map k_id (blocks (db demo_world)))" by (simp add: demo_defs)
  have of_event: "k_event b = c_event demo_challenge" if "block_in (db demo_world) demo_challenge = Some b" for b
    using that by (simp add: block_in_def demo_defs split: option.splits)
  have c: "demo_challenge \<in> set (challenges (db demo_world))" "c_event demo_challenge = 4"
    "c_state demo_challenge = ''published''" by (simp_all add: demo_defs)
  obtain items where items: "fst (run_state ?list demo_world) = Reply 200 items"
    using wpD [OF frozen_list [OF frozen admin team blocks, where P = demo_platform] prod.collapse [symmetric]]
    by blast
  have no_block: "block_in (db demo_world) demo_challenge = None" by (simp add: block_in_def demo_defs)
  have "gate_result demo_platform ts demo_challenge None = None" for ts
    by (simp add: gate_result_def demo_challenge_def new_challenge_def open_at_None inherited_schedule_def
        block_unlock_def unlocked_def)
  then have gate: "fst (run_state ?gate demo_world) = None"
    using wpD [OF frozen_submit_gate [OF frozen, where P = demo_platform and ev = 4 and tm = 3
          and c = demo_challenge] prod.collapse [symmetric]] by (simp only: no_block)
  have r1: "run_state ?list demo_world = (Reply 200 items, snd (run_state ?list demo_world))"
    using items by (simp add: prod_eq_iff)
  have r2: "run_state ?gate demo_world = (None, snd (run_state ?gate demo_world))"
    using gate by (simp add: prod_eq_iff)
  have "(None :: string option) = None \<longleftrightarrow> (\<exists>i \<in> set items. il_row i = demo_challenge \<and> \<not> il_locked i)"
    by (rule list_matches_gate [OF frozen admin team blocks c _ frozen refl r1 r2]) (rule of_event)
  with items show ?thesis by simp
qed

end
