(* ===== verification/Sort_Keys.thy ===== *)
theory Sort_Keys
  imports Store "HOL-Library.Product_Lexorder" "HOL-Library.Multiset"
begin

text \<open>
  Keys for \<open>ORDER BY\<close>: text in the C collation, and values with NULLS LAST, as linear orders of the
  library. A query that orders its rows by several columns sorts by a tuple of such keys, and
  \<open>order_by\<close> is then the library's stable \<open>sort_key\<close>.
\<close>

subsection \<open>Text\<close>

datatype text_key = Text string

lemma name_le_total: "name_le xs ys \<or> name_le ys xs"
  by (induction xs ys rule: name_le.induct) auto

lemma name_le_trans: "name_le xs ys \<Longrightarrow> name_le ys zs \<Longrightarrow> name_le xs zs"
proof (induction xs ys arbitrary: zs rule: name_le.induct)
  case (3 x xs y ys)
  then show ?case by (cases zs) auto
qed auto

lemma name_le_antisym: "name_le xs ys \<Longrightarrow> name_le ys xs \<Longrightarrow> xs = ys"
proof (induction xs ys rule: name_le.induct)
  case (1 ys)
  then show ?case by (cases ys) auto
qed auto

instantiation text_key :: linorder
begin

definition less_eq_text_key :: "text_key \<Rightarrow> text_key \<Rightarrow> bool" where
  "less_eq_text_key a b = (case a of Text x \<Rightarrow> case b of Text y \<Rightarrow> name_le x y)"

definition less_text_key :: "text_key \<Rightarrow> text_key \<Rightarrow> bool" where
  "less_text_key a b = (a \<le> b \<and> \<not> b \<le> a)"

instance
proof
  fix a b c :: text_key
  show "(a < b) = (a \<le> b \<and> \<not> b \<le> a)" by (rule less_text_key_def)
  show "a \<le> a" using name_le_total by (auto simp: less_eq_text_key_def split: text_key.split)
  show "a \<le> c" if "a \<le> b" "b \<le> c"
    using that name_le_trans by (auto simp: less_eq_text_key_def split: text_key.splits)
  show "a = b" if "a \<le> b" "b \<le> a"
    using that name_le_antisym by (auto simp: less_eq_text_key_def split: text_key.splits)
  show "a \<le> b \<or> b \<le> a"
    using name_le_total by (auto simp: less_eq_text_key_def split: text_key.split)
qed

end

lemma Text_le [simp]: "Text x \<le> Text y \<longleftrightarrow> name_le x y"
  by (simp add: less_eq_text_key_def)

subsection \<open>NULLS LAST\<close>

datatype 'a nulls_last = Value 'a | Null

definition nulls_last :: "'a option \<Rightarrow> 'a nulls_last" where
  "nulls_last x = (case x of None \<Rightarrow> Null | Some a \<Rightarrow> Value a)"

instantiation nulls_last :: (linorder) linorder
begin

definition less_eq_nulls_last :: "'a nulls_last \<Rightarrow> 'a nulls_last \<Rightarrow> bool" where
  "less_eq_nulls_last x y =
     (case y of Null \<Rightarrow> True | Value b \<Rightarrow> (case x of Null \<Rightarrow> False | Value a \<Rightarrow> a \<le> b))"

definition less_nulls_last :: "'a nulls_last \<Rightarrow> 'a nulls_last \<Rightarrow> bool" where
  "less_nulls_last x y = (x \<le> y \<and> \<not> y \<le> x)"

instance
  by standard (auto simp: less_eq_nulls_last_def less_nulls_last_def split: nulls_last.splits)

end

lemma nulls_last_simps [simp]:
  "Value a \<le> Value b \<longleftrightarrow> a \<le> b" "x \<le> Null" "\<not> Null \<le> Value (b :: 'a :: linorder)"
  "Value a < Value b \<longleftrightarrow> a < b" "Value a < Null" "\<not> Null < (x :: 'a nulls_last)"
  by (auto simp: less_eq_nulls_last_def less_nulls_last_def split: nulls_last.split)

lemma nulls_last_eq [simp]: "nulls_last x = nulls_last y \<longleftrightarrow> x = y"
  by (simp add: nulls_last_def split: option.split)

subsection \<open>Sorting\<close>

lemma order_by_sort_key:
  fixes k :: "'r \<Rightarrow> 'k :: linorder"
  assumes key: "\<And>a b. le a b \<longleftrightarrow> k a \<le> k b"
  shows "order_by le = sort_key k"
proof
  fix xs
  have "insert_by le x ys = insort_key k x ys" for x ys
    by (induction ys) (simp_all add: key)
  then show "order_by le xs = sort_key k xs" by (induction xs) simp_all
qed

lemma sorted_order_by:
  fixes k :: "'r \<Rightarrow> 'k :: linorder"
  assumes "\<And>a b. le a b \<longleftrightarrow> k a \<le> k b"
  shows "sorted_wrt le (order_by le xs)"
proof -
  have le: "le = (\<lambda>a b. k a \<le> k b)" by (intro ext) (rule assms)
  have "sorted_wrt (\<lambda>a b. k a \<le> k b) (sort_key k xs)" using sorted_sort_key [of k xs] by (simp only: sorted_map)
  then show ?thesis unfolding order_by_sort_key [of le k, OF assms] unfolding le .
qed

text \<open>Ordering rows neither loses nor repeats one.\<close>

lemma mset_insert_by [simp]: "mset (insert_by le x xs) = add_mset x (mset xs)"
  by (induction xs) auto

lemma mset_order_by [simp]: "mset (order_by le xs) = mset xs"
  by (induction xs) simp_all

lemma distinct_order_by: "distinct (map f (order_by le xs)) = distinct (map f xs)"
proof -
  have "mset (map f (order_by le xs)) = mset (map f xs)" by simp
  then show ?thesis by (rule mset_eq_imp_distinct_iff)
qed

end
