(* ===== verification/Boards.thy ===== *)
theory Boards
  imports Points Requests Sort_Keys
begin

text \<open>
  What is shown of the scores: \<open>Scoreboard\<close> of \<open>internal/store/store.go\<close>, the progress chart of
  \<open>series.go\<close>, notifications, the submission log and the statistics of \<open>notifications.go\<close>,
  with their handlers (\<open>internal/httpserver/scoreboard.go\<close>, \<open>admin_extra.go\<close>). The theorems:
  the scoreboard is ranked, complete and agrees with the journal, and so does the chart.
\<close>

subsection \<open>The scoreboard\<close>

record rank_row =
  rk_rank :: nat
  rk_team :: string
  rk_name :: string
  rk_points :: int
  rk_solves :: int
  rk_last :: "instant option"

text \<open>\<open>ORDER BY points DESC, last_solve_at ASC NULLS LAST, name ASC\<close>.\<close>

definition last_less :: "instant option \<Rightarrow> instant option \<Rightarrow> bool" where
  "last_less a b \<longleftrightarrow> (case a of None \<Rightarrow> False | Some t \<Rightarrow> (case b of None \<Rightarrow> True | Some u \<Rightarrow> t < u))"

definition rank_le :: "rank_row \<Rightarrow> rank_row \<Rightarrow> bool" where
  "rank_le a b \<longleftrightarrow> rk_points b < rk_points a \<or>
     (rk_points a = rk_points b \<and>
       (last_less (rk_last a) (rk_last b) \<or>
         (rk_last a = rk_last b \<and> name_le (rk_name a) (rk_name b))))"

text \<open>The \<open>LEFT JOIN\<close>: a team without an entry has no points.\<close>

definition board_row :: "uuid \<Rightarrow> database \<Rightarrow> team \<Rightarrow> rank_row" where
  "board_row ev d t =
     (case find (\<lambda>b. board_key b = (ev, tm_id t)) (board d) of
        None \<Rightarrow> \<lparr>rk_rank = 0, rk_team = uuid_text (tm_id t), rk_name = tm_name t, rk_points = 0,
                rk_solves = 0, rk_last = None\<rparr>
      | Some b \<Rightarrow> \<lparr>rk_rank = 0, rk_team = uuid_text (tm_id t), rk_name = tm_name t,
                rk_points = b_points b, rk_solves = b_solves b, rk_last = b_last b\<rparr>)"

fun number_from :: "nat \<Rightarrow> rank_row list \<Rightarrow> rank_row list" where
  "number_from i [] = []"
| "number_from i (r # rs) = r\<lparr>rk_rank := i + 1\<rparr> # number_from (i + 1) rs"

definition Scoreboard :: "string \<Rightarrow> nat \<Rightarrow> (world, store_error + rank_row list) action" where
  "Scoreboard eventID limit =
     or_fail (\<lambda>now u d. cast_uuid eventID (\<lambda>ev.
       Inr (take limit (order_by rank_le (map (board_row ev d) (teams_of ev d))), d)))
       (\<lambda>rows. ret (Inr (number_from 0 rows)))"

subsection \<open>The progress chart\<close>

record series =
  sq_team :: string
  sq_name :: string
  sq_points :: int
  sq_data :: "(instant \<times> int) list"

text \<open>\<open>scoreboard_entries se JOIN teams t\<close>, for entries with points.\<close>

definition top_rows :: "uuid \<Rightarrow> database \<Rightarrow> rank_row list" where
  "top_rows ev d =
     concat (map (\<lambda>b. map (\<lambda>t. \<lparr>rk_rank = 0, rk_team = uuid_text (tm_id t), rk_name = tm_name t,
                 rk_points = b_points b, rk_solves = b_solves b, rk_last = b_last b\<rparr>)
               (filter (\<lambda>t. tm_id t = b_team b) (teams d)))
       (filter (\<lambda>b. b_event b = ev \<and> b_points b > 0) (board d)))"

definition series_le :: "rank_row \<Rightarrow> rank_row \<Rightarrow> bool" where
  "series_le a b \<longleftrightarrow> rk_points b < rk_points a \<or>
     (rk_points a = rk_points b \<and> \<not> last_less (rk_last b) (rk_last a))"

definition score_rows :: "uuid \<Rightarrow> uuid list \<Rightarrow> database \<Rightarrow> (string \<times> instant \<times> int) list" where
  "score_rows ev ids d =
     map (\<lambda>s. (uuid_text (se_team s), se_at s, se_points s))
       (sort_key se_at (filter (\<lambda>s. se_event s = ev \<and> se_team s \<in> set ids) (score_events d)))"

text \<open>The zero \<open>time.Time\<close>: the first instant of the year 1.\<close>

definition zero_time :: instant where
  "zero_time = - 62135596800 * second"

fun first_time :: "(string \<times> instant \<times> int) list \<Rightarrow> instant \<Rightarrow> instant" where
  "first_time [] t0 = t0"
| "first_time ((tm, at, pts) # rows) t0 =
     first_time rows (if t0 = zero_time \<or> time_before at t0 then at else t0)"

text \<open>
  The second loop: \<open>running\<close> holds the totals so far, and the team the row belongs to gets the next
  point of its line (team ids are unique in the list, so its index is not written out).
\<close>

fun chart ::
  "(string \<times> instant \<times> int) list \<Rightarrow> (string \<Rightarrow> int) \<Rightarrow> series list \<Rightarrow> series list"
where
  "chart [] running ts = ts"
| "chart ((tm, at, pts) # rows) running ts =
     (let running = running(tm := running tm + pts)
      in chart rows running (map (\<lambda>t. if sq_team t = tm
           then t\<lparr>sq_data := sq_data t @ [(at, running tm)]\<rparr> else t) ts))"

definition ScoreboardSeries :: "string \<Rightarrow> nat \<Rightarrow> (world, store_error + series list) action" where
  "ScoreboardSeries eventID topN =
     or_fail (\<lambda>now u d. cast_uuid eventID (\<lambda>ev.
       Inr (take topN (order_by series_le (top_rows ev d)), d))) (\<lambda>rows.
     if rows = [] then ret (Inr [])
     else or_fail (\<lambda>now u d. cast_uuid eventID (\<lambda>ev. cast_uuids (map rk_team rows) (\<lambda>ids.
            Inr (score_rows ev ids d, d)))) (\<lambda>evs.
          ret (Inr (chart evs (\<lambda>_. 0) (map (\<lambda>r.
            \<lparr>sq_team = rk_team r, sq_name = rk_name r, sq_points = rk_points r,
             sq_data = [(first_time evs zero_time, 0)]\<rparr>) rows)))))"

subsection \<open>Notifications, submissions, statistics\<close>

definition CreateNotification :: "string \<Rightarrow> string \<Rightarrow> string \<Rightarrow> (world, store_error + notice) action" where
  "CreateNotification eventID title content = do {
     r \<leftarrow> db_call (\<lambda>now u d. cast_uuid eventID (\<lambda>ev.
       require (fresh_key n_id u (notifications d)) UniqueViolation (
       require (exists_row e_id ev (events d)) ForeignKeyViolation (
       let row = \<lparr>n_id = u, n_event = ev, n_title = title, n_content = content, n_created = now\<rparr>
       in Inr (row, d\<lparr>notifications := notifications d @ [row]\<rparr>)))));
     ret (failed r)
   }"

definition ListNotifications :: "string \<Rightarrow> nat \<Rightarrow> (world, store_error + notice list) action" where
  "ListNotifications eventID limit = do {
     r \<leftarrow> db_call (\<lambda>now u d. cast_uuid eventID (\<lambda>ev.
       Inr (take limit (sort_key (\<lambda>n. - n_created n)
              (filter (\<lambda>n. n_event n = ev) (notifications d))), d)));
     ret (failed r)
   }"

record log_row =
  lg_user :: string
  lg_team :: string
  lg_challenge :: string
  lg_correct :: bool
  lg_at :: instant

text \<open>The joins: a row for each user, team and challenge the submission refers to.\<close>

definition log_rows :: "uuid \<Rightarrow> database \<Rightarrow> log_row list" where
  "log_rows ev d = concat (map (\<lambda>s.
     [\<lparr>lg_user = u_name u, lg_team = tm_name t, lg_challenge = c_title c, lg_correct = sb_correct s,
       lg_at = sb_at s\<rparr>.
      u \<leftarrow> filter (\<lambda>u. u_id u = sb_user s) (users d),
      t \<leftarrow> filter (\<lambda>t. tm_id t = sb_team s) (teams d),
      c \<leftarrow> filter (\<lambda>c. c_id c = sb_ec s) (challenges d)])
     (filter (\<lambda>s. sb_event s = ev) (submissions d)))"

definition ListSubmissions :: "string \<Rightarrow> nat \<Rightarrow> (world, store_error + log_row list) action" where
  "ListSubmissions eventID limit = do {
     r \<leftarrow> db_call (\<lambda>now u d. cast_uuid eventID (\<lambda>ev.
       Inr (take limit (sort_key (\<lambda>r. - lg_at r) (log_rows ev d)), d)));
     ret (failed r)
   }"

record stats =
  st_teams :: nat
  st_challenges :: nat
  st_published :: nat
  st_solves :: nat
  st_submissions :: nat

definition Stats :: "string \<Rightarrow> (world, store_error + stats) action" where
  "Stats eventID = do {
     r \<leftarrow> db_call (\<lambda>now u d. cast_uuid eventID (\<lambda>ev.
       Inr (\<lparr>st_teams = count_where (\<lambda>x. et_event x = ev) (event_teams d),
             st_challenges = count_where (\<lambda>c. c_event c = ev) (challenges d),
             st_published = count_where (\<lambda>c. c_event c = ev \<and> c_state c = ''published'') (challenges d),
             st_solves = count_where (\<lambda>s. sb_event s = ev \<and> sb_correct s) (submissions d),
             st_submissions = count_where (\<lambda>s. sb_event s = ev) (submissions d)\<rparr>, d)));
     ret (failed r)
   }"

subsection \<open>The handlers\<close>

text \<open>
  \<open>cached\<close> is what Redis has for the page (\<open>None\<close>: nothing, or no answer); it is asked, and
  told, only for the default page. The answer is the cached text or the page's rows.
\<close>

definition handleScoreboard ::
  "server \<Rightarrow> string \<Rightarrow> string \<Rightarrow> string option \<Rightarrow> (world, (string + rank_row list) reply) action"
where
  "handleScoreboard srv eventID limit_arg cached =
     (let limit = query_limit 100 500 limit_arg; use_cache = (sv_redis srv \<and> limit = 100)
      in if use_cache \<and> cached \<noteq> None \<and> cached \<noteq> Some [] then ret (Reply 200 (Inl (the cached)))
         else do {
           r \<leftarrow> Scoreboard eventID limit;
           (case r of
              Inl _ \<Rightarrow> ret (Problem 500 ''scoreboard failed'')
            | Inr rows \<Rightarrow> do {
                (if use_cache then emit (CacheSet (''sb:'' @ eventID)) else ret ());
                ret (Reply 200 (Inr rows))
              })
         })"

definition handleScoreboardSeries :: "string \<Rightarrow> string \<Rightarrow> (world, series list reply) action" where
  "handleScoreboardSeries eventID top_arg = do {
     r \<leftarrow> ScoreboardSeries eventID (query_limit 10 25 top_arg);
     ret (case r of Inl _ \<Rightarrow> Problem 500 ''series failed'' | Inr ts \<Rightarrow> Reply 200 ts)
   }"

record notice_input =
  ni_title :: string
  ni_content :: string

definition notice_fields :: "(string \<times> notice_input setter) list" where
  "notice_fields =
     [(''title'', set_string (\<lambda>x r. r\<lparr>ni_title := x\<rparr>)),
      (''content'', set_string (\<lambda>x r. r\<lparr>ni_content := x\<rparr>))]"

definition handleCreateNotification ::
  "server \<Rightarrow> string \<Rightarrow> json option \<Rightarrow> (world, notice reply) action"
where
  "handleCreateNotification srv eventID body =
     with_body notice_fields \<lparr>ni_title = [], ni_content = []\<rparr> body (\<lambda>i.
       if trim_space (ni_title i) = [] then ret (Problem 422 ''title is required'')
       else do {
         r \<leftarrow> CreateNotification eventID (trim_space (ni_title i)) (ni_content i);
         (case r of
            Inl _ \<Rightarrow> ret (Problem 500 ''create failed'')
          | Inr n \<Rightarrow> do {
              publish srv eventID ''notification''
                (JObj [(''content'', JStr (n_content n)), (''title'', JStr (n_title n))]);
              ret (Reply 201 n)
            })
       })"

definition handleListNotifications :: "string \<Rightarrow> (world, notice list reply) action" where
  "handleListNotifications eventID = do {
     r \<leftarrow> ListNotifications eventID 50;
     ret (case r of Inl _ \<Rightarrow> Problem 500 ''list failed'' | Inr ns \<Rightarrow> Reply 200 ns)
   }"

definition handleListSubmissions :: "string \<Rightarrow> string \<Rightarrow> (world, log_row list reply) action" where
  "handleListSubmissions eventID limit_arg = do {
     r \<leftarrow> ListSubmissions eventID (query_limit 100 500 limit_arg);
     ret (case r of Inl _ \<Rightarrow> Problem 500 ''list failed'' | Inr rows \<Rightarrow> Reply 200 rows)
   }"

definition handleStats :: "string \<Rightarrow> (world, stats reply) action" where
  "handleStats eventID = do {
     r \<leftarrow> Stats eventID;
     ret (case r of Inl _ \<Rightarrow> Problem 500 ''stats failed'' | Inr s \<Rightarrow> Reply 200 s)
   }"

lemma quiet_boards [simp, quiet_intros]:
  "quiet (Scoreboard eventID n)" "quiet (ListNotifications eventID n)" "quiet (ListSubmissions eventID n)"
  "quiet (Stats eventID)"
  unfolding Scoreboard_def ListNotifications_def ListSubmissions_def Stats_def by (intro quiet_intros)+

subsection \<open>Ordered queries\<close>

text \<open>The two orders of the scoreboard, by keys of the library's linear orders.\<close>

definition rank_key :: "rank_row \<Rightarrow> int \<times> instant nulls_last \<times> text_key" where
  "rank_key r = (- rk_points r, nulls_last (rk_last r), Text (rk_name r))"

lemma last_less_key: "last_less a b \<longleftrightarrow> nulls_last a < nulls_last b"
  by (simp add: last_less_def nulls_last_def split: option.split)

lemma rank_le_key: "rank_le a b \<longleftrightarrow> rank_key a \<le> rank_key b"
  by (auto simp: rank_le_def rank_key_def last_less_key)

lemma series_le_key: "series_le a b \<longleftrightarrow> (- rk_points a, nulls_last (rk_last a)) \<le> (- rk_points b, nulls_last (rk_last b))"
  by (auto simp: series_le_def last_less_key)

lemma rank_sorted: "sorted_wrt rank_le (order_by rank_le rows)"
  by (rule sorted_order_by [where k = rank_key]) (rule rank_le_key)

subsection \<open>The scoreboard is ranked and complete\<close>

lemma number_from_map:
  "number_from i rs = map (\<lambda>(n, r). r\<lparr>rk_rank := n\<rparr>) (zip [i + 1..<i + 1 + length rs] rs)"
  by (induction rs arbitrary: i) (simp_all add: upt_conv_Cons del: upt_Suc)

lemma ranks_number_from [simp]: "map rk_rank (number_from i rs) = [i + 1..<i + 1 + length rs]"
  by (induction rs arbitrary: i) (simp_all add: upt_conv_Cons del: upt_Suc)

lemma length_number_from [simp]: "length (number_from i rs) = length rs"
  by (induction rs arbitrary: i) simp_all

lemma set_number_from: "r \<in> set (number_from i rs) \<Longrightarrow> \<exists>r0 n. r0 \<in> set rs \<and> r = r0\<lparr>rk_rank := n\<rparr>"
  by (induction rs arbitrary: i) fastforce+

lemma teams_number_from [simp]: "map rk_team (number_from i rs) = map rk_team rs"
  by (induction rs arbitrary: i) simp_all

lemma rank_le_rank [simp]: "rank_le (a\<lparr>rk_rank := n\<rparr>) b = rank_le a b" "rank_le a (b\<lparr>rk_rank := n\<rparr>) = rank_le a b"
  by (simp_all add: rank_le_def)

lemma sorted_number_from: "sorted_wrt rank_le rs \<Longrightarrow> sorted_wrt rank_le (number_from i rs)"
  by (induction rs arbitrary: i) (auto dest: set_number_from)

lemma board_row_shown:
  "rk_points (board_row ev d t) = shown_points d (ev, tm_id t)"
  "rk_solves (board_row ev d t) = shown_solves d (ev, tm_id t)"
  "rk_team (board_row ev d t) = uuid_text (tm_id t)"
  by (simp_all add: board_row_def shown_points_def shown_solves_def split: option.split)

lemma board_row_name: "rk_name (board_row ev d t) = tm_name t"
  by (simp add: board_row_def split: option.split)

lemma wp_Scoreboard:
  assumes "\<And>r w'. undisturbed w w' \<Longrightarrow>
      (\<And>rows. r = Inr rows \<Longrightarrow> \<exists>ev. uuid_in eventID = Some ev \<and>
         rows = number_from 0 (take n (order_by rank_le (map (board_row ev (db w)) (teams_of ev (db w)))))) \<Longrightarrow>
      Q r w'"
  shows "wp (Scoreboard eventID n) Q w"
  unfolding Scoreboard_def
  by (rule wp_or_fail; (intro quiet_intros)?)
     (auto intro!: assms simp: cast_uuid_def split: option.splits)

text \<open>Ids and assignments are primary keys, so that the query joins no team twice.\<close>

lemma teams_of_distinct:
  assumes "distinct (map tm_id (teams d))" and "distinct (map (\<lambda>x. (et_event x, et_team x)) (event_teams d))"
  shows "distinct (map tm_id (teams_of ev d))"
proof -
  have joined: "distinct (map tm_id (concat (map (\<lambda>x. filter (\<lambda>t. tm_id t = et_team x) (teams d)) xs)))"
    if "distinct (map et_team xs)" for xs
    using that by (induction xs) (auto intro: distinct_map_filter [OF assms(1)])
  have once: "distinct (map et_team (filter (\<lambda>x. et_event x = ev) xs))"
    if "distinct (map (\<lambda>x. (et_event x, et_team x)) xs)" for xs
    using that by (induction xs) (auto simp: image_iff)
  show ?thesis unfolding teams_of_def by (rule joined [OF once [OF assms(2)]])
qed

lemma uuid_text_eq: "uuid_text u = uuid_text v \<longleftrightarrow> u = v"
  by (metis option.inject uuid_in_text)

text \<open>
  C19. The scoreboard is in order and complete. The rows are numbered from 1 in the order of points,
  then of the last solve, then of names; each shows a team of the event with its name and exactly the points
  and solves the journal of score events gives it, no team twice; and a team that is left out, because of the limit,
  does not rank before one that is shown.
\<close>

theorem scoreboard_ranked:
  assumes "books (db w)" and "uuid_in eventID = Some ev"
    and "run_state (Scoreboard eventID n) w = (Inr rows, w')"
    and "distinct (map tm_id (teams (db w)))"
    and "distinct (map (\<lambda>x. (et_event x, et_team x)) (event_teams (db w)))"
  shows "distinct (map rk_team rows) \<and> sorted_wrt rank_le rows \<and> map rk_rank rows = [1..<Suc (length rows)] \<and>
    length rows = min n (length (teams_of ev (db w))) \<and>
    (\<forall>r \<in> set rows. \<exists>t \<in> set (teams_of ev (db w)). rk_team r = uuid_text (tm_id t) \<and>
       rk_name r = tm_name t \<and> rk_points r = recorded_points (db w) (ev, tm_id t) \<and>
       rk_solves r = recorded_solves (db w) (ev, tm_id t)) \<and>
    (\<forall>t \<in> set (teams_of ev (db w)). uuid_text (tm_id t) \<notin> rk_team ` set rows \<longrightarrow>
       (\<forall>r \<in> set rows. rank_le r (board_row ev (db w) t)))"
proof -
  let ?all = "order_by rank_le (map (board_row ev (db w)) (teams_of ev (db w)))"
  have "wp (Scoreboard eventID n) (\<lambda>r w'. r = Inr rows \<longrightarrow> rows = number_from 0 (take n ?all)) w"
    by (rule wp_Scoreboard) (use assms(2) in auto)
  from wpD [OF this assms(3)] have rows: "rows = number_from 0 (take n ?all)" by simp
  have sorted: "sorted_wrt rank_le (take n ?all)"
    and before: "r \<in> set (take n ?all) \<Longrightarrow> r' \<in> set (drop n ?all) \<Longrightarrow> rank_le r r'" for r r'
    using rank_sorted [of "map (board_row ev (db w)) (teams_of ev (db w))"]
    by (metis append_take_drop_id sorted_wrt_append)+
  have agree: "shown_points (db w) k = recorded_points (db w) k" "shown_solves (db w) k = recorded_solves (db w) k" for k
    using books_totals [OF assms(1)] unfolding totals_agree_def by blast+
  have "\<exists>t \<in> set (teams_of ev (db w)). rk_team r = uuid_text (tm_id t) \<and>
       rk_name r = tm_name t \<and> rk_points r = recorded_points (db w) (ev, tm_id t) \<and> rk_solves r = recorded_solves (db w) (ev, tm_id t)"
    if "r \<in> set rows" for r
    using set_number_from [OF that [unfolded rows]]
    by (auto simp: board_row_shown board_row_name agree dest!: in_set_takeD) blast
  moreover have "rank_le r (board_row ev (db w) t)"
    if t: "t \<in> set (teams_of ev (db w))" "uuid_text (tm_id t) \<notin> rk_team ` set rows" and r: "r \<in> set rows" for t r
  proof -
    have "rk_team ` set rows = rk_team ` set (take n ?all)"
      using teams_number_from [of 0 "take n ?all"] unfolding rows by (metis list.set_map)
    with t(2) have "board_row ev (db w) t \<notin> set (take n ?all)"
      by (metis board_row_shown(3) imageI)
    moreover have "board_row ev (db w) t \<in> set ?all" using t(1) by simp
    ultimately have "board_row ev (db w) t \<in> set (drop n ?all)"
      by (metis Un_iff append_take_drop_id set_append)
    with before set_number_from [OF r [unfolded rows]] show ?thesis by auto
  qed
  moreover have "distinct (map rk_team rows)"
  proof -
    have "map (rk_team \<circ> board_row ev (db w)) ts = map uuid_text (map tm_id ts)" for ts
      by (simp add: board_row_shown)
    then have "distinct (map (rk_team \<circ> board_row ev (db w)) (teams_of ev (db w)))"
      using teams_of_distinct [OF assms(4,5)] by (simp add: distinct_map inj_on_def uuid_text_eq)
    then have "distinct (map rk_team ?all)" by (simp add: distinct_order_by)
    then have "distinct (take n (map rk_team ?all))" by (rule distinct_take)
    then show ?thesis by (simp add: rows take_map)
  qed
  ultimately show ?thesis
    using sorted_number_from [OF sorted, of 0] by (simp add: rows)
qed

definition demo_board :: "store_error + rank_row list" where
  "demo_board = fst (run_state (Scoreboard (uuid_text 4) 100) demo_solved)"

lemma demo_board_run:
  "\<exists>row. run_state (Scoreboard (uuid_text 4) 100) demo_solved =
     (Inr [row], snd (run_state (Scoreboard (uuid_text 4) 100) demo_solved))"
proof -
  have "case demo_board of Inl e \<Rightarrow> False | Inr rows \<Rightarrow> length rows = 1"
    unfolding demo_board_def demo_solved_def demo_solve_def
    by (simp add: RecordSolve_def transaction_def run_simps call_defs demo_defs Let_def
        nilIfEmpty_def score_defs Scoreboard_def or_fail_def teams_of_def)
  then show ?thesis
    by (auto simp: demo_board_def prod_eq_iff length_Suc_conv split: sum.splits)
qed

theorem scoreboard_ranked_witness:
  "\<exists>row. demo_board = Inr [row] \<and> rk_rank row = 1 \<and> rk_points row = recorded_points (db demo_solved) (4, 3)"
proof -
  obtain row where row: "run_state (Scoreboard (uuid_text 4) 100) demo_solved =
     (Inr [row], snd (run_state (Scoreboard (uuid_text 4) 100) demo_solved))"
    using demo_board_run by blast
  have books: "books (db demo_solved)"
    using solve_keeps_books [OF books_demo demo_solve_run [unfolded demo_solve_def]] .
  have same: "teams (db demo_solved) = teams demo_db" "event_teams (db demo_solved) = event_teams demo_db"
    unfolding demo_solved_def demo_solve_def
    by (simp_all add: RecordSolve_def transaction_def run_simps call_defs demo_defs Let_def
        nilIfEmpty_def score_defs)
  have keys: "distinct (map tm_id (teams (db demo_solved)))"
    "distinct (map (\<lambda>x. (et_event x, et_team x)) (event_teams (db demo_solved)))"
    by (simp_all add: same demo_db_def)
  have "map tm_id (teams_of 4 (db demo_solved)) = [3]"
    unfolding teams_of_def same by (simp add: demo_db_def)
  then have "\<forall>t \<in> set (teams_of 4 (db demo_solved)). tm_id t = 3" by (auto simp: map_eq_Cons_conv)
  moreover have "map rk_rank [row] = [1..<Suc (length [row])]"
    and "\<exists>t \<in> set (teams_of 4 (db demo_solved)). rk_points row = recorded_points (db demo_solved) (4, tm_id t)"
    using scoreboard_ranked [OF books uuid_in_text row keys] by simp_all blast
  ultimately have "rk_rank row = 1 \<and> rk_points row = recorded_points (db demo_solved) (4, 3)" by auto
  moreover have "demo_board = Inr [row]" unfolding demo_board_def by (subst row) simp
  ultimately show ?thesis by blast
qed

subsection \<open>The chart ends at the total\<close>

fun line :: "(string \<times> instant \<times> int) list \<Rightarrow> string \<Rightarrow> int \<Rightarrow> (instant \<times> int) list" where
  "line [] tm acc = []"
| "line ((t, at, pts) # rows) tm acc =
     (if t = tm then (at, acc + pts) # line rows tm (acc + pts) else line rows tm acc)"

lemma chart_lines:
  "chart rows running ts =
     map (\<lambda>t. t\<lparr>sq_data := sq_data t @ line rows (sq_team t) (running (sq_team t))\<rparr>) ts"
proof (induction rows running ts rule: chart.induct)
  case (1 running ts)
  show ?case by (simp add: map_idI)
next
  case (2 tm at pts rows running ts)
  note IH = "2.IH" [OF refl]
  show ?case
    unfolding chart.simps Let_def IH map_map comp_def by (rule map_cong) auto
qed

lemma line_total:
  "snd (last ((t0, acc) # line rows tm acc)) = acc + (\<Sum>r \<leftarrow> filter (\<lambda>r. fst r = tm) rows. snd (snd r))"
  by (induction rows tm acc arbitrary: t0 rule: line.induct) auto

lemma line_times: "map fst (line rows tm acc) = map (\<lambda>r. fst (snd r)) (filter (\<lambda>r. fst r = tm) rows)"
  by (induction rows tm acc rule: line.induct) auto

lemma sum_list_sort: "(\<Sum>x \<leftarrow> filter P (sort_key k xs). f x) = (\<Sum>x \<leftarrow> filter P xs. (f x :: int))"
proof -
  have "mset (map f (filter P (sort_key k xs))) = mset (map f (filter P xs))" by simp
  then show ?thesis by (metis sum_mset_sum_list)
qed

lemma score_rows_total:
  assumes "tm \<in> set ids"
  shows "(\<Sum>r \<leftarrow> filter (\<lambda>r. fst r = uuid_text tm) (score_rows ev ids d). snd (snd r)) =
     recorded_points d (ev, tm)"
proof -
  have "(\<Sum>r \<leftarrow> filter (\<lambda>r. fst r = uuid_text tm) (score_rows ev ids d). snd (snd r)) =
      (\<Sum>s \<leftarrow> filter (\<lambda>s. se_team s = tm) (sort_key se_at
         (filter (\<lambda>s. se_event s = ev \<and> se_team s \<in> set ids) (score_events d))). se_points s)"
    by (simp add: score_rows_def filter_map comp_def uuids.enc_inject)
  also have "\<dots> = (\<Sum>s \<leftarrow> filter (\<lambda>s. se_team s = tm)
         (filter (\<lambda>s. se_event s = ev \<and> se_team s \<in> set ids) (score_events d)). se_points s)"
    by (rule sum_list_sort)
  also have "\<dots> = recorded_points d (ev, tm)"
    using assms unfolding recorded_points_def score_account_def filter_filter
    by (intro arg_cong [where f = sum_list] arg_cong [where f = "map se_points"] filter_cong) auto
  finally show ?thesis .
qed

lemma score_rows_sorted: "sorted (map (\<lambda>r. fst (snd r)) (score_rows ev ids d))"
  by (simp add: score_rows_def comp_def)

lemma top_rows_shown:
  assumes "distinct (map board_key (board d))" and "r \<in> set (top_rows ev d)"
  shows "\<exists>tm. rk_team r = uuid_text tm \<and> rk_points r = shown_points d (ev, tm)"
proof -
  from assms(2) obtain b where b: "b \<in> set (board d)" "b_event b = ev"
    and r: "rk_team r = uuid_text (b_team b)" "rk_points r = b_points b"
    by (auto simp: top_rows_def)
  from find_unique [OF assms(1) b(1)] b(2) have "find (\<lambda>x. board_key x = (ev, b_team b)) (board d) = Some b"
    by (simp add: board_key_def)
  with r show ?thesis by (auto simp: shown_points_def)
qed

lemma wp_ScoreboardSeries:
  assumes "\<And>r w'. undisturbed w w' \<Longrightarrow>
      (\<And>ts. r = Inr ts \<Longrightarrow> ts = [] \<or> (\<exists>ev ids evs rows. uuid_in eventID = Some ev \<and>
         evs = score_rows ev ids (db w) \<and> set rows \<subseteq> set (top_rows ev (db w)) \<and>
         map uuid_in (map rk_team rows) = map Some ids \<and>
         ts = chart evs (\<lambda>_. 0) (map (\<lambda>r. \<lparr>sq_team = rk_team r, sq_name = rk_name r,
           sq_points = rk_points r, sq_data = [(first_time evs zero_time, 0)]\<rparr>) rows))) \<Longrightarrow> Q r w'"
  shows "wp (ScoreboardSeries eventID n) Q w"
  unfolding ScoreboardSeries_def
proof (rule wp_or_fail)
  fix rows d w1
  assume u: "undisturbed w w1" and "cast_uuid eventID (\<lambda>ev.
       Inr (take n (order_by series_le (top_rows ev (db w))), db w)) = Inr (rows, d)"
  then obtain ev where ev: "uuid_in eventID = Some ev" and rows: "set rows \<subseteq> set (top_rows ev (db w))"
    using set_take_subset [of n "order_by series_le (top_rows ev (db w))" for ev] by fastforce
  let ?k = "\<lambda>evs. ret (Inr (chart evs (\<lambda>_. 0) (map (\<lambda>r.
            \<lparr>sq_team = rk_team r, sq_name = rk_name r, sq_points = rk_points r,
             sq_data = [(first_time evs zero_time, 0)]\<rparr>) rows)))"
  have fault: "Q (Inl (Failed e)) w'" if "undisturbed w w'" for e w' using that by (intro assms) simp_all
  show "wp (if rows = [] then ret (Inr [])
     else or_fail (\<lambda>now u d. cast_uuid eventID (\<lambda>ev. cast_uuids (map rk_team rows) (\<lambda>ids.
            Inr (score_rows ev ids d, d)))) ?k) Q w1"
  proof (cases "rows = []")
    case True
    then show ?thesis using u by (auto intro!: assms)
  next
    case False
    have "wp (or_fail (\<lambda>now u d. cast_uuid eventID (\<lambda>ev. cast_uuids (map rk_team rows) (\<lambda>ids.
            Inr (score_rows ev ids d, d)))) ?k) Q w1"
    proof (rule wp_or_fail)
      show "reads (\<lambda>now u d. cast_uuid eventID (\<lambda>ev. cast_uuids (map rk_team rows) (\<lambda>ids.
            Inr (score_rows ev ids d, d))))"
        by (auto simp: reads_def cast_uuids_Inr)
    next
      fix evs d w2
      assume u2: "undisturbed w1 w2" and "cast_uuid eventID (\<lambda>ev. cast_uuids (map rk_team rows) (\<lambda>ids.
            Inr (score_rows ev ids (db w1), db w1))) = Inr (evs, d)"
      then obtain ids where "map uuid_in (map rk_team rows) = map Some ids" "evs = score_rows ev ids (db w)"
        using ev undisturbedD(1) [OF u] by (auto simp: cast_uuids_Inr)
      with ev rows show "wp (?k evs) Q w2"
        unfolding wp_ret by (intro assms undisturbed_trans [OF u u2]) blast
    qed (auto intro: fault undisturbed_trans [OF u])
    with False show ?thesis by simp
  qed
next
  fix e w'
  assume "undisturbed w w'"
  then show "Q (Inl (Failed e)) w'" by (intro assms) simp_all
qed (intro quiet_intros, rule refl)

text \<open>
  C20. The chart agrees with the scoreboard. In the answer of \<open>ScoreboardSeries\<close>, the line of every
  team ends at the points the scoreboard shows for it, which are those of the journal, and its points
  come in the order of time after the origin.
\<close>

theorem series_ends_at_total:
  assumes "books (db w)" and "distinct (map board_key (board (db w)))" and "uuid_in eventID = Some ev"
    and "run_state (ScoreboardSeries eventID n) w = (Inr ts, w')" and "t \<in> set ts"
  shows "\<exists>tm. sq_team t = uuid_text tm \<and> sq_points t = recorded_points (db w) (ev, tm) \<and>
     snd (last (sq_data t)) = sq_points t \<and> snd (hd (sq_data t)) = 0 \<and> sorted (map fst (tl (sq_data t)))"
proof -
  have "wp (ScoreboardSeries eventID n) (\<lambda>r w'. r = Inr ts \<longrightarrow> (\<exists>ids evs rows.
         evs = score_rows ev ids (db w) \<and> set rows \<subseteq> set (top_rows ev (db w)) \<and>
         map uuid_in (map rk_team rows) = map Some ids \<and>
         ts = chart evs (\<lambda>_. 0) (map (\<lambda>r. \<lparr>sq_team = rk_team r, sq_name = rk_name r,
           sq_points = rk_points r, sq_data = [(first_time evs zero_time, 0)]\<rparr>) rows))) w"
    by (rule wp_ScoreboardSeries) (use assms(3,5) in fastforce)
  from wpD [OF this assms(4)] obtain ids evs rows
    where evs: "evs = score_rows ev ids (db w)" and rows: "set rows \<subseteq> set (top_rows ev (db w))"
      and ids: "map uuid_in (map rk_team rows) = map Some ids"
      and ts: "ts = chart evs (\<lambda>_. 0) (map (\<lambda>r. \<lparr>sq_team = rk_team r, sq_name = rk_name r,
           sq_points = rk_points r, sq_data = [(first_time evs zero_time, 0)]\<rparr>) rows)"
    by auto
  from assms(5) obtain r where r: "r \<in> set rows"
    and t: "sq_team t = rk_team r" "sq_points t = rk_points r"
      "sq_data t = (first_time evs zero_time, 0) # line evs (rk_team r) 0"
    unfolding ts chart_lines by auto
  from r rows top_rows_shown [OF assms(2)] obtain tm
    where tm: "rk_team r = uuid_text tm" "rk_points r = shown_points (db w) (ev, tm)" by blast
  have "Some tm \<in> set (map uuid_in (map rk_team rows))"
    using r tm(1) by (force simp: uuid_in_text)
  then have "tm \<in> set ids" unfolding ids by auto
  from score_rows_total [OF this] have "snd (last (sq_data t)) = recorded_points (db w) (ev, tm)"
    unfolding t(3) line_total evs tm(1) by simp
  moreover have "shown_points (db w) (ev, tm) = recorded_points (db w) (ev, tm)"
    using books_totals [OF assms(1)] unfolding totals_agree_def by blast
  moreover have "sorted (map fst (line evs (rk_team r) 0))"
    unfolding line_times evs
    using sorted_filter [OF score_rows_sorted] by (simp add: comp_def)
  ultimately show ?thesis using t tm by (intro exI [of _ tm]) simp
qed

lemma demo_series_run:
  "\<exists>t. run_state (ScoreboardSeries (uuid_text 4) 10) demo_solved =
     (Inr [t], snd (run_state (ScoreboardSeries (uuid_text 4) 10) demo_solved)) \<and>
     distinct (map board_key (board (db demo_solved)))"
proof -
  have "case fst (run_state (ScoreboardSeries (uuid_text 4) 10) demo_solved) of
      Inl e \<Rightarrow> False | Inr ts \<Rightarrow> length ts = 1 \<and> distinct (map board_key (board (db demo_solved)))"
    unfolding demo_solved_def demo_solve_def
    by (simp add: RecordSolve_def transaction_def run_simps call_defs demo_defs Let_def
        nilIfEmpty_def score_defs ScoreboardSeries_def or_fail_def top_rows_def score_rows_def chart_lines)
  then show ?thesis
    by (auto simp: prod_eq_iff length_Suc_conv split: sum.splits)
qed

theorem series_ends_at_total_witness:
  "\<exists>t. fst (run_state (ScoreboardSeries (uuid_text 4) 10) demo_solved) = Inr [t] \<and>
     snd (last (sq_data t)) = sq_points t"
proof -
  obtain t where t: "run_state (ScoreboardSeries (uuid_text 4) 10) demo_solved =
     (Inr [t], snd (run_state (ScoreboardSeries (uuid_text 4) 10) demo_solved))"
    and keys: "distinct (map board_key (board (db demo_solved)))"
    using demo_series_run by blast
  have "books (db demo_solved)"
    using solve_keeps_books [OF books_demo demo_solve_run [unfolded demo_solve_def]] .
  from series_ends_at_total [OF this keys uuid_in_text t, of t]
  have "snd (last (sq_data t)) = sq_points t" by auto
  moreover have "fst (run_state (ScoreboardSeries (uuid_text 4) 10) demo_solved) = Inr [t]"
    by (subst t) simp
  ultimately show ?thesis by blast
qed

end
