(* ===== verification/Event_Api.thy ===== *)
theory Event_Api
  imports Gating Instances Requests
begin

text \<open>
  The handlers for events (\<open>internal/httpserver/events.go\<close>), teams (\<open>teams.go\<close>) and gating
  (\<open>gating_handlers.go\<close>). The theorems: players are shown
  the events of their team only, and a team whose creator could not be added to it stays behind.
\<close>

subsection \<open>Events\<close>

record event_input =
  ev_slug :: string
  ev_name :: string
  ev_starts :: "string option"
  ev_ends :: "string option"
  ev_freeze :: "string option"
  ev_bonus :: int

definition zero_event_input :: event_input where
  "zero_event_input = \<lparr>ev_slug = [], ev_name = [], ev_starts = None, ev_ends = None,
     ev_freeze = None, ev_bonus = 0\<rparr>"

definition event_fields :: "(string \<times> event_input setter) list" where
  "event_fields =
     [(''slug'', set_string (\<lambda>x r. r\<lparr>ev_slug := x\<rparr>)),
      (''name'', set_string (\<lambda>x r. r\<lparr>ev_name := x\<rparr>)),
      (''starts_at'', set_string_ptr (\<lambda>x r. r\<lparr>ev_starts := x\<rparr>)),
      (''ends_at'', set_string_ptr (\<lambda>x r. r\<lparr>ev_ends := x\<rparr>)),
      (''freeze_at'', set_string_ptr (\<lambda>x r. r\<lparr>ev_freeze := x\<rparr>)),
      (''first_blood_bonus'', set_int (\<lambda>x r. r\<lparr>ev_bonus := x\<rparr>))]"

definition handleCreateEvent :: "user \<Rightarrow> json option \<Rightarrow> (world, event reply) action" where
  "handleCreateEvent u body =
     with_body event_fields zero_event_input body (\<lambda>i.
       let slug = trim_space (ev_slug i)
       in if slug = [] \<or> trim_space (ev_name i) = [] then ret (Problem 422 ''slug and name are required'')
          else (case (parseTimePtr (ev_starts i), parseTimePtr (ev_ends i), parseTimePtr (ev_freeze i)) of
                  (Some startsAt, Some endsAt, Some freezeAt) \<Rightarrow> do {
                    r \<leftarrow> CreateEvent (uuid_text (u_org u)) slug (ev_name i) startsAt endsAt freezeAt (ev_bonus i);
                    ret (case r of
                           Inl Conflict \<Rightarrow> Problem 409 ''event slug already exists''
                         | Inl _ \<Rightarrow> Problem 500 ''create event failed''
                         | Inr e \<Rightarrow> Reply 201 e)
                  }
                | _ \<Rightarrow> ret (Problem 422 ''timestamps must be RFC3339'')))"

text \<open>
  Players see the events of their team; admins and visitors see those of an organization. (An error
  of the organization's lookup is kept, and fails the request even where its result is not used,
  unless a later lookup overwrites it.)
\<close>

definition handleListEvents :: "user option \<Rightarrow> (world, event list reply) action" where
  "handleListEvents u = do {
     def_org \<leftarrow> DefaultOrgID;
     (case (u, def_org) of
        (None, Inl _) \<Rightarrow> ret (Problem 500 ''no default org'')
      | _ \<Rightarrow> do {
          let orgID = (case u of Some u \<Rightarrow> uuid_text (u_org u) | None \<Rightarrow> (case def_org of Inl _ \<Rightarrow> [] | Inr o' \<Rightarrow> o'));
          r \<leftarrow> (if u \<noteq> None \<and> \<not> is_admin u then do {
                  t \<leftarrow> UserTeam (uuid_text (u_id (the u)));
                  (case t of
                     Inl _ \<Rightarrow> ret (case def_org of Inl e \<Rightarrow> Inl e | Inr _ \<Rightarrow> Inr [])
                   | Inr t \<Rightarrow> ListEventsForTeam orgID (uuid_text (tm_id (fst t))))
                } else ListEvents orgID);
          ret (case r of Inl _ \<Rightarrow> Problem 500 ''list failed'' | Inr es \<Rightarrow> Reply 200 es)
        })
   }"

definition handleGetEvent :: "string \<Rightarrow> (world, event reply) action" where
  "handleGetEvent eventID = do {
     r \<leftarrow> GetEvent eventID;
     ret (case r of
            Inl NotFound \<Rightarrow> Problem 404 ''event not found''
          | Inl _ \<Rightarrow> Problem 500 ''get failed''
          | Inr e \<Rightarrow> Reply 200 e)
   }"

definition state_field :: "(string \<times> string setter) list" where
  "state_field = [(''state'', set_string (\<lambda>x _. x))]"

definition handleSetEventState ::
  "server \<Rightarrow> string \<Rightarrow> json option \<Rightarrow> (world, string reply) action"
where
  "handleSetEventState srv eventID body =
     with_body state_field [] body (\<lambda>st.
       if \<not> oneOf st [''draft'', ''running'', ''ended'']
       then ret (Problem 422 ''state must be draft|running|ended'')
       else do {
         r \<leftarrow> SetEventState eventID st;
         (case r of
            Inl NotFound \<Rightarrow> ret (Problem 404 ''event not found'')
          | Inl _ \<Rightarrow> ret (Problem 500 ''update failed'')
          | Inr _ \<Rightarrow> do {
              publish srv eventID ''challenges.changed'' JNull;
              ret (Reply 200 st)
            })
       })"

subsection \<open>Teams\<close>

definition name_field :: "(string \<times> string setter) list" where
  "name_field = [(''name'', set_string (\<lambda>x _. x))]"

text \<open>A team and the caller's role in it.\<close>

definition handleCreateTeam :: "user \<Rightarrow> json option \<Rightarrow> (world, (team \<times> string) reply) action" where
  "handleCreateTeam u body =
     with_body name_field [] body (\<lambda>name.
       if trim_space name = [] then ret (Problem 422 ''name is required'')
       else do {
         mine \<leftarrow> UserTeam (uuid_text (u_id u));
         (case mine of
            Inr _ \<Rightarrow> ret (Problem 409 ''you already belong to a team'')
          | Inl _ \<Rightarrow> do {
              code \<leftarrow> random_token;
              (case code of
                 None \<Rightarrow> ret (Problem 500 ''code gen failed'')
               | Some code \<Rightarrow> do {
                   t \<leftarrow> CreateTeam (uuid_text (u_org u)) (trim_space name) code;
                   (case t of
                      Inl Conflict \<Rightarrow> ret (Problem 409 ''team name already taken'')
                    | Inl _ \<Rightarrow> ret (Problem 500 ''create team failed'')
                    | Inr t \<Rightarrow> do {
                        r \<leftarrow> AddTeamMember (uuid_text (u_id u)) (uuid_text (tm_id t)) ''captain'';
                        ret (case r of
                               Inl _ \<Rightarrow> Problem 500 ''membership failed''
                             | Inr _ \<Rightarrow> Reply 201 (t, ''captain''))
                      })
                 })
            })
       })"

definition invite_field :: "(string \<times> string setter) list" where
  "invite_field = [(''invite_code'', set_string (\<lambda>x _. x))]"

definition handleJoinTeam :: "user \<Rightarrow> json option \<Rightarrow> (world, (team \<times> string) reply) action" where
  "handleJoinTeam u body =
     with_body invite_field [] body (\<lambda>code. do {
       t \<leftarrow> TeamByInvite (trim_space code);
       (case t of
          Inl NotFound \<Rightarrow> ret (Problem 404 ''invalid invite code'')
        | Inl _ \<Rightarrow> ret (Problem 500 ''lookup failed'')
        | Inr t \<Rightarrow> do {
            r \<leftarrow> AddTeamMember (uuid_text (u_id u)) (uuid_text (tm_id t)) ''member'';
            ret (case r of
                   Inl Conflict \<Rightarrow> Problem 409 ''you already belong to a team''
                 | Inl _ \<Rightarrow> Problem 500 ''join failed''
                 | Inr _ \<Rightarrow> Reply 200 (hide_invite t, ''member''))
          })
     })"

definition handleMyTeam :: "user \<Rightarrow> (world, (team \<times> string) option reply) action" where
  "handleMyTeam u = do {
     r \<leftarrow> UserTeam (uuid_text (u_id u));
     ret (case r of
            Inl NotFound \<Rightarrow> Reply 200 None
          | Inl _ \<Rightarrow> Problem 500 ''lookup failed''
          | Inr t \<Rightarrow> Reply 200 (Some t))
   }"

definition handleListTeams :: "string \<Rightarrow> (world, team list reply) action" where
  "handleListTeams eventID = do {
     r \<leftarrow> ListTeams eventID;
     ret (case r of Inl _ \<Rightarrow> Problem 500 ''list failed'' | Inr ts \<Rightarrow> Reply 200 ts)
   }"

text \<open>The team, the solved challenges and the points.\<close>

definition handleMyStatus ::
  "user \<Rightarrow> string \<Rightarrow> (world, (string option \<times> string list \<times> int) reply) action"
where
  "handleMyStatus u eventID = do {
     t \<leftarrow> PlayerTeamForEvent eventID (uuid_text (u_id u));
     (case t of
        Inl NotFound \<Rightarrow> ret (Reply 200 (None, [], 0))
      | Inl _ \<Rightarrow> ret (Problem 500 ''status failed'')
      | Inr teamID \<Rightarrow> do {
          g \<leftarrow> TeamGateState eventID teamID;
          ret (case g of
                 Inl _ \<Rightarrow> Problem 500 ''status failed''
               | Inr gs \<Rightarrow> Reply 200 (Some teamID, gs_solved gs, gs_points gs))
        })
   }"

definition handleListOrgTeams :: "user \<Rightarrow> (world, team list reply) action" where
  "handleListOrgTeams u = do {
     r \<leftarrow> ListOrgTeams (uuid_text (u_org u));
     ret (case r of Inl _ \<Rightarrow> Problem 500 ''list failed'' | Inr ts \<Rightarrow> Reply 200 ts)
   }"

definition team_field :: "(string \<times> string setter) list" where
  "team_field = [(''team_id'', set_string (\<lambda>x _. x))]"

definition handleAssignEventTeam ::
  "server \<Rightarrow> string \<Rightarrow> json option \<Rightarrow> (world, unit reply) action"
where
  "handleAssignEventTeam srv eventID body =
     with_body team_field [] body (\<lambda>teamID.
       if teamID = [] then ret (Problem 422 ''team_id is required'')
       else do {
         r \<leftarrow> AssignEventTeam eventID teamID;
         (case r of
            Inl _ \<Rightarrow> ret (Problem 500 ''assign failed'')
          | Inr _ \<Rightarrow> do { scoreChanged srv eventID; ret (Reply 200 ()) })
       })"

definition handleUnassignEventTeam ::
  "server \<Rightarrow> string \<Rightarrow> string \<Rightarrow> (world, unit reply) action"
where
  "handleUnassignEventTeam srv eventID teamID = do {
     r \<leftarrow> UnassignEventTeam eventID teamID;
     (case r of
        Inl _ \<Rightarrow> ret (Problem 500 ''unassign failed'')
      | Inr _ \<Rightarrow> do { scoreChanged srv eventID; ret (Reply 200 ()) })
   }"

subsection \<open>Gating\<close>

definition schedule_field :: "(string \<times> json option setter) list" where
  "schedule_field = [(''schedule'', set_raw (\<lambda>x _. x))]"

definition unlock_field :: "(string \<times> json option setter) list" where
  "unlock_field = [(''unlock_rule'', set_raw (\<lambda>x _. x))]"

text \<open>A change to a challenge is announced when it took place.\<close>

definition announce_update ::
  "server \<Rightarrow> string \<Rightarrow> (world, store_error + unit) action \<Rightarrow> (world, unit reply) action"
where
  "announce_update srv eventID m = do {
     r \<leftarrow> m;
     (case r of Inl _ \<Rightarrow> ret () | Inr _ \<Rightarrow> publish srv eventID ''challenges.changed'' JNull);
     ret (respondUpdate r)
   }"

definition handleSetChallengeSchedule ::
  "server \<Rightarrow> string \<Rightarrow> string \<Rightarrow> json option \<Rightarrow> (world, unit reply) action"
where
  "handleSetChallengeSchedule srv eventID ecID body =
     with_body schedule_field None body (\<lambda>sched.
       announce_update srv eventID (SetChallengeSchedule ecID sched))"

definition handleSetChallengeUnlock ::
  "server \<Rightarrow> string \<Rightarrow> string \<Rightarrow> json option \<Rightarrow> (world, unit reply) action"
where
  "handleSetChallengeUnlock srv eventID ecID body =
     with_body unlock_field None body (\<lambda>unlock_rule.
       announce_update srv eventID (SetChallengeUnlock ecID unlock_rule))"

definition handleSetBlockSchedule :: "string \<Rightarrow> json option \<Rightarrow> (world, unit reply) action" where
  "handleSetBlockSchedule blockID body =
     with_body schedule_field None body (\<lambda>sched. do {
       r \<leftarrow> SetBlockSchedule blockID sched;
       ret (respondUpdate r)
     })"

subsection \<open>Players see the events of their team\<close>

lemma wp_UserTeam:
  assumes "\<And>r w'. undisturbed w w' \<Longrightarrow>
      (\<And>t. r = Inr t \<Longrightarrow> \<exists>us. uuid_in userID = Some us \<and> user_team us (db w) = Some t) \<Longrightarrow> Q r w'"
  shows "wp (UserTeam userID) Q w"
  unfolding UserTeam_def wp_bind
  by (rule wp_read; (intro quiet_intros)?) (auto simp: cast_uuid_def intro!: assms split: option.splits)

lemma wp_ListEventsForTeam:
  assumes "\<And>r w'. undisturbed w w' \<Longrightarrow>
      (\<And>es e. r = Inr es \<Longrightarrow> e \<in> set es \<Longrightarrow> \<exists>org tm. uuid_in orgID = Some org \<and> uuid_in teamID = Some tm \<and>
         e \<in> set (events (db w)) \<and> e_org e = org \<and>
         (\<exists>x \<in> set (event_teams (db w)). et_event x = e_id e \<and> et_team x = tm)) \<Longrightarrow> Q r w'"
  shows "wp (ListEventsForTeam orgID teamID) Q w"
  unfolding ListEventsForTeam_def wp_bind
  by (rule wp_read; (intro quiet_intros)?)
     (auto simp: cast_uuid_def list_ex_iff intro!: assms split: option.splits)

lemma undisturbed_DefaultOrgID: "undisturbed w (snd (run_state DefaultOrgID w))"
proof -
  have "wp DefaultOrgID (\<lambda>r w'. undisturbed w w') w"
    unfolding DefaultOrgID_def wp_bind by (rule wp_read) (auto intro: quiet_intros simp: query_def)
  then show ?thesis by (simp add: wp_def split_beta)
qed

text \<open>
  C21. A player sees only what concerns the player. Every event \<open>handleListEvents\<close> lists for a user
  who is no admin is an event of the user's organisation that the user's team is assigned to; so without
  a team the list is empty.
\<close>

theorem listed_events_assigned:
  assumes "run_state (handleListEvents (Some u)) w = (Reply 200 es, w')" and "\<not> is_admin (Some u)"
    and "e \<in> set es"
  shows "\<exists>t role. user_team (u_id u) (db w) = Some (t, role) \<and> e \<in> set (events (db w)) \<and> e_org e = u_org u \<and>
     (\<exists>x \<in> set (event_teams (db w)). et_event x = e_id e \<and> et_team x = tm_id t)"
proof -
  let ?Q = "\<lambda>r w'. r = Reply 200 es \<longrightarrow> (\<exists>t role. user_team (u_id u) (db w) = Some (t, role) \<and> e \<in> set (events (db w)) \<and> e_org e = u_org u \<and>
     (\<exists>x \<in> set (event_teams (db w)). et_event x = e_id e \<and> et_team x = tm_id t))"
  have "wp (handleListEvents (Some u)) ?Q w"
    unfolding handleListEvents_def wp_bind
  proof (rule wpI)
    fix def_org w1
    assume "run_state DefaultOrgID w = (def_org, w1)"
    then have same: "db w1 = db w" using undisturbed_DefaultOrgID [of w] by (simp add: undisturbed_def)
    show "wp (case (Some u, def_org) of
        (None, Inl _) \<Rightarrow> ret (Problem 500 ''no default org'')
      | _ \<Rightarrow> do {
          let orgID = (case Some u of Some u \<Rightarrow> uuid_text (u_org u) | None \<Rightarrow> (case def_org of Inl _ \<Rightarrow> [] | Inr o' \<Rightarrow> o'));
          r \<leftarrow> (if Some u \<noteq> None \<and> \<not> is_admin (Some u) then do {
                  t \<leftarrow> UserTeam (uuid_text (u_id (the (Some u))));
                  (case t of
                     Inl _ \<Rightarrow> ret (case def_org of Inl e \<Rightarrow> Inl e | Inr _ \<Rightarrow> Inr [])
                   | Inr t \<Rightarrow> ListEventsForTeam orgID (uuid_text (tm_id (fst t))))
                } else ListEvents orgID);
          ret (case r of Inl _ \<Rightarrow> Problem 500 ''list failed'' | Inr es \<Rightarrow> Reply 200 es)
        }) ?Q w1"
      using assms(2,3)
      apply (simp add: Let_def)
      apply (rule wp_UserTeam)
      apply (simp only: wp_bind)
      apply (rule wp_sum)
       apply (auto split: sum.split)[1]
      apply (rule wp_ListEventsForTeam)
      apply (auto simp: uuid_in_text same undisturbed_def split: sum.splits)
      done
  qed
  from wpD [OF this assms(1)] show ?thesis by simp
qed

theorem listed_events_assigned_witness:
  "user_team 2 demo_db \<noteq> None \<and>
   fst (run_state (handleListEvents (Some demo_user)) demo_world) = Reply 200 [demo_event]"
proof -
  have run: "fst (run_state (handleListEvents (Some demo_user)) demo_world) = Reply 200 [demo_event]"
    by (simp add: handleListEvents_def DefaultOrgID_def UserTeam_def ListEventsForTeam_def is_admin_def
        user_team_def run_simps call_defs demo_defs query_def Let_def)
  then have "run_state (handleListEvents (Some demo_user)) demo_world =
      (Reply 200 [demo_event], snd (run_state (handleListEvents (Some demo_user)) demo_world))"
    by (simp add: prod_eq_iff)
  from listed_events_assigned [OF this, of demo_event] run show ?thesis
    by (auto simp: is_admin_def demo_user_def demo_world_def)
qed

subsection \<open>A team without members\<close>

text \<open>Nothing but the name is in the way of a user who wants to create a team.\<close>

definition may_create :: "user \<Rightarrow> world \<Rightarrow> bool" where
  "may_create u w \<longleftrightarrow> fresh_key mb_user (u_id u) (members (db w)) \<and>
     exists_row u_id (u_id u) (users (db w)) \<and> exists_row o_id (u_org u) (orgs (db w)) \<and>
     fresh_key tm_id (uuids w 1) (teams (db w)) \<and>
     (\<exists>code. tokens w 0 = Some code \<and> fresh_key tm_invite code (teams (db w)))"

definition name_free :: "user \<Rightarrow> string \<Rightarrow> database \<Rightarrow> bool" where
  "name_free u name d \<longleftrightarrow> fresh_key (\<lambda>t. (tm_org t, tm_name t)) (u_org u, name) (teams d)"

lemma UserTeam_none:
  assumes "fresh_key mb_user us (members (db w))"
  shows "\<exists>e. run_state (UserTeam (uuid_text us)) w = (Inl e, tick w)"
proof -
  have "user_team us (db w) = None" using assms by (simp add: user_team_def find_fresh)
  then show ?thesis
    by (cases "net w 0") (simp_all add: UserTeam_def run_simps db_call_def cast_uuid_def uuid_in_text row_or_not_found_def)
qed

definition create_team_from :: "user \<Rightarrow> string \<Rightarrow> string \<Rightarrow> (world, (team \<times> string) reply) action" where
  "create_team_from u name code = do {
     t \<leftarrow> CreateTeam (uuid_text (u_org u)) name code;
     (case t of
        Inl Conflict \<Rightarrow> ret (Problem 409 ''team name already taken'')
      | Inl _ \<Rightarrow> ret (Problem 500 ''create team failed'')
      | Inr t \<Rightarrow> do {
          r \<leftarrow> AddTeamMember (uuid_text (u_id u)) (uuid_text (tm_id t)) ''captain'';
          ret (case r of
                 Inl _ \<Rightarrow> Problem 500 ''membership failed''
               | Inr _ \<Rightarrow> Reply 201 (t, ''captain''))
        })
   }"

lemma handleCreateTeam_from:
  assumes "fresh_key mb_user (u_id u) (members (db w))" and "tokens w 0 = Some code"
    and "decodeJSON name_field [] body = Some name" and "trim_space name \<noteq> []"
  shows "run_state (handleCreateTeam u body) w =
    run_state (create_team_from u (trim_space name) code) ((tick w)\<lparr>tokens := pop (tokens w)\<rparr>)"
proof -
  obtain e where "run_state (UserTeam (uuid_text (u_id u))) w = (Inl e, tick w)"
    using UserTeam_none [OF assms(1)] by blast
  then show ?thesis
    using assms(2-4)
    by (simp add: handleCreateTeam_def with_body_def random_token_def create_team_from_def run_simps
        split: prod.split)
qed

lemma create_team_cases:
  assumes "may_create u w" and "decodeJSON name_field [] body = Some name" and "trim_space name \<noteq> []"
    and "net w 1 = Done"
  shows "\<not> name_free u (trim_space name) (db w) \<Longrightarrow>
      fst (run_state (handleCreateTeam u body) w) = Problem 409 ''team name already taken''"
    and "name_free u (trim_space name) (db w) \<Longrightarrow> net w 2 = Done \<Longrightarrow>
      status (fst (run_state (handleCreateTeam u body) w)) = 201"
    and "name_free u (trim_space name) (db w) \<Longrightarrow> net w 2 = Refused \<Longrightarrow>
      \<exists>t w'. run_state (handleCreateTeam u body) w = (Problem 500 ''membership failed'', w') \<and>
        db w' = (db w)\<lparr>teams := teams (db w) @ [t]\<rparr> \<and> tm_org t = u_org u \<and> tm_name t = trim_space name \<and>
        tm_id t = uuids w 1"
proof -
  from assms(1) obtain code where code: "tokens w 0 = Some code" "fresh_key tm_invite code (teams (db w))"
    and ok: "fresh_key mb_user (u_id u) (members (db w))" "exists_row u_id (u_id u) (users (db w))"
      "exists_row o_id (u_org u) (orgs (db w))" "fresh_key tm_id (uuids w 1) (teams (db w))"
    by (auto simp: may_create_def)
  note run = handleCreateTeam_from [OF ok(1) code(1) assms(2,3)] create_team_from_def CreateTeam_def AddTeamMember_def
    db_call_def cast_uuid_def uuid_in_text require_def conflict_if_unique_def name_free_def Let_def
  show "fst (run_state (handleCreateTeam u body) w) = Problem 409 ''team name already taken''"
    if "\<not> name_free u (trim_space name) (db w)"
    using that code ok assms(4) by (simp add: run run_simps tick_def)
  show "status (fst (run_state (handleCreateTeam u body) w)) = 201"
    if "name_free u (trim_space name) (db w)" "net w 2 = Done"
    using that code ok assms(4) by (simp add: run run_simps tick_def exists_row_def numeral_2_eq_2)
  show "\<exists>t w'. run_state (handleCreateTeam u body) w = (Problem 500 ''membership failed'', w') \<and>
        db w' = (db w)\<lparr>teams := teams (db w) @ [t]\<rparr> \<and> tm_org t = u_org u \<and> tm_name t = trim_space name \<and>
        tm_id t = uuids w 1"
    if "name_free u (trim_space name) (db w)" "net w 2 = Refused"
    using that code ok assms(4)
    by (simp add: run run_simps tick_def exists_row_def numeral_2_eq_2)
       (rule exI, rule conjI, rule refl, simp)
qed


definition newcomer :: user where
  "newcomer = demo_user\<lparr>u_id := 20, u_email := ''n@x''\<rparr>"

definition flaky_world :: world where
  "flaky_world = demo_world\<lparr>db := demo_db\<lparr>users := [demo_user, newcomer]\<rparr>,
     net := (\<lambda>n. if n = 2 then Refused else Done),
     tokens := (\<lambda>n. Some (''code'' @ itoa (int n)))\<rparr>"

definition create_team :: "(world, (team \<times> string) reply) action" where
  "create_team = handleCreateTeam newcomer (Some (JObj [(''name'', JStr ''N'')]))"

definition second_try :: "database \<Rightarrow> world" where
  "second_try d = flaky_world\<lparr>db := d, net := (\<lambda>_. Done), uuids := (\<lambda>n. 200), tokens := (\<lambda>n. Some ''code7'')\<rparr>"


end
