(* ===== verification/Exchange.thy ===== *)
theory Exchange
  imports Files Base64 Library Requests
begin

text \<open>
  Import and export of an event's challenges: \<open>internal/httpserver/importexport.go\<close> and
  \<open>internal/store/importexport.go\<close>, and that what is written is read back: the document by its
  decoder, a file and a flag by the import.
\<close>

subsection \<open>The store\<close>

text \<open>\<open>LIMIT 1\<close> without an order: of several challenges with one title, the first row is taken.\<close>

definition FindECByTitle :: "string \<Rightarrow> string \<Rightarrow> (world, store_error + challenge) action" where
  "FindECByTitle eventID title = do {
     r \<leftarrow> db_call (\<lambda>now u d. cast_uuid eventID (\<lambda>ev.
       Inr (find (\<lambda>c. c_event c = ev \<and> c_title c = title) (challenges d), d)));
     ret (row_or_not_found r)
   }"

definition UpdateChallengeContent ::
  "string \<Rightarrow> string \<Rightarrow> string \<Rightarrow> json option \<Rightarrow> string \<Rightarrow> string list \<Rightarrow> (world, store_error + unit) action"
where
  "UpdateChallengeContent ecID category descMD scoring state tags = do {
     r \<leftarrow> db_call (update_challenge ecID (\<lambda>c. c\<lparr>c_category := category, c_desc := descMD,
            c_scoring := or_default default_scoring scoring, c_state := state, c_tags := tags\<rparr>));
     ret (affected_or_not_found r)
   }"

text \<open>A flag without its challenge: the hash and whether case matters.\<close>

type_synonym hashed_flag = "string \<times> bool"

definition delete_flags :: "string \<Rightarrow> unit stmt" where
  "delete_flags ecID now u d = cast_uuid ecID (\<lambda>ec.
     Inr ((), d\<lparr>flags := filter (\<lambda>f. fl_ec f \<noteq> ec) (flags d)\<rparr>))"

fun insert_hashed ::
  "instant \<Rightarrow> string \<Rightarrow> hashed_flag list \<Rightarrow> (world, 'b tx_end) action \<Rightarrow> (world, 'b tx_end) action"
where
  "insert_hashed now ecID [] k = k"
| "insert_hashed now ecID ((h, cs) # fs) k =
     tx_try now (insert_flag ecID h cs) fail (\<lambda>_. insert_hashed now ecID fs k)"

definition ReplaceFlags :: "string \<Rightarrow> hashed_flag list \<Rightarrow> (world, store_error + unit) action" where
  "ReplaceFlags ecID fs =
     transaction (\<lambda>now.
       tx_try now (delete_flags ecID) fail (\<lambda>_. insert_hashed now ecID fs (ret (Commit ()))))"

definition CreateChallengeWithFlags ::
  "string \<Rightarrow> string \<Rightarrow> string \<Rightarrow> string \<Rightarrow> json option \<Rightarrow> string \<Rightarrow> string list \<Rightarrow> hashed_flag list \<Rightarrow>
   (world, store_error + string) action"
where
  "CreateChallengeWithFlags eventID title category descMD scoring state tags fs =
     transaction (\<lambda>now.
       tx_try now (\<lambda>now u d. cast_uuid eventID (\<lambda>ev.
           insert_challenge ((new_challenge now u ev)\<lparr>c_title := title, c_category := category,
             c_desc := descMD, c_scoring := or_default default_scoring scoring, c_state := state,
             c_tags := tags\<rparr>) d)) fail (\<lambda>c.
         insert_hashed now (uuid_text (c_id c)) fs (ret (Commit (uuid_text (c_id c))))))"

subsection \<open>The exchange format\<close>

record io_flag =
  if_value :: string
  if_hash :: string
  if_case :: "bool option"

record io_file =
  io_name :: string
  io_type :: string
  io_size :: int
  io_sha256 :: string
  io_data :: string

record io_challenge =
  ic_title :: string
  ic_category :: string
  ic_desc :: string
  ic_state :: string
  ic_scoring :: "json option"
  ic_tags :: "string list"
  ic_flags :: "io_flag list"
  ic_files :: "io_file list"

definition io_flag_fields :: "(string \<times> io_flag setter) list" where
  "io_flag_fields =
     [(''value'', set_string (\<lambda>x r. r\<lparr>if_value := x\<rparr>)),
      (''hash'', set_string (\<lambda>x r. r\<lparr>if_hash := x\<rparr>)),
      (''case_sensitive'', set_bool_ptr (\<lambda>x r. r\<lparr>if_case := x\<rparr>))]"

definition io_file_fields :: "(string \<times> io_file setter) list" where
  "io_file_fields =
     [(''name'', set_string (\<lambda>x r. r\<lparr>io_name := x\<rparr>)),
      (''content_type'', set_string (\<lambda>x r. r\<lparr>io_type := x\<rparr>)),
      (''size'', set_int (\<lambda>x r. r\<lparr>io_size := x\<rparr>)),
      (''sha256'', set_string (\<lambda>x r. r\<lparr>io_sha256 := x\<rparr>)),
      (''data'', set_string (\<lambda>x r. r\<lparr>io_data := x\<rparr>))]"

definition zero_io_flag :: io_flag where
  "zero_io_flag = \<lparr>if_value = [], if_hash = [], if_case = None\<rparr>"

definition zero_io_file :: io_file where
  "zero_io_file = \<lparr>io_name = [], io_type = [], io_size = 0, io_sha256 = [], io_data = []\<rparr>"

definition zero_io_challenge :: io_challenge where
  "zero_io_challenge = \<lparr>ic_title = [], ic_category = [], ic_desc = [], ic_state = [],
     ic_scoring = None, ic_tags = [], ic_flags = [], ic_files = []\<rparr>"

definition io_challenge_fields :: "(string \<times> io_challenge setter) list" where
  "io_challenge_fields =
     [(''title'', set_string (\<lambda>x r. r\<lparr>ic_title := x\<rparr>)),
      (''category'', set_string (\<lambda>x r. r\<lparr>ic_category := x\<rparr>)),
      (''description_md'', set_string (\<lambda>x r. r\<lparr>ic_desc := x\<rparr>)),
      (''state'', set_string (\<lambda>x r. r\<lparr>ic_state := x\<rparr>)),
      (''scoring'', set_raw (\<lambda>x r. r\<lparr>ic_scoring := x\<rparr>)),
      (''tags'', set_strings (\<lambda>x r. r\<lparr>ic_tags := x\<rparr>)),
      (''flags'', set_slice zero_io_flag (decode_struct True io_flag_fields) (\<lambda>x r. r\<lparr>ic_flags := x\<rparr>)),
      (''files'', set_slice zero_io_file (decode_struct True io_file_fields) (\<lambda>x r. r\<lparr>ic_files := x\<rparr>))]"

text \<open>What \<open>encoding/json\<close> writes for them: \<open>omitempty\<close> leaves out what is zero.\<close>

definition text_field :: "string \<Rightarrow> string \<Rightarrow> (string \<times> json) list" where
  "text_field k s = (if s = [] then [] else [(k, JStr s)])"

definition encode_io_flag :: "io_flag \<Rightarrow> json" where
  "encode_io_flag f = JObj (text_field ''value'' (if_value f) @ text_field ''hash'' (if_hash f) @
     (case if_case f of None \<Rightarrow> [] | Some b \<Rightarrow> [(''case_sensitive'', JBool b)]))"

definition encode_io_file :: "io_file \<Rightarrow> json" where
  "encode_io_file f = JObj ((''name'', JStr (io_name f)) # text_field ''content_type'' (io_type f) @
     (if io_size f = 0 then [] else [(''size'', JInt (io_size f))]) @
     text_field ''sha256'' (io_sha256 f) @ text_field ''data'' (io_data f))"

definition encode_io_challenge :: "io_challenge \<Rightarrow> json" where
  "encode_io_challenge c = JObj
     ([(''title'', JStr (ic_title c)), (''category'', JStr (ic_category c)),
       (''description_md'', JStr (ic_desc c)), (''state'', JStr (ic_state c)),
       (''scoring'', case ic_scoring c of None \<Rightarrow> JNull | Some j \<Rightarrow> j),
       (''tags'', JArr (map JStr (ic_tags c))),
       (''flags'', JArr (map encode_io_flag (ic_flags c)))] @
      (if ic_files c = [] then [] else [(''files'', JArr (map encode_io_file (ic_files c)))]))"

text \<open>The fields of one imported flag or file; a flag that has neither hash nor value is dropped.\<close>

definition maxFileBytes :: nat where
  "maxFileBytes = 25 * 2 ^ 20"

datatype file_error = EmptyName | InvalidBase64 string | TooLarge string

definition toStoreFile :: "platform \<Rightarrow> io_file \<Rightarrow> file_error + file_input" where
  "toStoreFile P f =
     (let name = trim_space (io_name f); text = trim_space (io_data f)
      in if name = [] then Inl EmptyName
         else case (case std_decode text of None \<Rightarrow> raw_decode std_alphabet text | Some raw \<Rightarrow> Some raw) of
                None \<Rightarrow> Inl (InvalidBase64 name)
              | Some raw \<Rightarrow>
                  if length raw > maxFileBytes then Inl (TooLarge name)
                  else Inr \<lparr>fn_name = name,
                         fn_type = (if trim_space (io_type f) = [] then ''application/octet-stream''
                                    else trim_space (io_type f)),
                         fn_data = raw, fn_sha256 = sha256 P raw, fn_size = int (length raw)\<rparr>)"

definition toStoreFlag :: "platform \<Rightarrow> io_flag \<Rightarrow> hashed_flag option" where
  "toStoreFlag P f =
     (let cs = (case if_case f of None \<Rightarrow> True | Some b \<Rightarrow> b)
      in if if_hash f \<noteq> [] then map_option (\<lambda>h. (h, cs)) (hex_decode (if_hash f))
         else if if_value f = [] then None
         else Some (flag_hash P (if_value f) cs, cs))"

subsection \<open>Export\<close>

text \<open>A file whose bytes cannot be read is exported without them.\<close>

fun exported_files :: "bool \<Rightarrow> challenge_file list \<Rightarrow> (world, io_file list) action" where
  "exported_files includeData [] = ret []"
| "exported_files includeData (m # ms) = do {
     content \<leftarrow> (if includeData then GetChallengeFile (uuid_text (f_id m)) else ret (Inl NotFound));
     rest \<leftarrow> exported_files includeData ms;
     ret (\<lparr>io_name = f_name m, io_type = f_type m, io_size = f_size m,
            io_sha256 = hex_encode (f_sha256 m),
            io_data = (case content of Inl _ \<Rightarrow> [] | Inr f \<Rightarrow> std_encode (f_data f))\<rparr> # rest)
   }"

definition export_flag :: "flag \<Rightarrow> io_flag" where
  "export_flag f = \<lparr>if_value = [], if_hash = hex_encode (fl_hash f), if_case = Some (fl_case f)\<rparr>"

definition export_challenge :: "bool \<Rightarrow> challenge \<Rightarrow> (world, io_challenge) action" where
  "export_challenge includeData c = do {
     fs \<leftarrow> ChallengeFlags (uuid_text (c_id c));
     metas \<leftarrow> ListChallengeFiles (uuid_text (c_id c));
     attached \<leftarrow> (case metas of Inl _ \<Rightarrow> ret [] | Inr ms \<Rightarrow> exported_files includeData ms);
     ret \<lparr>ic_title = c_title c, ic_category = c_category c, ic_desc = c_desc c, ic_state = c_state c,
       ic_scoring = Some (c_scoring c), ic_tags = c_tags c,
       ic_flags = (case fs of Inl _ \<Rightarrow> [] | Inr fs \<Rightarrow> map export_flag fs), ic_files = attached\<rparr>
   }"

fun export_challenges :: "bool \<Rightarrow> challenge list \<Rightarrow> (world, io_challenge list) action" where
  "export_challenges includeData [] = ret []"
| "export_challenges includeData (c # cs) = do {
     x \<leftarrow> export_challenge includeData c;
     rest \<leftarrow> export_challenges includeData cs;
     ret (x # rest)
   }"

text \<open>The body, and the slug in the file name. The blocks are written as they are and never read again.\<close>

record export =
  ex_slug :: string
  ex_name :: string
  ex_blocks :: "block list"
  ex_challenges :: "io_challenge list"

definition handleExport :: "string \<Rightarrow> string \<Rightarrow> (world, export reply) action" where
  "handleExport eventID files_param = do {
     e \<leftarrow> GetEvent eventID;
     (case e of
        Inl NotFound \<Rightarrow> ret (Problem 404 ''event not found'')
      | Inl _ \<Rightarrow> ret (Problem 500 ''export failed'')
      | Inr ev \<Rightarrow> do {
          bs \<leftarrow> ListBlocks eventID;
          cs \<leftarrow> ListChallenges eventID False;
          (case cs of
             Inl _ \<Rightarrow> ret (Problem 500 ''export failed'')
           | Inr cs \<Rightarrow> do {
               out \<leftarrow> export_challenges (files_param \<noteq> ''meta'') cs;
               ret (Reply 200 \<lparr>ex_slug = e_slug ev, ex_name = e_name ev,
                  ex_blocks = (case bs of Inl _ \<Rightarrow> [] | Inr bs \<Rightarrow> bs), ex_challenges = out\<rparr>)
             })
        })
   }"

text \<open>Its text; \<open>block_json\<close> stands for how a row of \<open>blocks\<close> is written.\<close>

definition encode_export :: "(block \<Rightarrow> json) \<Rightarrow> export \<Rightarrow> json" where
  "encode_export block_json ex = JObj
     [(''blocks'', JArr (map block_json (ex_blocks ex))),
      (''challenges'', JArr (map encode_io_challenge (ex_challenges ex))),
      (''event'', JObj [(''name'', JStr (ex_name ex)), (''slug'', JStr (ex_slug ex))])]"

subsection \<open>Import\<close>

datatype problem =
    EmptyTitle
  | FileProblem string file_error
  | NotCreated string store_error
  | NotUpdated string store_error
  | FilesNotReplaced string store_error
  | LookupFailed string

record plan =
  pl_created :: nat
  pl_updated :: nat
  pl_problems :: "problem list"

abbreviation (input) complain :: "problem \<Rightarrow> plan \<Rightarrow> plan" where
  "complain p pl \<equiv> pl\<lparr>pl_problems := pl_problems pl @ [p]\<rparr>"

definition complain_if :: "(store_error \<Rightarrow> problem) \<Rightarrow> store_error + 'a \<Rightarrow> plan \<Rightarrow> plan" where
  "complain_if p r pl = (case r of Inl e \<Rightarrow> complain (p e) pl | Inr _ \<Rightarrow> pl)"

definition good_files :: "platform \<Rightarrow> io_file list \<Rightarrow> file_input list" where
  "good_files P fs = List.map_filter (\<lambda>f. case toStoreFile P f of Inl _ \<Rightarrow> None | Inr x \<Rightarrow> Some x) fs"

definition bad_files :: "platform \<Rightarrow> io_file list \<Rightarrow> file_error list" where
  "bad_files P fs = List.map_filter (\<lambda>f. case toStoreFile P f of Inl e \<Rightarrow> Some e | Inr _ \<Rightarrow> None) fs"

definition import_files ::
  "string \<Rightarrow> string \<Rightarrow> file_input list \<Rightarrow> plan \<Rightarrow> (world, plan) action"
where
  "import_files title ecID fs pl =
     (if fs = [] then ret pl
      else do {
        r \<leftarrow> ReplaceChallengeFiles ecID fs;
        ret (complain_if (FilesNotReplaced title) r pl)
      })"

text \<open>A challenge of the document: created, or the one with its title brought up to date.\<close>

definition import_new ::
  "platform \<Rightarrow> string \<Rightarrow> io_challenge \<Rightarrow> string \<Rightarrow> string \<Rightarrow> hashed_flag list \<Rightarrow> file_input list \<Rightarrow>
   plan \<Rightarrow> (world, plan) action"
where
  "import_new P eventID ch category state fs attached pl = do {
     r \<leftarrow> CreateChallengeWithFlags eventID (ic_title ch) category (ic_desc ch) (ic_scoring ch) state
            (ic_tags ch) fs;
     (case r of
        Inl e \<Rightarrow> ret (complain (NotCreated (ic_title ch) e) pl)
      | Inr newID \<Rightarrow> import_files (ic_title ch) newID attached pl)
   }"

definition import_existing ::
  "platform \<Rightarrow> string \<Rightarrow> io_challenge \<Rightarrow> string \<Rightarrow> string \<Rightarrow> hashed_flag list \<Rightarrow> file_input list \<Rightarrow>
   plan \<Rightarrow> (world, plan) action"
where
  "import_existing P ecID ch category state fs attached pl = do {
     r \<leftarrow> UpdateChallengeContent ecID category (ic_desc ch) (ic_scoring ch) state (ic_tags ch);
     pl \<leftarrow> ret (complain_if (NotUpdated (ic_title ch)) r pl);
     (if fs = [] then ret () else do { _ \<leftarrow> ReplaceFlags ecID fs; ret () });
     import_files (ic_title ch) ecID attached pl
   }"

definition import_one ::
  "platform \<Rightarrow> string \<Rightarrow> bool \<Rightarrow> io_challenge \<Rightarrow> plan \<Rightarrow> (world, plan) action"
where
  "import_one P eventID dryRun ch pl =
     (if ic_title ch = [] then ret (complain EmptyTitle pl)
      else let category = (if ic_category ch = [] then ''misc'' else ic_category ch);
               state = (if ic_state ch = [] then ''draft'' else ic_state ch);
               fs = List.map_filter (toStoreFlag P) (ic_flags ch);
               attached = good_files P (ic_files ch);
               pl = pl\<lparr>pl_problems := pl_problems pl @
                          map (FileProblem (ic_title ch)) (bad_files P (ic_files ch))\<rparr>
           in do {
             existing \<leftarrow> FindECByTitle eventID (ic_title ch);
             (case existing of
                Inl NotFound \<Rightarrow>
                  (let pl = pl\<lparr>pl_created := pl_created pl + 1\<rparr>
                   in if dryRun then ret pl else import_new P eventID ch category state fs attached pl)
              | Inl _ \<Rightarrow> ret (complain (LookupFailed (ic_title ch)) pl)
              | Inr c \<Rightarrow>
                  (let pl = pl\<lparr>pl_updated := pl_updated pl + 1\<rparr>
                   in if dryRun then ret pl
                      else import_existing P (uuid_text (c_id c)) ch category state fs attached pl))
           })"

fun import_all ::
  "platform \<Rightarrow> string \<Rightarrow> bool \<Rightarrow> io_challenge list \<Rightarrow> plan \<Rightarrow> (world, plan) action"
where
  "import_all P eventID dryRun [] pl = ret pl"
| "import_all P eventID dryRun (c # cs) pl = do {
     pl \<leftarrow> import_one P eventID dryRun c pl;
     import_all P eventID dryRun cs pl
   }"

text \<open>The CTFd format: a flag is a string or an object, and one of type \<open>regex\<close> is left out.\<close>

record ctfd_challenge =
  cf_name :: string
  cf_category :: string
  cf_description :: string
  cf_value :: int
  cf_state :: string
  cf_flags :: "json option list"

definition ctfd_fields :: "(string \<times> ctfd_challenge setter) list" where
  "ctfd_fields =
     [(''name'', set_string (\<lambda>x r. r\<lparr>cf_name := x\<rparr>)),
      (''category'', set_string (\<lambda>x r. r\<lparr>cf_category := x\<rparr>)),
      (''description'', set_string (\<lambda>x r. r\<lparr>cf_description := x\<rparr>)),
      (''value'', set_int (\<lambda>x r. r\<lparr>cf_value := x\<rparr>)),
      (''state'', set_string (\<lambda>x r. r\<lparr>cf_state := x\<rparr>)),
      (''flags'', set_slice None (set_raw (\<lambda>x _. x)) (\<lambda>x r. r\<lparr>cf_flags := x\<rparr>))]"

definition zero_ctfd :: ctfd_challenge where
  "zero_ctfd = \<lparr>cf_name = [], cf_category = [], cf_description = [], cf_value = 0, cf_state = [],
     cf_flags = []\<rparr>"

definition ctfd_doc :: "(string \<times> ctfd_challenge list setter) list" where
  "ctfd_doc = [(''challenges'', set_slice zero_ctfd (decode_struct False ctfd_fields) (\<lambda>x _. x))]"

definition ctfd_flag_fields :: "(string \<times> (string \<times> string) setter) list" where
  "ctfd_flag_fields =
     [(''content'', set_string (\<lambda>x (_, t). (x, t))), (''type'', set_string (\<lambda>x (c, _). (c, x)))]"

definition ctfd_flag :: "json option \<Rightarrow> io_flag option" where
  "ctfd_flag fr =
     (case fr of
        None \<Rightarrow> None
      | Some j \<Rightarrow>
          (case set_string (\<lambda>x _. x) j [] of (str, ok) \<Rightarrow>
             if ok \<and> str \<noteq> [] then Some \<lparr>if_value = str, if_hash = [], if_case = Some True\<rparr>
             else (case decode_struct False ctfd_flag_fields j ([], []) of ((content, typ), ok) \<Rightarrow>
               if ok \<and> content \<noteq> [] \<and> typ \<noteq> ''regex''
               then Some \<lparr>if_value = content, if_hash = [], if_case = Some True\<rparr> else None)))"

definition ctfd_import :: "ctfd_challenge \<Rightarrow> io_challenge" where
  "ctfd_import c = \<lparr>ic_title = cf_name c, ic_category = cf_category c, ic_desc = cf_description c,
     ic_state = (if cf_state c = ''visible'' then ''published'' else ''draft''),
     ic_scoring = Some (JObj [(''points'', JInt (cf_value c)), (''type'', JStr ''static'')]),
     ic_tags = [], ic_flags = List.map_filter ctfd_flag (cf_flags c), ic_files = []\<rparr>"

definition parseCTFd :: "json option \<Rightarrow> io_challenge list option" where
  "parseCTFd body =
     (case body of
        None \<Rightarrow> None
      | Some j \<Rightarrow>
          (case decode_struct False ctfd_doc j [] of (cs, ok) \<Rightarrow>
             if ok then Some (map ctfd_import cs) else None))"

record import_doc =
  im_dry :: bool
  im_event :: "json option"
  im_blocks :: "json option"
  im_challenges :: "io_challenge list"

definition import_fields :: "(string \<times> import_doc setter) list" where
  "import_fields =
     [(''dry_run'', set_bool (\<lambda>x r. r\<lparr>im_dry := x\<rparr>)),
      (''event'', set_raw (\<lambda>x r. r\<lparr>im_event := x\<rparr>)),
      (''blocks'', set_raw (\<lambda>x r. r\<lparr>im_blocks := x\<rparr>)),
      (''challenges'', set_slice zero_io_challenge (decode_struct True io_challenge_fields)
         (\<lambda>x r. r\<lparr>im_challenges := x\<rparr>))]"

definition zero_import_doc :: import_doc where
  "zero_import_doc = \<lparr>im_dry = False, im_event = None, im_blocks = None, im_challenges = []\<rparr>"

text \<open>The challenges of a body, and whether it asks for a dry run.\<close>

definition import_body :: "bool \<Rightarrow> json option \<Rightarrow> (io_challenge list \<times> bool) option" where
  "import_body ctfd body =
     (if ctfd then map_option (\<lambda>cs. (cs, False)) (parseCTFd body)
      else map_option (\<lambda>i. (im_challenges i, im_dry i)) (decodeJSON import_fields zero_import_doc body))"

text \<open>The answer: whether it was a dry run, and the plan.\<close>

definition handleImport ::
  "platform \<Rightarrow> server \<Rightarrow> string \<Rightarrow> string \<Rightarrow> string \<Rightarrow> json option \<Rightarrow> (world, (bool \<times> plan) reply) action"
where
  "handleImport P srv eventID dry_param format body = do {
     e \<leftarrow> GetEvent eventID;
     (if e = Inl NotFound then ret (Problem 404 ''event not found'')
      else case import_body (format = ''ctfd'') body of
             None \<Rightarrow> ret (Problem 400 ''bad request'')
           | Some (cs, dry) \<Rightarrow>
               (let dryRun = (dry_param = ''true'' \<or> dry)
                in do {
                  pl \<leftarrow> import_all P eventID dryRun cs \<lparr>pl_created = 0, pl_updated = 0, pl_problems = []\<rparr>;
                  (if dryRun then ret () else publish srv eventID ''challenges.changed'' JNull);
                  ret (Reply 200 (dryRun, pl))
                }))
   }"

subsection \<open>The document is read as it was written\<close>

lemma set_slice_map:
  assumes "\<And>x. x \<in> set xs \<Longrightarrow> dec (enc x) zero = (x, True)"
  shows "set_slice zero dec upd (JArr (map enc xs)) r = (upd xs r, True)"
  using assms by (simp add: Let_def comp_def list_all_iff map_idI)

lemma set_strings_map: "set_strings upd (JArr (map JStr xs)) r = (upd xs r, True)"
  unfolding set_strings_def by (rule set_slice_map) simp

lemma decode_io_flag:
  "decode_struct True io_flag_fields (encode_io_flag f) zero_io_flag = (f, True)"
  by (cases f) (simp add: io_flag_fields_def zero_io_flag_def encode_io_flag_def text_field_def
      ascii_lower_def split: option.split)

lemma decode_io_file:
  assumes "int64_ok (io_size f)"
  shows "decode_struct True io_file_fields (encode_io_file f) zero_io_file = (f, True)"
  using assms
  by (cases f) (simp add: io_file_fields_def zero_io_file_def encode_io_file_def text_field_def ascii_lower_def)

definition io_ok :: "io_challenge \<Rightarrow> bool" where
  "io_ok c \<longleftrightarrow> ic_scoring c \<noteq> None \<and> (\<forall>f \<in> set (ic_files c). int64_ok (io_size f))"

lemma set_io_flags:
  "set_slice zero_io_flag (decode_struct True io_flag_fields) upd (JArr (map encode_io_flag fs)) r = (upd fs r, True)"
  by (rule set_slice_map) (rule decode_io_flag)

lemma set_io_files:
  assumes "\<forall>f \<in> set fs. int64_ok (io_size f)"
  shows "set_slice zero_io_file (decode_struct True io_file_fields) upd (JArr (map encode_io_file fs)) r = (upd fs r, True)"
  using assms by (intro set_slice_map decode_io_file) simp

lemma decode_io_challenge:
  assumes "io_ok c"
  shows "decode_struct True io_challenge_fields (encode_io_challenge c) zero_io_challenge = (c, True)"
proof -
  obtain j where "ic_scoring c = Some j" using assms by (auto simp: io_ok_def)
  with assms show ?thesis
    by (cases c) (simp add: io_challenge_fields_def encode_io_challenge_def zero_io_challenge_def
        set_raw_def set_strings_map set_io_flags set_io_files io_ok_def ascii_lower_def del: set_slice.simps)
qed

lemma set_io_challenges:
  assumes "\<forall>c \<in> set cs. io_ok c"
  shows "set_slice zero_io_challenge (decode_struct True io_challenge_fields) upd
    (JArr (map encode_io_challenge cs)) r = (upd cs r, True)"
  using assms by (intro set_slice_map decode_io_challenge) simp

lemma decode_export:
  assumes "\<forall>c \<in> set (ex_challenges ex). io_ok c"
  shows "import_body False (Some (encode_export bj ex)) = Some (ex_challenges ex, False)"
  using assms
  by (simp add: import_body_def decodeJSON_def import_fields_def encode_export_def zero_import_doc_def
      set_raw_def set_io_challenges ascii_lower_def del: set_slice.simps)

subsection \<open>What is exported is read back\<close>

definition file_clean :: "platform \<Rightarrow> challenge_file \<Rightarrow> bool" where
  "file_clean P f \<longleftrightarrow> f_name f \<noteq> [] \<and> trim_space (f_name f) = f_name f \<and>
     f_type f \<noteq> [] \<and> trim_space (f_type f) = f_type f \<and> length (f_data f) \<le> maxFileBytes \<and>
     f_size f = int (length (f_data f)) \<and> f_sha256 f = sha256 P (f_data f)"

definition exported_file :: "challenge_file \<Rightarrow> io_file" where
  "exported_file f = \<lparr>io_name = f_name f, io_type = f_type f, io_size = f_size f,
     io_sha256 = hex_encode (f_sha256 f), io_data = std_encode (f_data f)\<rparr>"

definition input_of :: "challenge_file \<Rightarrow> file_input" where
  "input_of f = \<lparr>fn_name = f_name f, fn_type = f_type f, fn_data = f_data f, fn_sha256 = f_sha256 f,
     fn_size = f_size f\<rparr>"

lemma std_char_printable: "n < 64 \<Longrightarrow> printable (std_alphabet ! n)"
proof -
  have "list_all printable std_alphabet" "length std_alphabet = 64" by code_simp+
  then show "n < 64 \<Longrightarrow> printable (std_alphabet ! n)" by (simp add: list_all_length)
qed

lemma std_encode_printable: "c \<in> set (std_encode s) \<Longrightarrow> printable c"
proof -
  have "printable (CHR ''='')" by code_simp
  moreover assume "c \<in> set (std_encode s)"
  ultimately show ?thesis
    using std_char_printable sextets_range by (auto simp: std_encode_def pad_def raw_encode_sextets)
qed

lemma trim_std_encode [simp]: "trim_space (std_encode s) = std_encode s"
proof (cases "std_encode s = []")
  case False
  then show ?thesis
    using std_encode_printable [of _ s] by (intro trim_space_printable) simp_all
qed simp

lemma toStoreFile_exported:
  "file_clean P f \<Longrightarrow> toStoreFile P (exported_file f) = Inr (input_of f)"
  by (simp add: toStoreFile_def exported_file_def input_of_def file_clean_def Let_def)

lemma toStoreFlag_exported:
  assumes "fl_hash f \<noteq> []"
  shows "toStoreFlag P (export_flag f) = Some (fl_hash f, fl_case f)"
proof -
  have "hex_encode (fl_hash f) \<noteq> []" using assms by (cases "fl_hash f") simp_all
  then show ?thesis by (simp add: toStoreFlag_def export_flag_def)
qed

lemma map_filter_all: "(\<And>x. x \<in> set xs \<Longrightarrow> f x = Some (g x)) \<Longrightarrow> List.map_filter f xs = map g xs"
  by (induction xs) (simp_all add: map_filter_simps)

lemma map_filter_nothing: "(\<And>x. x \<in> set xs \<Longrightarrow> f x = None) \<Longrightarrow> List.map_filter f xs = []"
  by (induction xs) (simp_all add: map_filter_simps)

lemma files_exported:
  assumes "\<forall>f \<in> set fs. file_clean P f"
  shows "good_files P (map exported_file fs) = map input_of fs" "bad_files P (map exported_file fs) = []"
  using assms
  by (induction fs) (simp_all add: good_files_def bad_files_def toStoreFile_exported map_filter_simps)

end
