(* ===== verification/Reimport.thy ===== *)
theory Reimport
  imports Exchange Sort_Keys
begin

text \<open>
  An export and its import taken together: importing an export unchanged into the event it comes from
  changes nothing, whatever fails on the way.
\<close>

subsection \<open>The export of a database\<close>

definition flags_in :: "uuid \<Rightarrow> database \<Rightarrow> flag list" where
  "flags_in ec d = filter (\<lambda>f. fl_ec f = ec) (flags d)"

definition files_in :: "uuid \<Rightarrow> database \<Rightarrow> challenge_file list" where
  "files_in ec d = order_by (\<lambda>f g. name_le (f_name f) (f_name g)) (filter (\<lambda>f. f_ec f = ec) (files d))"

definition exported :: "database \<Rightarrow> challenge \<Rightarrow> io_challenge" where
  "exported d c = \<lparr>ic_title = c_title c, ic_category = c_category c, ic_desc = c_desc c,
     ic_state = c_state c, ic_scoring = Some (c_scoring c), ic_tags = c_tags c,
     ic_flags = map export_flag (flags_in (c_id c) d), ic_files = map exported_file (files_in (c_id c) d)\<rparr>"

lemma sure_ChallengeFlags:
  assumes "reliable w" and "\<And>w'. undisturbed w w' \<Longrightarrow> Q (Inr (flags_in ec (db w))) w'"
  shows "wp (ChallengeFlags (uuid_text ec)) Q w"
  unfolding ChallengeFlags_def wp_bind
  by (rule wp_sure_read [OF assms(1)]; (intro quiet_intros)?)
    (auto simp: cast_uuid_def uuid_in_text failed_simps flags_in_def dest: assms(2))

lemma sure_ListChallengeFiles:
  assumes "reliable w"
    and "\<And>w'. undisturbed w w' \<Longrightarrow> Q (Inr (map (\<lambda>f. f\<lparr>f_data := []\<rparr>) (files_in ec (db w)))) w'"
  shows "wp (ListChallengeFiles (uuid_text ec)) Q w"
  unfolding ListChallengeFiles_def wp_bind
  by (rule wp_sure_read [OF assms(1)]; (intro quiet_intros)?)
    (auto simp: cast_uuid_def uuid_in_text failed_simps files_in_def dest: assms(2))

lemma sure_GetChallengeFile:
  assumes "reliable w" and "distinct (map f_id (files (db w)))" and "f \<in> set (files (db w))"
    and "\<And>w'. undisturbed w w' \<Longrightarrow> Q (Inr f) w'"
  shows "wp (GetChallengeFile (uuid_text (f_id f))) Q w"
  unfolding GetChallengeFile_def wp_bind
  by (rule wp_sure_read [OF assms(1)]; (intro quiet_intros)?)
    (auto simp: cast_uuid_def uuid_in_text row_or_not_found_def find_key [OF assms(2,3)] intro: assms(4))

lemma exported_files_meta:
  "exported_files True (f\<lparr>f_data := []\<rparr> # ms) = do {
     content \<leftarrow> GetChallengeFile (uuid_text (f_id f));
     rest \<leftarrow> exported_files True ms;
     ret (\<lparr>io_name = f_name f, io_type = f_type f, io_size = f_size f,
            io_sha256 = hex_encode (f_sha256 f),
            io_data = (case content of Inl _ \<Rightarrow> [] | Inr f \<Rightarrow> std_encode (f_data f))\<rparr> # rest)
   }"
  by simp

lemma wp_exported_files:
  assumes "reliable w" and "distinct (map f_id (files (db w)))" and "set fs \<subseteq> set (files (db w))"
    and "\<And>w'. undisturbed w w' \<Longrightarrow> Q (map exported_file fs) w'"
  shows "wp (exported_files True (map (\<lambda>f. f\<lparr>f_data := []\<rparr>) fs)) Q w"
  using assms
proof (induction fs arbitrary: w Q)
  case Nil
  then show ?case by simp
next
  case (Cons f fs)
  show ?case
    unfolding list.map exported_files_meta wp_bind
  proof (rule sure_GetChallengeFile [OF Cons.prems(1,2)])
    show "f \<in> set (files (db w))" using Cons.prems(3) by simp
  next
    fix w1
    assume u: "undisturbed w w1"
    have "exported_file f # map exported_file fs = map exported_file (f # fs)" by simp
    then show "wp (exported_files True (map (\<lambda>f. f\<lparr>f_data := []\<rparr>) fs))
        (\<lambda>rest. wp (ret (\<lparr>io_name = f_name f, io_type = f_type f, io_size = f_size f,
           io_sha256 = hex_encode (f_sha256 f),
           io_data = (case Inr f of Inl _ \<Rightarrow> [] | Inr f \<Rightarrow> std_encode (f_data f))\<rparr> # rest)) Q) w1"
      using Cons.prems undisturbedD(1,2) [OF u] undisturbed_trans [OF u]
      by (intro Cons.IH) (simp_all add: exported_file_def)
  qed
qed

lemma wp_export_challenge:
  assumes "reliable w" and "distinct (map f_id (files (db w)))"
    and "\<And>w'. undisturbed w w' \<Longrightarrow> Q (exported (db w) c) w'"
  shows "wp (export_challenge True c) Q w"
  unfolding export_challenge_def wp_bind
proof (rule sure_ChallengeFlags [OF assms(1)])
  fix w1
  assume u1: "undisturbed w w1"
  then have w1: "reliable w1" "db w1 = db w" using assms(1) by (simp_all add: undisturbedD)
  show "wp (ListChallengeFiles (uuid_text (c_id c)))
      (\<lambda>metas. wp (case metas of Inl _ \<Rightarrow> ret [] | Inr ms \<Rightarrow> exported_files True ms)
        (\<lambda>attached. wp (ret \<lparr>ic_title = c_title c, ic_category = c_category c, ic_desc = c_desc c,
           ic_state = c_state c, ic_scoring = Some (c_scoring c), ic_tags = c_tags c,
           ic_flags = (case Inr (flags_in (c_id c) (db w)) of Inl _ \<Rightarrow> [] | Inr fs \<Rightarrow> map export_flag fs),
           ic_files = attached\<rparr>) Q)) w1"
  proof (rule sure_ListChallengeFiles [OF w1(1)], unfold sum.case w1(2))
    fix w2
    assume u2: "undisturbed w1 w2"
    then have w2: "reliable w2" "db w2 = db w" using w1 by (simp_all add: undisturbedD)
    have "set (files_in (c_id c) (db w)) \<subseteq> set (files (db w))" by (auto simp: files_in_def)
    then show "wp (exported_files True (map (\<lambda>f. f\<lparr>f_data := []\<rparr>) (files_in (c_id c) (db w))))
        (\<lambda>attached. wp (ret \<lparr>ic_title = c_title c, ic_category = c_category c, ic_desc = c_desc c,
           ic_state = c_state c, ic_scoring = Some (c_scoring c), ic_tags = c_tags c,
           ic_flags = map export_flag (flags_in (c_id c) (db w)), ic_files = attached\<rparr>) Q) w2"
      using assms(2,3) w2 undisturbed_trans [OF undisturbed_trans [OF u1 u2]]
      by (intro wp_exported_files) (simp_all add: exported_def)
  qed
qed

lemma wp_export_challenges:
  assumes "reliable w" and "distinct (map f_id (files (db w)))"
    and "\<And>w'. undisturbed w w' \<Longrightarrow> Q (map (exported (db w)) cs) w'"
  shows "wp (export_challenges True cs) Q w"
  using assms
proof (induction cs arbitrary: w Q)
  case Nil
  then show ?case by simp
next
  case (Cons c cs)
  show ?case
    unfolding export_challenges.simps wp_bind
  proof (rule wp_export_challenge [OF Cons.prems(1,2)])
    fix w1
    assume u: "undisturbed w w1"
    then show "wp (export_challenges True cs) (\<lambda>rest. wp (ret (exported (db w) c # rest)) Q) w1"
      using Cons.prems undisturbedD(1,2) [OF u] undisturbed_trans [OF u] by (intro Cons.IH) simp_all
  qed
qed

subsection \<open>Importing it again\<close>

definition file_content :: "challenge_file \<Rightarrow> string \<times> string \<times> int \<times> string \<times> string" where
  "file_content f = (f_name f, f_type f, f_size f, f_sha256 f, f_data f)"

text \<open>The same but for the ids of the files and the order of rows of different challenges.\<close>

definition same_content :: "database \<Rightarrow> database \<Rightarrow> bool" where
  "same_content d d' \<longleftrightarrow> d' = d\<lparr>flags := flags d', files := files d'\<rparr> \<and>
     (\<forall>ec. flags_in ec d' = flags_in ec d) \<and>
     (\<forall>ec. mset (map file_content (files_in ec d')) = mset (map file_content (files_in ec d)))"

lemma same_content_refl [simp]: "same_content d d"
  by (simp add: same_content_def)

lemma same_content_trans: "same_content d d' \<Longrightarrow> same_content d' d'' \<Longrightarrow> same_content d d''"
  by (cases d; cases d'; cases d'') (simp add: same_content_def)

lemma same_contentD:
  assumes "same_content d d'"
  shows "challenges d' = challenges d" "flags_in ec d' = flags_in ec d"
    "mset (map file_content (files_in ec d')) = mset (map file_content (files_in ec d))"
  using assms by (cases d; cases d'; simp add: same_content_def)+

lemma wp_insert_hashed:
  assumes "\<And>w'. db w' = (db w)\<lparr>flags := flags (db w) @
        map (\<lambda>(h, cs). \<lparr>fl_ec = ec, fl_hash = h, fl_case = cs\<rparr>) fs\<rparr> \<Longrightarrow> wp k Q w'"
    and "\<And>e w'. Q (Rollback (Inl (Failed e))) w'"
  shows "wp (insert_hashed now (uuid_text ec) fs k) Q w"
  using assms
proof (induction fs arbitrary: w)
  case Nil
  then show ?case by simp
next
  case (Cons f fs)
  obtain h cs where f: "f = (h, cs)" by fastforce
  have "wp (tx_try now (insert_flag (uuid_text ec) h cs) fail
      (\<lambda>_. insert_hashed now (uuid_text ec) fs k)) Q w"
  proof (rule wp_tx_try)
    fix a d
    assume "insert_flag (uuid_text ec) h cs now (uuids w 0) (db w) = Inr (a, d)"
    then have "d = (db w)\<lparr>flags := flags (db w) @ [\<lparr>fl_ec = ec, fl_hash = h, fl_case = cs\<rparr>]\<rparr>"
      by (auto simp: insert_flag_def cast_uuid_def uuid_in_text require_def split: if_splits)
    then show "wp (insert_hashed now (uuid_text ec) fs k) Q (tick w\<lparr>db := d\<rparr>)"
      using Cons.prems by (intro Cons.IH) (simp_all add: f)
  qed (rule Cons.prems)
  then show ?case by (simp add: f)
qed

lemma filter_regrouped:
  "filter (\<lambda>f. k f = e) (filter (\<lambda>f. k f \<noteq> ec) fs @ filter (\<lambda>f. k f = ec) fs) = filter (\<lambda>f. k f = e) fs"
  by (cases "e = ec"; induction fs) simp_all

lemma wp_ReplaceFlags:
  assumes "fs = map (\<lambda>f. (fl_hash f, fl_case f)) (flags_in ec (db w))"
    and "\<And>r w'. same_content (db w) (db w') \<Longrightarrow> Q r w'"
  shows "wp (ReplaceFlags (uuid_text ec) fs) Q w"
  unfolding ReplaceFlags_def
proof (rule wp_transaction, rule wp_tx_try)
  fix a d
  assume "delete_flags (uuid_text ec) (clock w 0) (uuids (tick w) 0) (db (tick w)) = Inr (a, d)"
  then have d: "d = (db w)\<lparr>flags := filter (\<lambda>f. fl_ec f \<noteq> ec) (flags (db w))\<rparr>"
    by (simp add: delete_flags_def cast_uuid_def uuid_in_text)
  have rows: "map (\<lambda>(h, cs). \<lparr>fl_ec = ec, fl_hash = h, fl_case = cs\<rparr>) fs = flags_in ec (db w)"
    unfolding assms(1) flags_in_def map_map by (rule map_idI) (auto simp: flag.defs)
  have same: "same_content (db w) (d\<lparr>flags := flags d @ flags_in ec (db w)\<rparr>)"
    using filter_regrouped [of fl_ec _ ec "flags (db w)"]
    by (simp add: d same_content_def flags_in_def files_in_def del: filter_append filter_filter)
  show "wp (insert_hashed (clock w 0) (uuid_text ec) fs (ret (Commit ())))
      (\<lambda>r w'. case r of Rollback v \<Rightarrow> Q v (w'\<lparr>db := db w\<rparr>)
        | Commit a \<Rightarrow> Q (Inr a) (tick w') \<and> Q (Inl (Failed ConnError)) (tick w') \<and>
           Q (Inl (Failed ConnError)) ((tick w')\<lparr>db := db w\<rparr>)) (tick (tick w)\<lparr>db := d\<rparr>)"
    using same by (intro wp_insert_hashed) (auto simp: rows intro!: assms(2))
qed (auto intro!: assms(2))

definition row_of :: "uuid \<Rightarrow> uuid \<Rightarrow> file_input \<Rightarrow> challenge_file" where
  "row_of ec u f = \<lparr>f_id = u, f_ec = ec, f_name = fn_name f, f_type = fn_type f,
     f_size = fn_size f, f_sha256 = fn_sha256 f, f_data = fn_data f\<rparr>"

lemma wp_insert_files:
  assumes "\<And>w' us. length us = length fs \<Longrightarrow>
      db w' = (db w)\<lparr>files := files (db w) @ map2 (row_of ec) us fs\<rparr> \<Longrightarrow> wp k Q w'"
    and "\<And>e w'. Q (Rollback (Inl (Failed e))) w'"
  shows "wp (insert_files now (uuid_text ec) fs k) Q w"
  using assms
proof (induction fs arbitrary: w)
  case Nil
  then show ?case by simp
next
  case (Cons f fs)
  have "wp (tx_try now (insert_file (uuid_text ec) f) fail
      (\<lambda>_. insert_files now (uuid_text ec) fs k)) Q w"
  proof (rule wp_tx_try)
    fix a d
    assume "insert_file (uuid_text ec) f now (uuids w 0) (db w) = Inr (a, d)"
    then have d: "d = (db w)\<lparr>files := files (db w) @ [row_of ec (uuids w 0) f]\<rparr>"
      by (auto simp: insert_file_def row_of_def cast_uuid_def uuid_in_text require_def split: if_splits)
    show "wp (insert_files now (uuid_text ec) fs k) Q (tick w\<lparr>db := d\<rparr>)"
    proof (rule Cons.IH)
      fix w' :: world and us
      assume "length us = length fs"
        and "db w' = (db (tick w\<lparr>db := d\<rparr>))\<lparr>files := files (db (tick w\<lparr>db := d\<rparr>)) @ map2 (row_of ec) us fs\<rparr>"
      then show "wp k Q w'" by (intro Cons.prems(1) [of "uuids w 0 # us"]) (simp_all add: d)
    qed (rule Cons.prems(2))
  qed (rule Cons.prems(2))
  then show ?case by simp
qed


lemma filter_others:
  "filter (\<lambda>f. k f = e) (filter (\<lambda>f. k f \<noteq> ec) fs) = (if e = ec then [] else filter (\<lambda>f. k f = e) fs)"
  by (induction fs) auto

lemma content_row_of:
  assumes "length us = length fs"
  shows "map file_content (map2 (row_of ec) us (map input_of fs)) = map file_content fs"
    "filter (\<lambda>f. f_ec f = e) (map2 (row_of ec) us (map input_of fs)) =
      (if e = ec then map2 (row_of ec) us (map input_of fs) else [])"
  using assms
  by (induction us fs rule: list_induct2) (auto simp: row_of_def input_of_def file_content_def)

lemma wp_ReplaceChallengeFiles:
  assumes "fs = map input_of src"
    and "mset (map file_content src) = mset (map file_content (files_in ec (db w)))"
    and "\<And>r w'. same_content (db w) (db w') \<Longrightarrow> Q r w'"
  shows "wp (ReplaceChallengeFiles (uuid_text ec) fs) Q w"
  unfolding ReplaceChallengeFiles_def
proof (rule wp_transaction, rule wp_tx_try)
  fix a d
  let ?others = "filter (\<lambda>f. f_ec f \<noteq> ec) (files (db w))"
  assume "delete_files (uuid_text ec) (clock w 0) (uuids (tick w) 0) (db (tick w)) = Inr (a, d)"
  then have d: "d = (db w)\<lparr>files := ?others\<rparr>"
    by (simp add: delete_files_def cast_uuid_def uuid_in_text)
  have same: "same_content (db w) (d\<lparr>files := files d @ map2 (row_of ec) us fs\<rparr>)"
    if us: "length us = length fs" for us
  proof -
    let ?new = "map2 (row_of ec) us fs"
    have len: "length us = length src" using us assms(1) by simp
    have new: "map file_content ?new = map file_content src"
      "filter (\<lambda>f. f_ec f = e) ?new = (if e = ec then ?new else [])" for e
      unfolding assms(1) using content_row_of [OF len] by blast+
    have old: "mset (map file_content ?new) = mset (map file_content (filter (\<lambda>f. f_ec f = ec) (files (db w))))"
      unfolding new(1) assms(2) by (simp only: mset_map mset_order_by files_in_def)
    have "mset (map file_content (filter (\<lambda>f. f_ec f = e) (?others @ ?new))) =
        mset (map file_content (filter (\<lambda>f. f_ec f = e) (files (db w))))" for e
      unfolding filter_append filter_others new(2) using old by (cases "e = ec") simp_all
    then show ?thesis by (simp add: d same_content_def flags_in_def files_in_def)
  qed
  show "wp (insert_files (clock w 0) (uuid_text ec) fs (ret (Commit ())))
      (\<lambda>r w'. case r of Rollback v \<Rightarrow> Q v (w'\<lparr>db := db w\<rparr>)
        | Commit a \<Rightarrow> Q (Inr a) (tick w') \<and> Q (Inl (Failed ConnError)) (tick w') \<and>
           Q (Inl (Failed ConnError)) ((tick w')\<lparr>db := db w\<rparr>)) (tick (tick w)\<lparr>db := d\<rparr>)"
    using same by (intro wp_insert_files [where ec = ec]) (auto intro!: assms(3))
qed (auto intro!: assms(3))

lemma flags_exported:
  assumes "\<forall>f \<in> set fs. fl_hash f \<noteq> []"
  shows "List.map_filter (toStoreFlag P) (map export_flag fs) = map (\<lambda>f. (fl_hash f, fl_case f)) fs"
  using assms by (induction fs) (simp_all add: toStoreFlag_exported map_filter_simps)

text \<open>
  An event whose export can be read again: its challenges have different titles, and nothing in it
  is empty where an import puts a default or drops the entry. Ids are primary keys.
\<close>

definition transferable :: "platform \<Rightarrow> uuid \<Rightarrow> database \<Rightarrow> bool" where
  "transferable P ev d \<longleftrightarrow> distinct (map c_id (challenges d)) \<and> distinct (map f_id (files d)) \<and>
     inj_on c_title {c \<in> set (challenges d). c_event c = ev} \<and>
     (\<forall>c \<in> set (challenges d). c_event c = ev \<longrightarrow> c_title c \<noteq> [] \<and> c_category c \<noteq> [] \<and> c_state c \<noteq> []) \<and>
     (\<forall>f \<in> set (flags d). fl_hash f \<noteq> []) \<and> (\<forall>f \<in> set (files d). file_clean P f)"

lemma wp_FindECByTitle:
  assumes "uuid_in eventID = Some ev" and "c \<in> set (challenges (db w))" and "c_event c = ev"
    and "inj_on c_title {c \<in> set (challenges (db w)). c_event c = ev}"
    and "\<And>w'. db w' = db w \<Longrightarrow> Q (Inr c) w'" and "\<And>e w'. db w' = db w \<Longrightarrow> Q (Inl (Failed e)) w'"
  shows "wp (FindECByTitle eventID (c_title c)) Q w"
proof -
  let ?P = "\<lambda>x. c_event x = ev \<and> c_title x = c_title c"
  have "find ?P (challenges (db w)) \<noteq> None" using assms(2,3) by (auto simp: find_None_iff)
  then obtain x where x: "find ?P (challenges (db w)) = Some x" by blast
  then have "x \<in> set (challenges (db w)) \<and> ?P x" by (auto dest: find_SomeD)
  then have "x = c" using assms(2-4) by (auto simp: inj_on_def)
  with x have found: "find ?P (challenges (db w)) = Some c" by simp
  show ?thesis
    unfolding FindECByTitle_def wp_bind
    by (rule wp_read; (intro quiet_intros)?)
      (auto simp: cast_uuid_def assms(1) found row_or_not_found_def undisturbedD intro!: assms(5,6))
qed

lemma wp_UpdateChallengeContent:
  assumes "distinct (map c_id (challenges (db w)))" and "c \<in> set (challenges (db w))"
    and "\<And>r w'. db w' = db w \<Longrightarrow> Q r w'"
  shows "wp (UpdateChallengeContent (uuid_text (c_id c)) (c_category c) (c_desc c) (Some (c_scoring c))
    (c_state c) (c_tags c)) Q w"
proof -
  let ?f = "\<lambda>x. x\<lparr>c_category := c_category c, c_desc := c_desc c, c_scoring := c_scoring c,
      c_state := c_state c, c_tags := c_tags c\<rparr>"
  have "?f c = c" by (cases c) simp
  moreover have "x = c" if "x \<in> set (challenges (db w))" "c_id x = c_id c" for x
    using that assms(1,2) by (auto simp: distinct_map inj_on_def)
  ultimately have "update_where (\<lambda>x. c_id x = c_id c) ?f (challenges (db w)) = challenges (db w)"
    unfolding update_where_def by (intro map_idI) metis
  then show ?thesis
    unfolding UpdateChallengeContent_def wp_bind
    by (intro wp_db_call) (auto simp: update_challenge_def cast_uuid_def uuid_in_text or_default_def intro!: assms(3))
qed

lemma wp_import_files:
  assumes "fs = map input_of src"
    and "mset (map file_content src) = mset (map file_content (files_in ec (db w)))"
    and "\<And>pl w'. same_content (db w) (db w') \<Longrightarrow> Q pl w'"
  shows "wp (import_files title (uuid_text ec) fs pl) Q w"
  unfolding import_files_def using assms(3)
  by (auto intro!: wp_ReplaceChallengeFiles [OF assms(1,2)])

lemma wp_import_existing:
  assumes "distinct (map c_id (challenges (db w)))" and "c \<in> set (challenges (db w))"
    and "fs = map (\<lambda>f. (fl_hash f, fl_case f)) (flags_in (c_id c) (db w))"
    and "attached = map input_of src"
    and "mset (map file_content src) = mset (map file_content (files_in (c_id c) (db w)))"
    and "\<And>pl w'. same_content (db w) (db w') \<Longrightarrow> Q pl w'"
  shows "wp (import_existing P (uuid_text (c_id c)) (exported d c) (c_category c) (c_state c) fs attached pl) Q w"
  unfolding import_existing_def wp_bind exported_def io_challenge.simps
proof (rule wp_UpdateChallengeContent [OF assms(1,2)], unfold wp_ret)
  fix r and w1 :: world
  assume db1: "db w1 = db w"
  have rest: "wp (import_files (c_title c) (uuid_text (c_id c)) attached pl) Q w2"
    if "same_content (db w) (db w2)" for w2 pl
    using assms(5) same_contentD(3) [OF that]
    by (intro wp_import_files [OF assms(4)]) (auto intro: assms(6) same_content_trans [OF that])
  show "wp (if fs = [] then ret () else do { _ \<leftarrow> ReplaceFlags (uuid_text (c_id c)) fs; ret () })
      (\<lambda>_. wp (import_files (c_title c) (uuid_text (c_id c)) attached
        (complain_if (NotUpdated (c_title c)) r pl)) Q) w1"
    using rest db1 assms(3) by (auto intro!: wp_ReplaceFlags)
qed

lemma same_content_files:
  assumes "same_content d d'"
  shows "mset (map file_content (files_in ec d)) = mset (map file_content (files_in ec d'))"
  by (rule same_contentD(3) [OF assms, symmetric])

lemma wp_import_one:
  assumes "transferable P ev d" and "uuid_in eventID = Some ev" and "same_content d (db w)"
    and "c \<in> set (challenges d)" and "c_event c = ev"
    and "\<And>pl w'. same_content d (db w') \<Longrightarrow> Q pl w'"
  shows "wp (import_one P eventID dry (exported d c) pl) Q w"
proof -
  let ?fs = "map (\<lambda>f. (fl_hash f, fl_case f)) (flags_in (c_id c) d)"
  let ?attached = "map input_of (files_in (c_id c) d)"
  note t = assms(1) [unfolded transferable_def]
  have plain: "c_title c \<noteq> []" "c_category c \<noteq> []" "c_state c \<noteq> []" using t assms(4,5) by blast+
  have "\<forall>f \<in> set (files_in (c_id c) d). file_clean P f" using t by (auto simp: files_in_def)
  then have attached: "good_files P (map exported_file (files_in (c_id c) d)) = ?attached"
    "bad_files P (map exported_file (files_in (c_id c) d)) = []" by (rule files_exported)+
  have fs: "List.map_filter (toStoreFlag P) (map export_flag (flags_in (c_id c) d)) = ?fs"
    using t by (intro flags_exported) (auto simp: flags_in_def)
  have io: "ic_title (exported d c) = c_title c" "ic_category (exported d c) = c_category c"
    "ic_state (exported d c) = c_state c" "ic_flags (exported d c) = map export_flag (flags_in (c_id c) d)"
    "ic_files (exported d c) = map exported_file (files_in (c_id c) d)" by (simp_all add: exported_def)
  have here: "c \<in> set (challenges (db w))" "inj_on c_title {c \<in> set (challenges (db w)). c_event c = ev}"
    using t assms(4) same_contentD(1) [OF assms(3)] by simp_all
  have existing: "wp (import_existing P (uuid_text (c_id c)) (exported d c) (c_category c) (c_state c) ?fs
      ?attached pl) Q w1" if "db w1 = db w" for w1 pl
  proof -
    have same: "same_content d (db w1)" using assms(3) that by simp
    show ?thesis
    proof (rule wp_import_existing [where src = "files_in (c_id c) d"])
      show "distinct (map c_id (challenges (db w1)))" "c \<in> set (challenges (db w1))"
        "?fs = map (\<lambda>f. (fl_hash f, fl_case f)) (flags_in (c_id c) (db w1))"
        using t assms(4) same_contentD(1,2) [OF same] by simp_all
    qed (rule refl, rule same_content_files [OF same], rule assms(6), rule same_content_trans [OF same])
  qed
  show ?thesis
    unfolding import_one_def io fs attached Let_def wp_bind
    using plain
    by (auto intro!: wp_FindECByTitle [OF assms(2) here(1) assms(5) here(2)] assms(6) existing simp: assms(3))
qed

lemma wp_import_all:
  assumes "transferable P ev d" and "uuid_in eventID = Some ev" and "same_content d (db w)"
    and "set cs \<subseteq> {c \<in> set (challenges d). c_event c = ev}"
    and "\<And>pl w'. same_content d (db w') \<Longrightarrow> Q pl w'"
  shows "wp (import_all P eventID dry (map (exported d) cs) pl) Q w"
  using assms(3-5)
proof (induction cs arbitrary: w pl)
  case Nil
  then show ?case by simp
next
  case (Cons c cs)
  show ?case
    unfolding list.map import_all.simps wp_bind
    using Cons.prems by (intro wp_import_one [OF assms(1,2)] Cons.IH) auto
qed

lemma undisturbed_ListBlocks:
  assumes "\<And>r w'. undisturbed w w' \<Longrightarrow> Q r w'"
  shows "wp (ListBlocks eventID) Q w"
  unfolding ListBlocks_def wp_bind
  by (rule wp_read; (intro quiet_intros)?) (auto simp: cast_uuid_def intro: assms split: option.splits)

lemma sure_ListChallenges:
  assumes "reliable w" and "uuid_in eventID = Some ev"
    and "\<And>cs w'. undisturbed w w' \<Longrightarrow> set cs = {c \<in> set (challenges (db w)). c_event c = ev} \<Longrightarrow> Q (Inr cs) w'"
  shows "wp (ListChallenges eventID False) Q w"
  unfolding ListChallenges_def wp_bind
  by (rule wp_sure_read [OF assms(1)]; (intro quiet_intros)?)
    (auto simp: cast_uuid_def assms(2) failed_simps intro!: assms(3))

lemma sure_GetEvent:
  assumes "reliable w" and "uuid_in eventID = Some ev"
    and "\<And>w'. undisturbed w w' \<Longrightarrow>
      Q (case find (\<lambda>e. e_id e = ev) (events (db w)) of None \<Rightarrow> Inl NotFound | Some e \<Rightarrow> Inr e) w'"
  shows "wp (GetEvent eventID) Q w"
  unfolding GetEvent_def wp_bind
  by (rule wp_sure_read [OF assms(1)]; (intro quiet_intros)?)
    (use assms(2,3) in \<open>auto simp: cast_uuid_def row_or_not_found_def split: option.splits\<close>)

text \<open>On a network that answers, the export has exactly what the database holds.\<close>

lemma wp_handleExport:
  assumes "reliable w" and "uuid_in eventID = Some ev" and "param \<noteq> ''meta''"
    and "distinct (map f_id (files (db w)))"
  shows "wp (handleExport eventID param) (\<lambda>r w'. r = Problem 404 ''event not found'' \<and>
       find (\<lambda>e. e_id e = ev) (events (db w)) = None \<or>
     (\<exists>ex cs. r = Reply 200 ex \<and> ex_challenges ex = map (exported (db w)) cs \<and>
       set cs = {c \<in> set (challenges (db w)). c_event c = ev})) w" (is "wp _ ?Q w")
  unfolding handleExport_def wp_bind
proof (rule sure_GetEvent [OF assms(1,2)])
  fix w1
  assume u1: "undisturbed w w1"
  have found: "wp (ListBlocks eventID) (\<lambda>bs. wp (ListChallenges eventID False) (\<lambda>cs. wp
      (case cs of Inl _ \<Rightarrow> ret (Problem 500 ''export failed'')
         | Inr cs \<Rightarrow> do {
             out \<leftarrow> export_challenges (param \<noteq> ''meta'') cs;
             ret (Reply 200 \<lparr>ex_slug = e_slug e, ex_name = e_name e,
                ex_blocks = (case bs of Inl _ \<Rightarrow> [] | Inr bs \<Rightarrow> bs), ex_challenges = out\<rparr>)
           }) ?Q)) w1" for e
  proof (rule undisturbed_ListBlocks, rule sure_ListChallenges [OF _ assms(2)])
    fix bs w2
    assume u2: "undisturbed w1 w2"
    show "reliable w2" using assms(1) u1 u2 by (simp add: undisturbedD)
    fix cs w3
    assume u3: "undisturbed w2 w3" and cs: "set cs = {c \<in> set (challenges (db w2)). c_event c = ev}"
    have "db w2 = db w" "db w3 = db w" "reliable w3" using u1 u2 u3 assms(1) by (simp_all add: undisturbedD)
    then show "wp (case Inr cs of Inl _ \<Rightarrow> ret (Problem 500 ''export failed'')
         | Inr cs \<Rightarrow> do {
             out \<leftarrow> export_challenges (param \<noteq> ''meta'') cs;
             ret (Reply 200 \<lparr>ex_slug = e_slug e, ex_name = e_name e,
                ex_blocks = (case bs of Inl _ \<Rightarrow> [] | Inr bs \<Rightarrow> bs), ex_challenges = out\<rparr>)
           }) ?Q w3"
      using assms(3,4) cs by (auto intro!: wp_export_challenges)
  qed
  show "wp (case case find (\<lambda>e. e_id e = ev) (events (db w)) of None \<Rightarrow> Inl NotFound | Some e \<Rightarrow> Inr e of
        Inl NotFound \<Rightarrow> ret (Problem 404 ''event not found'')
      | Inl _ \<Rightarrow> ret (Problem 500 ''export failed'')
      | Inr ev \<Rightarrow> do {
          bs \<leftarrow> ListBlocks eventID;
          cs \<leftarrow> ListChallenges eventID False;
          (case cs of
             Inl _ \<Rightarrow> ret (Problem 500 ''export failed'')
           | Inr cs \<Rightarrow> do {
               out \<leftarrow> export_challenges (param \<noteq> ''meta'') cs;
               ret (Reply 200 \<lparr>ex_slug = e_slug ev, ex_name = e_name ev,
                  ex_blocks = (case bs of Inl _ \<Rightarrow> [] | Inr bs \<Rightarrow> bs), ex_challenges = out\<rparr>)
             })
        }) ?Q w1"
  proof (cases "find (\<lambda>e. e_id e = ev) (events (db w))")
    case (Some e)
    show ?thesis using found [of e] unfolding Some option.case sum.case wp_bind .
  qed simp
qed

lemma exported_io_ok:
  assumes "transferable P ev d"
  shows "io_ok (exported d c)"
proof -
  have "int64_ok (f_size f)" if "f \<in> set (files d)" for f
  proof -
    have "f_size f = int (length (f_data f))" "length (f_data f) \<le> maxFileBytes"
      using assms that by (auto simp: transferable_def file_clean_def)
    then show ?thesis by (simp add: int64_ok_def min_int64_def max_int64_def maxFileBytes_def)
  qed
  then show ?thesis by (auto simp: io_ok_def exported_def exported_file_def files_in_def)
qed

lemma wp_publish:
  assumes "\<And>w'. db w' = db w \<Longrightarrow> Q () w'"
  shows "wp (publish srv ev t j) Q w"
  using assms quiet_publish [of srv ev t j] by (simp add: quiet_def still_def wp_def split: prod.split) (metis snd_conv)

lemma wp_handleImport:
  assumes "transferable P ev d" and "uuid_in eventID = Some ev" and "same_content d (db w)"
    and "ex_challenges ex = map (exported d) cs" and "set cs \<subseteq> {c \<in> set (challenges d). c_event c = ev}"
  shows "wp (handleImport P srv eventID dry format (Some (encode_export bj ex)))
    (\<lambda>r w'. format \<noteq> ''ctfd'' \<longrightarrow> same_content d (db w')) w"
proof (cases "format = ''ctfd''")
  case False
  have body: "import_body False (Some (encode_export bj ex)) = Some (map (exported d) cs, False)"
    using decode_export [of ex bj] assms(4) exported_io_ok [OF assms(1)] by auto
  show ?thesis
    unfolding handleImport_def wp_bind
  proof (rule wp_GetEvent)
    fix e w1
    assume "undisturbed w w1"
    then have "same_content d (db w1)" using assms(3) by (simp add: undisturbedD)
    then show "wp (if e = Inl NotFound then ret (Problem 404 ''event not found'')
        else case import_body (format = ''ctfd'') (Some (encode_export bj ex)) of
             None \<Rightarrow> ret (Problem 400 ''bad request'')
           | Some (cs, dry') \<Rightarrow>
               (let dryRun = (dry = ''true'' \<or> dry')
                in do {
                  pl \<leftarrow> import_all P eventID dryRun cs \<lparr>pl_created = 0, pl_updated = 0, pl_problems = []\<rparr>;
                  (if dryRun then ret () else publish srv eventID ''challenges.changed'' JNull);
                  ret (Reply 200 (dryRun, pl))
                })) (\<lambda>r w'. format \<noteq> ''ctfd'' \<longrightarrow> same_content d (db w')) w1"
      using False assms(5)
      by (auto simp: body Let_def intro!: wp_import_all [OF assms(1,2)] wp_publish)
  qed
qed simp

text \<open>
  C18. Importing an export unchanged is harmless. Take the export of an event, with its files, from a
  server that answers, and import it into the same event while the database is as it was: whatever
  statement or commit of the import fails, every challenge of the server has afterwards the same
  content, the same flags in the same order and the same files (under new ids), and nothing else in the
  database has changed. Required (\<open>transferable\<close>): the challenges of the event have
  different titles (no index makes them), no title, category, state, flag or file is empty where the
  import puts a default or drops the entry, and every file has a name, type, hash and size that the
  import takes as they are. The export is a full one (not \<open>files=meta\<close>, which leaves out the bytes) and
  was read without a fault.
\<close>

theorem reimport_harmless:
  assumes "transferable P ev (db w)" and "reliable w" and "uuid_in eventID = Some ev"
    and "param \<noteq> ''meta''" and "run_state (handleExport eventID param) w = (Reply code ex, w')"
    and "db w2 = db w" and "format \<noteq> ''ctfd''"
    and "run_state (handleImport P srv eventID dry format (Some (encode_export bj ex))) w2 = (r, w3)"
  shows "same_content (db w) (db w3)"
proof -
  have "distinct (map f_id (files (db w)))" using assms(1) by (simp add: transferable_def)
  from wpD [OF wp_handleExport [OF assms(2-4) this] assms(5)] obtain cs
    where cs: "ex_challenges ex = map (exported (db w)) cs" "set cs = {c \<in> set (challenges (db w)). c_event c = ev}"
    by blast
  have "same_content (db w) (db w2)" using assms(6) by simp
  from wpD [OF wp_handleImport [OF assms(1,3) this cs(1)] assms(8)] show ?thesis
    using cs(2) assms(7) by simp
qed

definition demo_attached :: world where
  "demo_attached = demo_world\<lparr>db := demo_db\<lparr>files := [\<lparr>f_id = 11, f_ec = 5, f_name = ''b.txt'',
     f_type = ''text/plain'', f_size = 2, f_sha256 = ''hi'', f_data = ''hi''\<rparr>]\<rparr>\<rparr>"

lemma demo_transferable: "transferable demo_platform 4 (db demo_attached)"
proof -
  have "trim_space ''b.txt'' = ''b.txt''" "trim_space ''text/plain'' = ''text/plain''" by code_simp+
  then show ?thesis
    by (simp add: transferable_def demo_attached_def demo_defs file_clean_def demo_platform_def maxFileBytes_def inj_on_def)
qed

lemma demo_export:
  "\<exists>ex. fst (run_state (handleExport (uuid_text 4) []) demo_attached) = Reply 200 ex \<and>
     map io_data (concat (map ic_files (ex_challenges ex))) = [''aGk='']"
proof -
  have "std_encode ''hi'' = ''aGk=''" by code_simp
  then show ?thesis
    by (simp add: handleExport_def GetEvent_def ListBlocks_def ListChallenges_def export_challenge_def
        ChallengeFlags_def ListChallengeFiles_def GetChallengeFile_def run_simps call_defs demo_defs demo_attached_def)
qed

theorem reimport_harmless_witness:
  "\<exists>ex. fst (run_state (handleExport (uuid_text 4) []) demo_attached) = Reply 200 ex \<and>
     map io_data (concat (map ic_files (ex_challenges ex))) = [''aGk=''] \<and>
     same_content (db demo_attached) (db (snd (run_state (handleImport demo_platform demo_server (uuid_text 4) [] []
       (Some (encode_export (\<lambda>_. JNull) ex))) demo_attached)))"
proof -
  let ?m = "handleExport (uuid_text 4) []"
  obtain ex where ex: "fst (run_state ?m demo_attached) = Reply 200 ex"
    "map io_data (concat (map ic_files (ex_challenges ex))) = [''aGk='']"
    using demo_export by (elim exE conjE) (rule that)
  have run: "run_state ?m demo_attached = (Reply 200 ex, snd (run_state ?m demo_attached))"
    using ex(1) by (simp add: prod_eq_iff)
  have reliable: "reliable demo_attached" by (simp add: demo_attached_def demo_world_def reliable_def)
  have "[] \<noteq> ''meta''" "[] \<noteq> ''ctfd''" by simp_all
  from reimport_harmless [OF demo_transferable reliable uuid_in_text this(1) run refl this(2) prod.collapse [symmetric]]
  have same: "same_content (db demo_attached) (db (snd (run_state (handleImport demo_platform demo_server (uuid_text 4) [] []
       (Some (encode_export (\<lambda>_. JNull) ex))) demo_attached)))" .
  show ?thesis by (intro exI [of _ ex] conjI ex same)
qed

end
