(* ===== verification/Hub.thy ===== *)
theory Hub
  imports Webhooks
begin

text \<open>
  The live updates: the rooms of the WebSocket hub (\<open>internal/ws/hub.go\<close>), the goroutines that
  pump messages to the browsers, and the bridge from Redis pub/sub (\<open>subscribe\<close> and
  \<open>handleWS\<close> of \<open>internal/httpserver/server.go\<close>).

  A client is a number (in Go the address of its \<open>Client\<close>), its channel the list of the messages
  that wait in it. What runs concurrently is a sequence of steps: each takes the lock of the hub or
  one channel operation. A broadcast offers its message to each client once, under the lock, so it is
  one step: for every client by itself it is one operation on its channel.
\<close>

subsection \<open>The hub\<close>

record 'm hub =
  rooms :: "string \<rightharpoonup> nat list"
  chans :: "nat \<Rightarrow> 'm list"

definition NewHub :: "'m hub" where
  "NewHub = \<lparr>rooms = (\<lambda>_. None), chans = (\<lambda>_. [])\<rparr>"

definition room :: "string \<Rightarrow> 'm hub \<Rightarrow> nat list" where
  "room ev h = (case rooms h ev of None \<Rightarrow> [] | Some cs \<Rightarrow> cs)"

definition add :: "string \<Rightarrow> nat \<Rightarrow> 'm hub \<Rightarrow> 'm hub" where
  "add ev c h = h\<lparr>rooms := (rooms h)(ev \<mapsto> List.insert c (room ev h))\<rparr>"

definition remove :: "string \<Rightarrow> nat \<Rightarrow> 'm hub \<Rightarrow> 'm hub" where
  "remove ev c h =
     (case rooms h ev of
        None \<Rightarrow> h
      | Some cs \<Rightarrow>
          let left = removeAll c cs
          in h\<lparr>rooms := (rooms h)(ev := if left = [] then None else Some left)\<rparr>)"

text \<open>The channels are made with room for 32 messages; \<open>select\<close> with a \<open>default\<close> drops the rest.\<close>

definition capacity :: nat where
  "capacity = 32"

definition offer :: "'m \<Rightarrow> nat \<Rightarrow> 'm hub \<Rightarrow> 'm hub" where
  "offer m c h =
     (if length (chans h c) < capacity then h\<lparr>chans := (chans h)(c := chans h c @ [m])\<rparr> else h)"

definition Broadcast :: "string \<Rightarrow> 'm \<Rightarrow> 'm hub \<Rightarrow> 'm hub" where
  "Broadcast ev m h = fold (offer m) (room ev h) h"

subsection \<open>Connections\<close>

text \<open>
  A connection that was accepted: its event, what has been written to the browser, and whether the
  reader has seen it close (or the request was cancelled).
\<close>

record 'm connection =
  cn_event :: string
  cn_out :: "'m list"
  cn_done :: bool

record 'm live =
  hub :: "'m hub"
  conns :: "nat \<rightharpoonup> 'm connection"

datatype 'm move =
    Connect nat string
  | Send string 'm
  | Write nat
  | WriteFails nat
  | Closed nat
  | Return nat

definition open_conn :: "nat \<Rightarrow> string \<Rightarrow> 'm live \<Rightarrow> 'm live" where
  "open_conn c ev s =
     \<lparr>hub = add ev c ((hub s)\<lparr>chans := (chans (hub s))(c := [])\<rparr>),
      conns = (conns s)(c \<mapsto> \<lparr>cn_event = ev, cn_out = [], cn_done = False\<rparr>)\<rparr>"

text \<open>The deferred calls of \<open>Serve\<close>.\<close>

definition leave :: "nat \<Rightarrow> 'm connection \<Rightarrow> 'm live \<Rightarrow> 'm live" where
  "leave c k s = \<lparr>hub = remove (cn_event k) c (hub s), conns = (conns s)(c := None)\<rparr>"

definition take_message :: "nat \<Rightarrow> 'm live \<Rightarrow> 'm live" where
  "take_message c s = s\<lparr>hub := (hub s)\<lparr>chans := (chans (hub s))(c := tl (chans (hub s) c))\<rparr>\<rparr>"

text \<open>
  The steps: a request is accepted and joins its room; somebody broadcasts; the pump takes a message
  and writes it, or fails to and returns; the reader sees the connection close; the pump notices.
\<close>

inductive step :: "'m live \<Rightarrow> 'm move \<Rightarrow> 'm live \<Rightarrow> bool" where
  Connect: "conns s c = None \<Longrightarrow> step s (Connect c ev) (open_conn c ev s)"
| Send: "step s (Send ev m) (s\<lparr>hub := Broadcast ev m (hub s)\<rparr>)"
| Write: "conns s c = Some k \<Longrightarrow> chans (hub s) c = m # ms \<Longrightarrow>
    step s (Write c) ((take_message c s)\<lparr>conns := (conns s)(c \<mapsto> k\<lparr>cn_out := cn_out k @ [m]\<rparr>)\<rparr>)"
| WriteFails: "conns s c = Some k \<Longrightarrow> chans (hub s) c = m # ms \<Longrightarrow>
    step s (WriteFails c) (leave c k (take_message c s))"
| Closed: "conns s c = Some k \<Longrightarrow> step s (Closed c) (s\<lparr>conns := (conns s)(c \<mapsto> k\<lparr>cn_done := True\<rparr>)\<rparr>)"
| Return: "conns s c = Some k \<Longrightarrow> cn_done k \<Longrightarrow> step s (Return c) (leave c k s)"

inductive_cases step_cases: "step s l s'"
inductive_simps step_simps [simp]:
  "step s (Connect c ev) s'" "step s (Send ev m) s'" "step s (Write c) s'" "step s (WriteFails c) s'"
  "step s (Closed c) s'" "step s (Return c) s'"

inductive steps :: "'m live \<Rightarrow> 'm move list \<Rightarrow> 'm live \<Rightarrow> bool" where
  None: "steps s [] s"
| More: "step s l s' \<Longrightarrow> steps s' ls s'' \<Longrightarrow> steps s (l # ls) s''"

inductive_simps steps_simps [simp]: "steps s [] s'" "steps s (l # ls) s'"

definition quiet_server :: "'m live" where
  "quiet_server = \<lparr>hub = NewHub, conns = (\<lambda>_. None)\<rparr>"

subsection \<open>Requests and Redis\<close>

text \<open>\<open>/ws?event=...\<close>: without an event the answer is 400; else the connection is opened.\<close>

definition handleWS :: "string \<Rightarrow> nat \<Rightarrow> 'm move option" where
  "handleWS eventID c = (if eventID = [] then None else Some (Connect c eventID))"

text \<open>
  The envelope in which a message travels through Redis. A message is the JSON text \<open>env.Msg\<close>
  (nothing if it is missing), represented by the value it was written from.
\<close>

record envelope =
  ev_event :: string
  ev_msg :: "json option"

definition envelope_fields :: "(string \<times> envelope setter) list" where
  "envelope_fields =
     [(''event_id'', set_string (\<lambda>x r. r\<lparr>ev_event := x\<rparr>)),
      (''msg'', set_raw (\<lambda>x r. r\<lparr>ev_msg := x\<rparr>))]"

definition zero_envelope :: envelope where
  "zero_envelope = \<lparr>ev_event = [], ev_msg = None\<rparr>"

definition publish_payload :: "string \<Rightarrow> string \<Rightarrow> json \<Rightarrow> json" where
  "publish_payload eventID typ data =
     JObj [(''event_id'', JStr eventID), (''msg'', JObj [(''data'', data), (''type'', JStr typ)])]"

text \<open>What the subscriber does with a payload (\<open>None\<close>: it is no JSON).\<close>

definition subscribe_move :: "json option \<Rightarrow> json option move option" where
  "subscribe_move payload =
     (case payload of
        None \<Rightarrow> None
      | Some j \<Rightarrow>
          (case decode_struct False envelope_fields j zero_envelope of (env, ok) \<Rightarrow>
             if ok then Some (Send (ev_event env) (ev_msg env)) else None))"

text \<open>What one server publishes, every server broadcasts.\<close>

lemma subscribe_published:
  "subscribe_move (Some (publish_payload ev typ data)) =
     Some (Send ev (Some (JObj [(''data'', data), (''type'', JStr typ)])))"
  by (simp add: subscribe_move_def publish_payload_def envelope_fields_def zero_envelope_def set_raw_def ascii_lower_def)

subsection \<open>Rooms\<close>

lemma chans_offers:
  "distinct cs \<Longrightarrow> chans (fold (offer m) cs h) c =
     (if c \<in> set cs \<and> length (chans h c) < capacity then chans h c @ [m] else chans h c)"
  by (induction cs arbitrary: h) (auto simp: offer_def)

lemma chans_Broadcast:
  "distinct (room ev h) \<Longrightarrow> chans (Broadcast ev m h) c =
     (if c \<in> set (room ev h) \<and> length (chans h c) < capacity then chans h c @ [m] else chans h c)"
  by (simp add: Broadcast_def chans_offers)

lemma rooms_offers [simp]: "rooms (fold (offer m) cs h) = rooms h"
  by (induction cs arbitrary: h) (auto simp: offer_def)

lemma room_simps [simp]:
  "room ev (h\<lparr>chans := q\<rparr>) = room ev h" "room ev (Broadcast e m h) = room ev h"
  "rooms (Broadcast e m h) = rooms h"
  by (simp_all add: room_def Broadcast_def)

lemma room_add: "room e (add ev c h) = (if e = ev then List.insert c (room ev h) else room e h)"
  by (simp add: room_def add_def)

lemma room_remove: "room e (remove ev c h) = (if e = ev then removeAll c (room ev h) else room e h)"
  by (auto simp: room_def remove_def Let_def split: option.split)

lemma no_empty_room:
  "rooms (add ev c h) e = Some [] \<longleftrightarrow> e \<noteq> ev \<and> rooms h e = Some []"
  "rooms (remove ev c h) e = Some [] \<longleftrightarrow> e \<noteq> ev \<and> rooms h e = Some []"
  by (auto simp: add_def remove_def Let_def List.insert_def split: option.split)

lemma chans_simps [simp]: "chans (add ev c h) = chans h" "chans (remove ev c h) = chans h"
  by (auto simp: add_def remove_def Let_def split: option.split)

text \<open>
  In a room are the open connections for its event, each once; there is no empty room; and no channel
  holds more than it can.
\<close>

definition hub_ok :: "'m live \<Rightarrow> bool" where
  "hub_ok s \<longleftrightarrow>
     (\<forall>ev. distinct (room ev (hub s)) \<and> rooms (hub s) ev \<noteq> Some []) \<and>
     (\<forall>ev c. c \<in> set (room ev (hub s)) \<longleftrightarrow> (\<exists>k. conns s c = Some k \<and> cn_event k = ev)) \<and>
     (\<forall>c. length (chans (hub s) c) \<le> capacity)"

lemmas hub_ok_defs = hub_ok_def room_add room_remove no_empty_room

lemma hub_ok_conn:
  assumes "hub_ok s" and "conns s c = Some k" and "cn_event k' = cn_event k"
  shows "hub_ok (s\<lparr>conns := (conns s)(c \<mapsto> k')\<rparr>)"
  using assms by (auto simp: hub_ok_def)

lemma hub_ok_take: "hub_ok s \<Longrightarrow> hub_ok (take_message c s)"
  by (simp add: hub_ok_def take_message_def) (meson diff_le_self le_trans)

lemma hub_ok_leave: "hub_ok s \<Longrightarrow> conns s c = Some k \<Longrightarrow> hub_ok (leave c k s)"
  by (auto simp: hub_ok_defs leave_def distinct_removeAll)

lemma conns_take [simp]: "conns (take_message c s) = conns s"
  by (simp add: take_message_def)

lemma step_ok: "step s l s' \<Longrightarrow> hub_ok s \<Longrightarrow> hub_ok s'"
proof (induction rule: step.induct)
  case (Connect s c ev)
  then show ?case by (auto simp: hub_ok_defs open_conn_def)
next
  case (Send s ev m)
  then show ?case by (auto simp: hub_ok_defs chans_Broadcast)
next
  case (Write s c k m ms)
  then show ?case
    using hub_ok_conn [OF hub_ok_take, of s c c k "k\<lparr>cn_out := cn_out k @ [m]\<rparr>"] by simp
next
  case (WriteFails s c k m ms)
  then show ?case by (simp add: hub_ok_leave hub_ok_take)
next
  case (Closed s c k)
  then show ?case by (simp add: hub_ok_conn)
next
  case (Return s c k)
  then show ?case by (simp add: hub_ok_leave)
qed

lemma steps_ok: "steps s ls s' \<Longrightarrow> hub_ok s \<Longrightarrow> hub_ok s'"
  by (induction rule: steps.induct) (auto intro: step_ok)

lemma hub_ok_quiet: "hub_ok quiet_server"
  by (simp add: hub_ok_def quiet_server_def NewHub_def room_def)

text \<open>The hub forgets an event when its last client has left.\<close>

lemma nobody_no_room: "steps quiet_server ls s \<Longrightarrow> conns s = (\<lambda>_. None) \<Longrightarrow> rooms (hub s) = (\<lambda>_. None)"
proof
  fix ev
  assume "steps quiet_server ls s" and none: "conns s = (\<lambda>_. None)"
  then have ok: "hub_ok s" using steps_ok hub_ok_quiet by blast
  then have "room ev (hub s) = []" using none unfolding hub_ok_def by (metis option.discI equals0I set_empty)
  moreover have "rooms (hub s) ev \<noteq> Some []" using ok by (simp add: hub_ok_def)
  ultimately show "rooms (hub s) ev = None" by (auto simp: room_def split: option.splits)
qed

subsection \<open>What a client hears\<close>

text \<open>
  The abstract view of one client, by itself: what it has been sent, and a mailbox of limited size.
  A message to its event is put into the mailbox if there is room, and lost if there is not; the
  browser is sent the oldest message.
\<close>

fun mail_step :: "nat \<Rightarrow> string \<Rightarrow> 'm move \<Rightarrow> 'm list \<times> 'm list \<Rightarrow> 'm list \<times> 'm list" where
  "mail_step c ev (Send e m) (out, q) = (out, if e = ev \<and> length q < capacity then q @ [m] else q)"
| "mail_step c ev (Write c') (out, q) = (if c' = c then (out @ take 1 q, tl q) else (out, q))"
| "mail_step c ev l mail = mail"

definition mail :: "nat \<Rightarrow> 'm live \<Rightarrow> 'm list \<times> 'm list" where
  "mail c s = (case conns s c of None \<Rightarrow> [] | Some k \<Rightarrow> cn_out k, chans (hub s) c)"

lemma stays_closed:
  "steps s ls s' \<Longrightarrow> \<forall>ev. Connect c ev \<notin> set ls \<Longrightarrow> conns s c = None \<Longrightarrow> conns s' c = None"
proof (induction rule: steps.induct)
  case (More s l s1 ls s')
  then have "conns s1 c = None"
    by (cases l) (auto simp: open_conn_def leave_def take_message_def split: if_splits)
  with More show ?case by auto
qed simp

lemma step_mail:
  assumes "step s l s'" and "hub_ok s" and "conns s c = Some k" and "conns s' c = Some k'"
    and "\<forall>ev. l \<noteq> Connect c ev"
  shows "cn_event k' = cn_event k \<and> mail c s' = mail_step c (cn_event k) l (mail c s)"
proof (cases l)
  case (Send ev m)
  moreover have "c \<in> set (room ev (hub s)) \<longleftrightarrow> ev = cn_event k" using assms(2,3) by (auto simp: hub_ok_def)
  moreover have "distinct (room ev (hub s))" using assms(2) by (simp add: hub_ok_def)
  ultimately show ?thesis using assms(1,3,4) by (auto simp: mail_def chans_Broadcast)
qed (use assms in \<open>auto simp: mail_def open_conn_def take_message_def leave_def split: if_splits\<close>)

lemma steps_mail:
  assumes "steps s ls s'" and "hub_ok s" and "conns s c = Some k" and "conns s' c = Some k'"
    and "\<forall>ev. Connect c ev \<notin> set ls"
  shows "cn_event k' = cn_event k \<and> mail c s' = fold (mail_step c (cn_event k)) ls (mail c s)"
  using assms
proof (induction arbitrary: k rule: steps.induct)
  case (More s l s1 ls s')
  have ok: "hub_ok s1" using More.hyps(1) More.prems(1) by (rule step_ok)
  obtain k1 where k1: "conns s1 c = Some k1"
    using stays_closed [OF More.hyps(2)] More.prems(3,4) by (cases "conns s1 c") auto
  have "cn_event k1 = cn_event k \<and> mail c s1 = mail_step c (cn_event k) l (mail c s)"
    by (rule step_mail [OF More.hyps(1) More.prems(1,2) k1]) (use More.prems(4) in auto)
  with More.IH [OF ok k1 More.prems(3)] More.prems(4) show ?case by simp
qed simp

text \<open>
  C38. The hub is one mailbox per client. Take any run of the hub from when it is empty: connections
  come and go, messages are sent to any events, pumps write and fail. A client that is connected all
  along, from its request for the event \<open>ev\<close> on, has been sent what the mailbox of this client alone
  would have given out, and what waits in its channel is what waits in that mailbox: other clients and
  other events have no part in it.
\<close>

theorem hub_refines_mailbox:
  assumes "steps quiet_server before s" and "step s (Connect c ev) s1" and "steps s1 ls s'"
    and "conns s' c = Some k" and "\<forall>e. Connect c e \<notin> set ls"
  shows "cn_event k = ev \<and> (cn_out k, chans (hub s') c) = fold (mail_step c ev) ls ([], [])"
proof -
  have ok: "hub_ok s1" using steps_ok [OF assms(1) hub_ok_quiet] step_ok [OF assms(2)] by blast
  have c: "conns s1 c = Some \<lparr>cn_event = ev, cn_out = [], cn_done = False\<rparr>" "mail c s1 = ([], [])"
    using assms(2) by (auto simp: open_conn_def mail_def)
  from steps_mail [OF assms(3) ok c(1) assms(4,5)] show ?thesis
    using assms(4) c(2) by (simp add: mail_def)
qed

text \<open>The messages sent to an event, and whether a client takes them out as fast as they come.\<close>

fun told :: "string \<Rightarrow> 'm move list \<Rightarrow> 'm list" where
  "told ev [] = []"
| "told ev (Send e m # ls) = (if e = ev then m # told ev ls else told ev ls)"
| "told ev (l # ls) = told ev ls"

fun keeps_up :: "nat \<Rightarrow> string \<Rightarrow> nat \<Rightarrow> 'm move list \<Rightarrow> bool" where
  "keeps_up c ev n [] = True"
| "keeps_up c ev n (Send e m # ls) =
     (if e = ev then n < capacity \<and> keeps_up c ev (n + 1) ls else keeps_up c ev n ls)"
| "keeps_up c ev n (Write c' # ls) = keeps_up c ev (if c' = c then n - 1 else n) ls"
| "keeps_up c ev n (l # ls) = keeps_up c ev n ls"

lemma mailbox_hears:
  assumes "fold (mail_step c ev) ls (out, q) = (out', q')" and "length q \<le> capacity"
  shows "\<exists>heard. out' @ q' = out @ q @ heard \<and> subseq heard (told ev ls) \<and>
    (heard = told ev ls \<longleftrightarrow> keeps_up c ev (length q) ls) \<and> length q' \<le> capacity"
  using assms
proof (induction ls arbitrary: out q)
  case (Cons l ls)
  show ?case
  proof (cases l)
    case (Send e m)
    show ?thesis
    proof (cases "e = ev \<and> length q < capacity")
      case True
      with Send Cons.prems Cons.IH [of out "q @ [m]"] obtain heard where "out' @ q' = out @ q @ m # heard"
        "subseq heard (told ev ls)" "heard = told ev ls \<longleftrightarrow> keeps_up c ev (length q + 1) ls" "length q' \<le> capacity"
        by auto
      with True Send show ?thesis by (intro exI [of _ "m # heard"]) auto
    next
      case False
      with Send Cons.prems Cons.IH [of out q] obtain heard where h: "out' @ q' = out @ q @ heard"
        "subseq heard (told ev ls)" "heard = told ev ls \<longleftrightarrow> keeps_up c ev (length q) ls" "length q' \<le> capacity"
        by auto
      then have "heard \<noteq> m # told ev ls" by (auto dest: list_emb_length)
      with h False Send show ?thesis by (intro exI [of _ heard]) auto
    qed
  next
    case (Write c')
    then show ?thesis
      using Cons.IH [of "if c' = c then out @ take 1 q else out" "if c' = c then tl q else q"] Cons.prems
      by (cases q) (auto split: if_splits)
  qed (use Cons in auto)
qed auto

text \<open>
  C39. What a browser hears. A client that is connected from its request for an event on has been sent,
  in the order they were sent to the event and each at most once, messages to its event and no others;
  at most 32 more wait for it; and none was dropped exactly if, whenever one was sent, fewer than 32
  were waiting for this client.
\<close>

theorem client_hears:
  assumes "steps quiet_server before s" and "step s (Connect c ev) s1" and "steps s1 ls s'"
    and "conns s' c = Some k" and "\<forall>e. Connect c e \<notin> set ls"
  shows "subseq (cn_out k @ chans (hub s') c) (told ev ls) \<and> length (chans (hub s') c) \<le> 32 \<and>
    (cn_out k @ chans (hub s') c = told ev ls \<longleftrightarrow> keeps_up c ev 0 ls)"
proof -
  have ok: "hub_ok s1" using steps_ok [OF assms(1) hub_ok_quiet] step_ok [OF assms(2)] by blast
  have c: "conns s1 c = Some \<lparr>cn_event = ev, cn_out = [], cn_done = False\<rparr>" "mail c s1 = ([], [])"
    using assms(2) by (auto simp: open_conn_def mail_def)
  from steps_mail [OF assms(3) ok c(1) assms(4,5)]
  have "fold (mail_step c ev) ls ([], []) = (cn_out k, chans (hub s') c)"
    using assms(4) c(2) by (simp add: mail_def)
  from mailbox_hears [OF this] show ?thesis by (simp add: capacity_def)
qed

subsection \<open>Witnesses\<close>

definition demo_moves :: "nat move list" where
  "demo_moves = [Send ''e'' 10, Send ''x'' 11, Write 7, Send ''e'' 12]"

lemma demo_moves_run:
  "\<exists>s' k. steps (open_conn 7 ''e'' quiet_server) demo_moves s' \<and> conns s' 7 = Some k \<and> cn_out k = [10] \<and>
     chans (hub s') 7 = [12]"
  by (simp add: demo_moves_def open_conn_def quiet_server_def NewHub_def add_def room_def Broadcast_def offer_def
      capacity_def take_message_def)

theorem hub_refines_mailbox_witness:
  "\<exists>s' k. steps (open_conn 7 ''e'' quiet_server) demo_moves s' \<and> conns s' 7 = Some k \<and>
     (cn_out k, chans (hub s') 7) = fold (mail_step 7 ''e'') demo_moves ([], [])"
proof -
  obtain s' k where run: "steps (open_conn 7 ''e'' quiet_server) demo_moves s'" "conns s' 7 = Some k"
    using demo_moves_run by blast
  have start: "step (quiet_server :: nat live) (Connect 7 ''e'') (open_conn 7 ''e'' quiet_server)"
    by (simp add: quiet_server_def)
  show ?thesis
    using run hub_refines_mailbox [OF steps.None start run] by (auto simp: demo_moves_def)
qed

theorem client_hears_witness:
  "\<exists>s' k. steps (open_conn 7 ''e'' quiet_server) demo_moves s' \<and> conns s' 7 = Some k \<and>
     cn_out k @ chans (hub s') 7 = [10, 12]"
proof -
  obtain s' k where run: "steps (open_conn 7 ''e'' quiet_server) demo_moves s'" "conns s' 7 = Some k"
    using demo_moves_run by blast
  have start: "step (quiet_server :: nat live) (Connect 7 ''e'') (open_conn 7 ''e'' quiet_server)"
    by (simp add: quiet_server_def)
  have "keeps_up 7 ''e'' 0 demo_moves" "told ''e'' demo_moves = [10, 12]"
    by (simp_all add: demo_moves_def capacity_def)
  then show ?thesis
    using run client_hears [OF steps.None start run] by (auto simp: demo_moves_def)
qed

end
