(* ===== verification/Router.thy ===== *)
theory Router
  imports Plugin_Api Challenge_Api Boards Event_Api Reimport Library_Api Instances Hub
begin

text \<open>
  The routes and their guards: \<open>Router\<close> of \<open>internal/httpserver/server.go\<close>. A request is one of
  the routes with its path parameters, query and body; serving it resolves the session, applies the
  guard of its group and runs the handler. What is kept of the answer is its status.
\<close>

subsection \<open>The routes\<close>

type_synonym body = "json option"

text \<open>Public: strings are, in order, the path parameters and the query parameters.\<close>

datatype public_request =
    Index_R | Health_R | Ws_R string
  | Register_R body | Login_R body | Logout_R | Me_R
  | Events_R | Event_R string
  | Scoreboard_R string string "string option" \<comment> \<open>event, limit, what the cache holds\<close>
  | Series_R string string
  | Challenges_R string | Challenge_R string string | File_R string string string
  | Blocks_R string | Notifications_R string

datatype player_request =
    CreateTeam_R body | JoinTeam_R body | MyTeam_R | EventTeams_R string | MyStatus_R string
  | Submit_R string string body string \<comment> \<open>event, challenge, body, remote address\<close>
  | Attempts_R string string
  | CreateInstance_R string string | GetInstance_R string string
  | ExtendInstance_R string string | DestroyInstance_R string string

datatype admin_request =
    CreateEvent_R body | EventState_R string body
  | CreateChallenge_R string body | ChallengeState_R string string body
  | CreateLibrary_R body | Library_R string | LibraryChallenge_R string | Revisions_R string
  | NewRevision_R string body | Clone_R string body
  | CreateBlock_R string body | Embed_R string body | Bulk_R string body | BulkUndo_R string
  | CreateView_R string body | Views_R string
  | ChallengeSchedule_R string string body | ChallengeUnlock_R string string body
  | BlockSchedule_R string body | InstanceSpec_R string body
  | Export_R string string | Import_R string string string body \<comment> \<open>event, dry_run, format, body\<close>
  | RegisterPlugin_R body | Plugins_R
  | OrgTeams_R | AssignTeam_R string body | UnassignTeam_R string string
  | CreateNotification_R string body | Submissions_R string string | Stats_R string

datatype plugin_request =
    Award_R body | DeleteAward_R string string | PluginTeams_R string | Announce_R body | Config_R

datatype request =
    Public public_request
  | Player player_request
  | Admin admin_request
  | Plugin plugin_request

definition code_of :: "(world, 'a reply) action \<Rightarrow> (world, nat) action" where
  "code_of m = do { r \<leftarrow> m; ret (status r) }"

definition Ping :: "(world, sql_error + unit) action" where
  "Ping = db_call (query (\<lambda>_. ()))"

definition handleHealth :: "(world, string reply) action" where
  "handleHealth = do {
     r \<leftarrow> Ping;
     ret (case r of Inl _ \<Rightarrow> Reply 503 ''degraded'' | Inr _ \<Rightarrow> Reply 200 ''ok'')
   }"

text \<open>An accepted WebSocket switches protocols; what happens on it then is in \<open>Hub\<close>.\<close>

definition ws_status :: "string \<Rightarrow> nat" where
  "ws_status eventID = (case handleWS eventID 0 :: unit move option of None \<Rightarrow> 400 | Some _ \<Rightarrow> 101)"

definition handleIndex :: "(world, unit reply) action" where
  "handleIndex = ret (Reply 200 ())"

fun serve_public ::
  "platform \<Rightarrow> id_key \<Rightarrow> server \<Rightarrow> string option \<Rightarrow> user option \<Rightarrow> public_request \<Rightarrow> (world, nat) action"
where
  "serve_public P K srv c u Index_R = code_of handleIndex"
| "serve_public P K srv c u Health_R = code_of handleHealth"
| "serve_public P K srv c u (Ws_R ev) = ret (ws_status ev)"
| "serve_public P K srv c u (Register_R b) = code_of (handleRegister P K srv b)"
| "serve_public P K srv c u (Login_R b) = code_of (handleLogin P K srv b)"
| "serve_public P K srv c u Logout_R = code_of (handleLogout P c)"
| "serve_public P K srv c u Me_R = code_of (handleMe u)"
| "serve_public P K srv c u Events_R = code_of (handleListEvents u)"
| "serve_public P K srv c u (Event_R ev) = code_of (handleGetEvent ev)"
| "serve_public P K srv c u (Scoreboard_R ev limit cached) = code_of (handleScoreboard srv ev limit cached)"
| "serve_public P K srv c u (Series_R ev best) = code_of (handleScoreboardSeries ev best)"
| "serve_public P K srv c u (Challenges_R ev) = code_of (handleListChallenges P u ev)"
| "serve_public P K srv c u (Challenge_R ev ec) = code_of (handleGetChallenge u ec)"
| "serve_public P K srv c u (File_R ev ec f) = code_of (handleDownloadFile u ev ec f)"
| "serve_public P K srv c u (Blocks_R ev) = code_of (handleListBlocks ev)"
| "serve_public P K srv c u (Notifications_R ev) = code_of (handleListNotifications ev)"

fun serve_player :: "platform \<Rightarrow> server \<Rightarrow> user \<Rightarrow> player_request \<Rightarrow> (world, nat) action" where
  "serve_player P srv u (CreateTeam_R b) = code_of (handleCreateTeam u b)"
| "serve_player P srv u (JoinTeam_R b) = code_of (handleJoinTeam u b)"
| "serve_player P srv u MyTeam_R = code_of (handleMyTeam u)"
| "serve_player P srv u (EventTeams_R ev) = code_of (handleListTeams ev)"
| "serve_player P srv u (MyStatus_R ev) = code_of (handleMyStatus u ev)"
| "serve_player P srv u (Submit_R ev ec b addr) = code_of (handleSubmit P srv u ev ec b addr)"
| "serve_player P srv u (Attempts_R ev ec) = code_of (handleMyAttempts u ev ec)"
| "serve_player P srv u (CreateInstance_R ev ec) = code_of (handleCreateInstance P srv u ev ec)"
| "serve_player P srv u (GetInstance_R ev ec) = code_of (handleGetInstance P srv u ev ec)"
| "serve_player P srv u (ExtendInstance_R ev ec) = code_of (handleExtendInstance P srv u ev ec)"
| "serve_player P srv u (DestroyInstance_R ev ec) = code_of (handleDestroyInstance u ev ec)"

fun serve_admin :: "platform \<Rightarrow> server \<Rightarrow> user \<Rightarrow> admin_request \<Rightarrow> (world, nat) action" where
  "serve_admin P srv u (CreateEvent_R b) = code_of (handleCreateEvent u b)"
| "serve_admin P srv u (EventState_R ev b) = code_of (handleSetEventState srv ev b)"
| "serve_admin P srv u (CreateChallenge_R ev b) = code_of (handleCreateChallenge P ev b)"
| "serve_admin P srv u (ChallengeState_R ev ec b) = code_of (handleSetChallengeState srv ev ec b)"
| "serve_admin P srv u (CreateLibrary_R b) = code_of (handleCreateLibraryChallenge P u b)"
| "serve_admin P srv u (Library_R tag) = code_of (handleListLibrary u tag)"
| "serve_admin P srv u (LibraryChallenge_R cid) = code_of (handleGetLibraryChallenge cid)"
| "serve_admin P srv u (Revisions_R cid) = code_of (handleListRevisions cid)"
| "serve_admin P srv u (NewRevision_R cid b) = code_of (handleNewRevision P u cid b)"
| "serve_admin P srv u (Clone_R cid b) = code_of (handleCloneChallenge u cid b)"
| "serve_admin P srv u (CreateBlock_R ev b) = code_of (handleCreateBlock ev b)"
| "serve_admin P srv u (Embed_R ev b) = code_of (handleEmbed ev b)"
| "serve_admin P srv u (Bulk_R ev b) = code_of (handleBulk srv u ev b)"
| "serve_admin P srv u (BulkUndo_R job) = code_of (handleBulkUndo job)"
| "serve_admin P srv u (CreateView_R ev b) = code_of (handleCreateSavedView u ev b)"
| "serve_admin P srv u (Views_R ev) = code_of (handleListSavedViews u ev)"
| "serve_admin P srv u (ChallengeSchedule_R ev ec b) = code_of (handleSetChallengeSchedule srv ev ec b)"
| "serve_admin P srv u (ChallengeUnlock_R ev ec b) = code_of (handleSetChallengeUnlock srv ev ec b)"
| "serve_admin P srv u (BlockSchedule_R k b) = code_of (handleSetBlockSchedule k b)"
| "serve_admin P srv u (InstanceSpec_R ec b) = code_of (handleSetInstanceSpec ec b)"
| "serve_admin P srv u (Export_R ev fs) = code_of (handleExport ev fs)"
| "serve_admin P srv u (Import_R ev dry format b) = code_of (handleImport P srv ev dry format b)"
| "serve_admin P srv u (RegisterPlugin_R b) = code_of (handleRegisterPlugin P b)"
| "serve_admin P srv u Plugins_R = code_of handleListPlugins"
| "serve_admin P srv u OrgTeams_R = code_of (handleListOrgTeams u)"
| "serve_admin P srv u (AssignTeam_R ev b) = code_of (handleAssignEventTeam srv ev b)"
| "serve_admin P srv u (UnassignTeam_R ev tm) = code_of (handleUnassignEventTeam srv ev tm)"
| "serve_admin P srv u (CreateNotification_R ev b) = code_of (handleCreateNotification srv ev b)"
| "serve_admin P srv u (Submissions_R ev limit) = code_of (handleListSubmissions ev limit)"
| "serve_admin P srv u (Stats_R ev) = code_of (handleStats ev)"

fun serve_plugin :: "server \<Rightarrow> plugin \<Rightarrow> plugin_request \<Rightarrow> (world, nat) action" where
  "serve_plugin srv p (Award_R b) = code_of (handlePluginAward srv p b)"
| "serve_plugin srv p (DeleteAward_R ev r) = code_of (handleDeletePluginAward srv p ev r)"
| "serve_plugin srv p (PluginTeams_R ev) = code_of (handlePluginTeams ev)"
| "serve_plugin srv p (Announce_R b) = code_of (handlePluginAnnounce srv p b)"
| "serve_plugin srv p Config_R = code_of (handlePluginConfig p)"

text \<open>
  A request comes with the value of its session cookie and its \<open>Authorization\<close> header (empty when
  there is none). The guards take a handler that answers a reply; here it answers a status.
\<close>

definition serve ::
  "platform \<Rightarrow> id_key \<Rightarrow> server \<Rightarrow> string option \<Rightarrow> string \<Rightarrow> request \<Rightarrow> (world, nat) action"
where
  "serve P K srv c header rq = do {
     u \<leftarrow> sessionMiddleware P c;
     (case rq of
        Public r \<Rightarrow> serve_public P K srv c u r
      | Player r \<Rightarrow> code_of (requireAuth u (\<lambda>us. do { n \<leftarrow> serve_player P srv us r; ret (Reply n ()) }))
      | Admin r \<Rightarrow> code_of (requireAuth u (\<lambda>us. requireAdmin u (do { n \<leftarrow> serve_admin P srv us r; ret (Reply n ()) })))
      | Plugin r \<Rightarrow> code_of (pluginAuth P header (\<lambda>p. do { n \<leftarrow> serve_plugin srv p r; ret (Reply n ()) })))
   }"

subsection \<open>The guards\<close>

text \<open>The user a cookie stands for, and who may use which route.\<close>

definition caller_of :: "platform \<Rightarrow> database \<Rightarrow> instant \<Rightarrow> string option \<Rightarrow> user option" where
  "caller_of P d now c =
     (case c of None \<Rightarrow> None | Some tok \<Rightarrow> if tok = [] then None else session_user now (HashToken P tok) d)"

definition entitled ::
  "platform \<Rightarrow> database \<Rightarrow> instant \<Rightarrow> string option \<Rightarrow> string \<Rightarrow> request \<Rightarrow> bool"
where
  "entitled P d now c header rq =
     (case rq of
        Public _ \<Rightarrow> True
      | Player _ \<Rightarrow> caller_of P d now c \<noteq> None
      | Admin _ \<Rightarrow> is_admin (caller_of P d now c)
      | Plugin _ \<Rightarrow> list_ex (\<lambda>p. Some (p_token p) = map_option (HashToken P) (bearer header)) (plugins d))"

lemma wp_SessionUser:
  assumes "\<And>r w'. undisturbed w w' \<Longrightarrow>
      (\<And>u. r = Inr u \<Longrightarrow> session_user (clock w 0) h (db w) = Some u) \<Longrightarrow> Q r w'"
  shows "wp (SessionUser h) Q w"
  unfolding SessionUser_def wp_bind
  by (rule wp_db_call) (auto intro!: assms simp: row_or_not_found_def split: option.splits)

lemma wp_sessionMiddleware:
  assumes "\<And>u w'. undisturbed w w' \<Longrightarrow> u = None \<or> u = caller_of P (db w) (clock w 0) c \<Longrightarrow> Q u w'"
  shows "wp (sessionMiddleware P c) Q w"
proof (cases "c = None \<or> c = Some []")
  case True
  then show ?thesis using assms [of w None] by (auto simp: sessionMiddleware_def)
next
  case False
  then obtain tok where c: "c = Some tok" "tok \<noteq> []" by auto
  then show ?thesis
    unfolding sessionMiddleware_def using False
    by (simp only: if_False wp_bind) (auto intro!: wp_SessionUser assms simp: caller_of_def split: sum.split)
qed

lemma wp_PluginByToken:
  assumes "\<And>r w'. undisturbed w w' \<Longrightarrow>
      (\<And>p. r = Inr p \<Longrightarrow> p \<in> set (plugins (db w)) \<and> p_token p = h) \<Longrightarrow> Q r w'"
  shows "wp (PluginByToken h) Q w"
  unfolding PluginByToken_def wp_bind
  by (rule wp_query) (auto intro!: assms simp: row_or_not_found_def dest: find_SomeD split: option.splits)

text \<open>
  C37. No route is open to those it is not meant for. A request to a player's route without a session,
  to an admin's route by anybody but an admin or owner, or to the plugin routes without the token of a
  registered plugin is answered with 401, or with 403 on an admin's route, and changes neither the
  database nor the limiter, and nothing is sent out: whatever the request contains and whatever fails.
\<close>

theorem guarded_routes:
  assumes "\<not> entitled P (db w) (clock w 0) c header rq"
    and "run_state (serve P K srv c header rq) w = (code, w')"
  shows "(code = 401 \<or> code = 403 \<and> (\<exists>r. rq = Admin r)) \<and>
    db w' = db w \<and> limits w' = limits w \<and> outbox w' = outbox w"
proof -
  let ?Q = "\<lambda>code w'. (code = 401 \<or> code = 403 \<and> (\<exists>r. rq = Admin r)) \<and> undisturbed w w'"
  have "wp (serve P K srv c header rq) ?Q w"
    unfolding serve_def wp_bind
  proof (rule wp_sessionMiddleware)
    fix u w1
    assume w1: "undisturbed w w1" and u: "u = None \<or> u = caller_of P (db w) (clock w 0) c"
    show "wp (case rq of
        Public r \<Rightarrow> serve_public P K srv c u r
      | Player r \<Rightarrow> code_of (requireAuth u (\<lambda>us. do { n \<leftarrow> serve_player P srv us r; ret (Reply n ()) }))
      | Admin r \<Rightarrow> code_of (requireAuth u (\<lambda>us. requireAdmin u (do { n \<leftarrow> serve_admin P srv us r; ret (Reply n ()) })))
      | Plugin r \<Rightarrow> code_of (pluginAuth P header (\<lambda>p. do { n \<leftarrow> serve_plugin srv p r; ret (Reply n ()) }))) ?Q w1"
    proof (cases rq)
      case (Plugin r)
      have none: "p_token p \<noteq> HashToken P tok" if "p \<in> set (plugins (db w1))" "bearer header = Some tok" for p tok
        using assms(1) that undisturbedD(1) [OF w1] by (auto simp: entitled_def Plugin list_ex_iff)
      show ?thesis
        using w1 none
        by (auto simp: Plugin code_of_def pluginAuth_def split: option.split
            intro!: wp_PluginByToken wp_sum intro: undisturbed_trans)
    qed (use assms(1) u w1 in \<open>auto simp: entitled_def code_of_def requireAuth_def requireAdmin_def is_admin_def split: option.splits\<close>)
  qed
  from wpD [OF this assms(2)] show ?thesis by (simp add: undisturbed_def)
qed

definition player_undo :: "(world, nat) action" where
  "player_undo = serve demo_platform (\<lambda>_ _ _ _ _ _. []) demo_server (Some ''token'') [] (Admin (BulkUndo_R ''j''))"

text \<open>A player who is logged in asks to undo a bulk job.\<close>

theorem guarded_routes_witness:
  "fst (run_state player_undo session_world) = 403 \<and> db (snd (run_state player_undo session_world)) = db session_world"
proof -
  have "\<not> entitled demo_platform (db session_world) (clock session_world 0) (Some ''token'') [] (Admin (BulkUndo_R ''j''))"
    by (simp add: entitled_def caller_of_def session_user_def session_world_def demo_defs is_admin_def)
  from guarded_routes [OF this prod.collapse [symmetric]] show ?thesis
    by (simp add: player_undo_def serve_def sessionMiddleware_def SessionUser_def requireAuth_def requireAdmin_def
        code_of_def session_user_def session_world_def demo_defs is_admin_def minute_def second_def
        run_simps call_defs row_or_not_found_def)
qed

end
