(* ===== verification/Sound_Store.thy ===== *)
theory Sound_Store
  imports Invariants Router
begin

text \<open>
  What every operation of the store keeps: the books balance, no team solves a challenge twice,
  the instances are in order, and the revisions are numbered without a gap and never rewritten. Most
  operations leave the tables behind these invariants alone; the others are taken one by one.
\<close>

subsection \<open>The invariant\<close>

definition solves_unique :: "database \<Rightarrow> bool" where
  "solves_unique d \<longleftrightarrow> distinct (map (\<lambda>s. (sb_ec s, sb_team s)) (filter sb_correct (submissions d)))"

definition sound :: "revision list \<Rightarrow> database \<Rightarrow> bool" where
  "sound rs d \<longleftrightarrow> books d \<and> solves_unique d \<and> instances_ok d \<and> revs_ok d \<and> prefix rs (revisions d)"

text \<open>
  A score event of the core refers to a challenge. The ids to come are unused if no score event
  refers to one of them, as there may be with the id of a challenge that was deleted.
\<close>

definition refers :: "score_event \<Rightarrow> uuid \<Rightarrow> bool" where
  "refers s ec \<longleftrightarrow> se_source s = ''core'' \<and>
     (\<exists>x. uuid_in x = Some ec \<and> ((\<exists>t. se_ref s = ''solve:'' @ x @ '':'' @ t) \<or> se_ref s = ''firstblood:'' @ x))"

definition unused :: "uuid set \<Rightarrow> database \<Rightarrow> bool" where
  "unused U d \<longleftrightarrow> (\<forall>s \<in> set (score_events d). \<forall>ec. refers s ec \<longrightarrow> ec \<notin> U)"

interpretation sound_db: db_invariant "\<lambda>U. sound rs" for rs
  by unfold_locales

subsection \<open>Operations on other tables\<close>

definition core_rows :: "database \<Rightarrow> score_event list \<times> entry list \<times> submission list \<times> running list \<times>
    lib_challenge list \<times> revision list \<times> uuid set" where
  "core_rows d = (score_events d, board d, submissions d, instances d, library d, revisions d,
     c_id ` set (challenges d))"

abbreviation framed :: "(world, 'a) action \<Rightarrow> bool" where
  "framed \<equiv> frames core_rows"

abbreviation framed_stmt :: "'a stmt \<Rightarrow> bool" where
  "framed_stmt \<equiv> frames_stmt core_rows"

lemma sound_core:
  assumes "core_rows d' = core_rows d" and "sound rs d"
  shows "sound rs d'"
proof -
  have "books d'"
    by (rule books_same [of d]) (use assms in \<open>auto simp: core_rows_def sound_def\<close>)
  moreover have "revs_ok d'"
    by (rule revs_ok_same [of d]) (use assms in \<open>auto simp: core_rows_def sound_def\<close>)
  ultimately show ?thesis
    using assms instances_ok_other [of d' d] by (auto simp: core_rows_def sound_def solves_unique_def)
qed

lemma unused_core: "core_rows d' = core_rows d \<Longrightarrow> unused U d \<Longrightarrow> unused U d'"
  by (simp add: core_rows_def unused_def)

lemma framed_sound: "framed m \<Longrightarrow> preserves (\<lambda>U. sound rs) m"
  by (erule frames_preserves) (rule sound_core)

named_theorems framed_intros \<open>code that leaves the core tables alone\<close>

declare frames_ret [framed_intros]

lemma core_update_where:
  "(\<And>c. c_id (f c) = c_id c) \<Longrightarrow> c_id ` set (update_where P f cs) = c_id ` set cs"
  by (metis list.set_map map_update_where)

lemma framed_update_challenge:
  assumes "\<And>c. c_id (f c) = c_id c"
  shows "framed_stmt (update_challenge ecID f)"
  by (rule frames_stmtI) (clarsimp simp: update_challenge_def core_rows_def core_update_where [OF assms])

lemma framed_accounts [framed_intros]:
  "framed (CreateUser orgID email name hash role)"
  "framed (CreateSession token userID t)"
  "framed (DeleteSession token)"
  "framed (RegisterPlugin pid name url secret token caps subs)"
  unfolding CreateUser_def CreateSession_def DeleteSession_def RegisterPlugin_def Let_def
  by (intro frames_rules; auto simp: insert_user_def core_rows_def Let_def)+

lemma framed_events [framed_intros]:
  "framed (CreateEvent orgID slug name s e fr bonus)"
  "framed (SetEventState eventID st)"
  "framed (CreateNotification eventID title content)"
  "framed (CreateBlock eventID name pos color sched rule)"
  "framed (CreateSavedView eventID userID name flt)"
  "framed (SetBlockSchedule blockID sched)"
  unfolding CreateEvent_def SetEventState_def CreateNotification_def CreateBlock_def CreateSavedView_def
    SetBlockSchedule_def
  by (intro frames_rules; auto simp: core_rows_def Let_def split: option.splits)+

lemma framed_teams [framed_intros]:
  "framed (CreateTeam orgID name code)"
  "framed (AddTeamMember userID teamID role)"
  "framed (AssignEventTeam eventID teamID)"
  "framed (UnassignEventTeam eventID teamID)"
  unfolding CreateTeam_def AddTeamMember_def AssignEventTeam_def UnassignEventTeam_def
  by (intro frames_rules; auto simp: core_rows_def Let_def split: if_splits)+

lemma framed_challenges [framed_intros]:
  "framed (SetChallengeState ecID st)"
  "framed (SetChallengeSchedule ecID sched)"
  "framed (SetChallengeUnlock ecID rule)"
  "framed (SetInstanceSpec ecID spec)"
  "framed (UpdateChallengeContent ecID cat desc sc st tags)"
  unfolding SetChallengeState_def SetChallengeSchedule_def SetChallengeUnlock_def SetInstanceSpec_def
    UpdateChallengeContent_def
  by (intro frames_bind frames_ret frames_db_call framed_update_challenge; simp)+

lemma framed_insert_flag: "framed_stmt (insert_flag ecID h cs)"
  by (rule frames_stmtI) (auto simp: insert_flag_def core_rows_def)

lemma framed_AddFlag [framed_intros]: "framed (AddFlag ecID h cs)"
  unfolding AddFlag_def by (intro frames_bind frames_ret frames_db_call framed_insert_flag)

lemma framed_insert_hashed: "framed k \<Longrightarrow> framed (insert_hashed now ecID fs k)"
  by (induction now ecID fs k rule: insert_hashed.induct)
     (auto intro!: frames_tx_try framed_insert_flag)

lemma framed_ReplaceFlags [framed_intros]: "framed (ReplaceFlags ecID fs)"
  unfolding ReplaceFlags_def
  by (intro frames_transaction frames_tx_try framed_insert_hashed frames_ret frames_stmtI)
     (auto simp: delete_flags_def core_rows_def)

lemma framed_insert_files: "framed k \<Longrightarrow> framed (insert_files now ecID fs k)"
  by (induction now ecID fs k rule: insert_files.induct)
     (auto intro!: frames_tx_try frames_stmtI simp: insert_file_def core_rows_def)

lemma framed_ReplaceChallengeFiles [framed_intros]: "framed (ReplaceChallengeFiles ecID fs)"
  unfolding ReplaceChallengeFiles_def
  by (intro frames_transaction frames_tx_try framed_insert_files frames_ret frames_stmtI)
     (auto simp: delete_files_def core_rows_def)

lemma framed_restore_row: "framed_stmt (restore_row r)"
  by (rule frames_stmtI)
     (cases "sr_block r"; clarsimp simp: restore_row_def core_rows_def core_update_where cast_uuid_opt_Inr)

lemma framed_restore_rows: "(\<And>n. framed (k n)) \<Longrightarrow> framed (restore_rows now rows n k)"
  by (induction now rows n k rule: restore_rows.induct) (auto intro!: frames_tx_try framed_restore_row)

lemma framed_BulkUndo [framed_intros]: "framed (BulkUndo jobID)"
  unfolding BulkUndo_def if_distrib [of "case_option _ _"]
  by (intro frames_bind frames_db_call frames_sum frames_option frames_prod frames_if frames_ret
      frames_transaction frames_tx_try framed_restore_rows frames_stmtI;
      (auto simp: mark_undone_def core_rows_def)?)

subsection \<open>Statements on the core tables\<close>

text \<open>The parts of the invariant other than the books; and other than the revisions.\<close>

definition rest_ok :: "revision list \<Rightarrow> database \<Rightarrow> bool" where
  "rest_ok rs d \<longleftrightarrow> solves_unique d \<and> instances_ok d \<and> revs_ok d \<and> prefix rs (revisions d)"

definition play_ok :: "database \<Rightarrow> bool" where
  "play_ok d \<longleftrightarrow> books d \<and> solves_unique d \<and> instances_ok d"

lemma sound_books: "sound rs d \<longleftrightarrow> books d \<and> rest_ok rs d"
  by (auto simp: sound_def rest_ok_def)

lemma sound_play: "sound rs d \<longleftrightarrow> play_ok d \<and> revs_ok d \<and> prefix rs (revisions d)"
  by (auto simp: sound_def play_ok_def)

interpretation rest_db: db_invariant "\<lambda>U. rest_ok rs" for rs
  by unfold_locales

interpretation play_db: db_invariant "\<lambda>U. play_ok"
  by unfold_locales

interpretation any_db: db_invariant "\<lambda>U d. True"
  by unfold_locales

lemma rest_ok_other:
  assumes "rest_ok rs d" and "submissions d' = submissions d" and "instances d' = instances d"
    and "library d' = library d" and "revisions d' = revisions d"
  shows "rest_ok rs d'"
  using assms instances_ok_other [of d' d] revs_ok_same [of d d'] by (simp add: rest_ok_def solves_unique_def)

lemma rest_keeps_submission: "stmt_keeps (\<lambda>U. rest_ok rs) (insert_submission ev ec tm us h correct ip)"
proof (rule stmt_keepsI)
  fix now u U d a d'
  assume ok: "rest_ok rs d" and "insert_submission ev ec tm us h correct ip now u d = Inr (a, d')"
  then obtain s where d': "d' = d\<lparr>submissions := submissions d @ [s]\<rparr>" and s: "sb_correct s = correct"
    and new: "\<not> (correct \<and> (\<exists>x \<in> set (submissions d). sb_correct x \<and> sb_ec x = sb_ec s \<and> sb_team x = sb_team s))"
    unfolding insert_submission_Inr by (elim exE conjE) (rule that, assumption, simp_all)
  have "solves_unique d'" using ok new s by (auto simp: d' rest_ok_def solves_unique_def)
  moreover have "instances_ok d' = instances_ok d" by (rule instances_ok_other) (simp add: d')
  moreover have "revs_ok d \<Longrightarrow> revs_ok d'" by (erule revs_ok_same) (simp_all add: d')
  ultimately show "rest_ok rs d'" using ok by (simp add: rest_ok_def d')
qed

lemma rest_keeps_score: "stmt_keeps (\<lambda>U. rest_ok rs) (insert_score ev tm kind source ref pts meta)"
  by (rule stmt_keepsI) (auto simp: insert_score_Inr post_score_def intro: rest_ok_other split: if_splits)

lemma rest_keeps_board: "stmt_keeps (\<lambda>U. rest_ok rs) (add_to_board ev tm pts k lst)"
  by (rule stmt_keepsI) (auto simp: add_to_board_Inr upsert_board_def intro: rest_ok_other)

lemma rest_keeps_count: "stmt_keeps (\<lambda>U. rest_ok rs) (count_solvers ec)"
  by (rule stmt_keepsI) (auto simp: count_solvers_Inr)

lemma rest_keeps_delete: "stmt_keeps (\<lambda>U. rest_ok rs) (delete_score ev source ref)"
  by (rule stmt_keepsI) (auto simp: delete_score_Inr drop_score_def intro: rest_ok_other split: option.splits)

lemma rest_keeps_charge: "stmt_keeps (\<lambda>U. rest_ok rs) (charge_stmt s)"
  by (rule stmt_keepsI) (auto simp: charge_stmt_def charge_board_def Let_def intro: rest_ok_other)

lemmas rest_rules = rest_db.transaction rest_db.tx_try rest_keeps_submission rest_keeps_score rest_keeps_board
  rest_keeps_count rest_keeps_delete rest_keeps_charge preserves_ret preserves_if preserves_option preserves_let

text \<open>What ends with the books balanced, with statements in between.\<close>

lemma books_and_rest:
  assumes "\<And>w. books (db w) \<Longrightarrow> wp m (\<lambda>_ w'. books (db w')) w" and "\<And>rs. preserves (\<lambda>U. rest_ok rs) m"
  shows "preserves (\<lambda>U. sound rs) m"
proof (rule preservesI)
  fix w assume w: "holds (\<lambda>U. sound rs) w"
  then have "holds (\<lambda>U. rest_ok rs) w" by (simp add: holds_def sound_books)
  from wp_conj [OF preservesD [OF assms(2) this] assms(1) [of w]] w
  show "wp m (\<lambda>_ w'. ids_left w' \<subseteq> ids_left w \<and> holds (\<lambda>U. sound rs) w') w"
    by (auto simp: holds_def sound_books elim: wp_mono)
qed

named_theorems sound_intros \<open>operations that keep the invariant\<close>

lemma sound_RecordWrong [sound_intros]: "preserves (\<lambda>U. sound rs) (RecordWrong ev ec tm us h ip)"
proof (rule books_and_rest)
  show "preserves (\<lambda>U. rest_ok rs) (RecordWrong ev ec tm us h ip)" for rs
    unfolding RecordWrong_def by (intro preserves_bind preserves_ret rest_db.db_call rest_keeps_submission)
qed (use RecordWrong_books in \<open>simp add: keeps_wp\<close>)

lemma sound_RecordSolve [sound_intros]: "preserves (\<lambda>U. sound rs) (RecordSolve e ec tm us h ip pts)"
proof (rule books_and_rest)
  show "preserves (\<lambda>U. rest_ok rs) (RecordSolve e ec tm us h ip pts)" for rs
    unfolding RecordSolve_def Let_def by (intro rest_rules)
qed (rule wpI, rule solve_keeps_books)

lemma sound_PluginAward:
  assumes "source \<noteq> ''core''"
  shows "preserves (\<lambda>U. sound rs) (PluginAward ev tm source ref pts meta)"
proof (rule books_and_rest)
  show "preserves (\<lambda>U. rest_ok rs) (PluginAward ev tm source ref pts meta)" for rs
    unfolding PluginAward_def Let_def by (intro rest_rules)
qed (rule PluginAward_books [OF _ assms])

lemma sound_DeletePluginAward:
  assumes "source \<noteq> ''core''"
  shows "preserves (\<lambda>U. sound rs) (DeletePluginAward ev source ref)"
proof (rule books_and_rest)
  show "preserves (\<lambda>U. rest_ok rs) (DeletePluginAward ev source ref)" for rs
    unfolding DeletePluginAward_def by (intro rest_rules)
qed (rule DeletePluginAward_books [OF _ assms])

subsection \<open>Instances and the library\<close>

lemma sound_instances:
  assumes "sound rs d" and "instances_ok d'" and "d' = d\<lparr>instances := is\<rparr>"
  shows "sound rs d'"
proof -
  have "books d'" by (rule books_same [of d]) (use assms in \<open>auto simp: sound_def\<close>)
  moreover have "revs_ok d'" by (rule revs_ok_same [of d]) (use assms in \<open>auto simp: sound_def\<close>)
  ultimately show ?thesis using assms by (simp add: sound_def solves_unique_def)
qed

lemma sound_instance_ops [sound_intros]:
  "preserves (\<lambda>U. sound rs) (CreateInstance ec tm host port t)"
  "preserves (\<lambda>U. sound rs) (ExtendInstance ec tm extra 2)"
  "preserves (\<lambda>U. sound rs) (DestroyInstance ec tm)"
proof -
  have "stmt_keeps (\<lambda>U. sound rs) (insert_instance ec tm host port t)"
  proof (rule stmt_keepsI)
    fix now u U d a d'
    assume ok: "sound rs d" and run: "insert_instance ec tm host port t now u d = Inr (a, d')"
    then obtain is' where "d' = d\<lparr>instances := is'\<rparr>" by (auto simp: insert_instance_def Let_def)
    moreover have "instances_ok d'" using ok insert_instance_ok [OF _ run] by (simp add: sound_def)
    ultimately show "sound rs d'" using sound_instances [OF ok] by blast
  qed
  then show "preserves (\<lambda>U. sound rs) (CreateInstance ec tm host port t)"
    unfolding CreateInstance_def by (intro preserves_bind preserves_ret sound_db.db_call)
  have "stmt_keeps (\<lambda>U. sound rs) (extend_stmt ec tm extra 2)"
  proof (rule stmt_keepsI)
    fix now u U d a d'
    assume ok: "sound rs d" and run: "extend_stmt ec tm extra 2 now u d = Inr (a, d')"
    then obtain is' where "d' = d\<lparr>instances := is'\<rparr>" by (auto simp: extend_stmt_def Let_def)
    moreover have "instances_ok d'" using ok extend_ok [OF _ run] by (simp add: sound_def)
    ultimately show "sound rs d'" using sound_instances [OF ok] by blast
  qed
  then show "preserves (\<lambda>U. sound rs) (ExtendInstance ec tm extra 2)"
    unfolding ExtendInstance_def by (intro preserves_bind preserves_ret sound_db.db_call)
  have "sound rs (d\<lparr>instances := update_where (is_running x y) (\<lambda>i. i\<lparr>i_status := ''destroyed''\<rparr>) (instances d)\<rparr>)"
    if "sound rs d" for d x y
    using that by (rule sound_instances) (use that in \<open>simp_all add: sound_def destroy_ok\<close>)
  then show "preserves (\<lambda>U. sound rs) (DestroyInstance ec tm)"
    unfolding DestroyInstance_def by (intro preserves_bind preserves_ret sound_db.db_call stmt_keepsI) auto
qed

lemma play_ok_other:
  assumes "play_ok d" and "d' = d\<lparr>library := ls, revisions := rvs\<rparr>"
  shows "play_ok d'"
proof -
  have "books d'" by (rule books_same [of d]) (use assms in \<open>auto simp: play_ok_def\<close>)
  moreover have "instances_ok d' = instances_ok d" by (rule instances_ok_other) (simp add: assms(2))
  ultimately show ?thesis using assms by (simp add: play_ok_def solves_unique_def)
qed

lemma play_keeps_library: "stmt_keeps (\<lambda>U. play_ok) (insert_library org slug title cat diff author tags)"
proof (rule stmt_keepsI)
  fix now u U d c d'
  assume ok: "play_ok d" and "insert_library org slug title cat diff author tags now u d = Inr (c, d')"
  then have "d' = d\<lparr>library := library d @ [c], revisions := revisions d\<rparr>" by (auto simp: insert_library_Inr)
  with ok show "play_ok d'" by (rule play_ok_other)
qed

lemma play_keeps_revision: "stmt_keeps (\<lambda>U. play_ok) (insert_revision cid rv desc scoring flgs conn creator)"
proof (rule stmt_keepsI)
  fix now u U d and a :: unit and d'
  assume ok: "play_ok d" and run: "insert_revision cid rv desc scoring flgs conn creator now u d = Inr (a, d')"
  obtain lib where "uuid_in cid = Some lib" using insert_revision_cast [OF run] by blast
  from insert_revision_Inr [OF run this] obtain r where "d' = d\<lparr>revisions := revisions d @ [r]\<rparr>" by blast
  then have "d' = d\<lparr>library := library d, revisions := revisions d @ [r]\<rparr>" by simp
  with ok show "play_ok d'" by (rule play_ok_other)
qed

lemma play_keeps_bump: "stmt_keeps (\<lambda>U. play_ok) (bump_rev cid)"
proof (rule stmt_keepsI)
  fix now u U d r d'
  assume ok: "play_ok d" and run: "bump_rev cid now u d = Inr (r, d')"
  have "\<exists>ls. d' = d\<lparr>library := ls, revisions := revisions d\<rparr>"
  proof (cases r)
    case None
    then show ?thesis using run bump_rev_None by (intro exI [of _ "library d"]) simp
  next
    case (Some n)
    with run have "bump_rev cid now u d = Inr (Some n, d')" by simp
    from bump_rev_Inr [OF this] show ?thesis by (elim exE conjE) (rule exI, simp)
  qed
  with ok show "play_ok d'" by (elim exE) (rule play_ok_other)
qed

lemma revs_and_play:
  assumes "\<And>w. wp m (\<lambda>_ w'. revs_grow (db w) (db w')) w" and "preserves (\<lambda>U. play_ok) m"
  shows "preserves (\<lambda>U. sound rs) m"
proof (rule preservesI)
  fix w assume w: "holds (\<lambda>U. sound rs) w"
  then have "holds (\<lambda>U. play_ok) w" by (simp add: holds_def sound_play)
  from wp_conj [OF preservesD [OF assms(2) this] assms(1) [of w]] w
  show "wp m (\<lambda>_ w'. ids_left w' \<subseteq> ids_left w \<and> holds (\<lambda>U. sound rs) w') w"
    by (auto simp: holds_def sound_play revs_grow_def elim: wp_mono dest: prefix_order.trans)
qed

lemma play_CreateLibraryChallenge:
  "preserves (\<lambda>U. play_ok) (CreateLibraryChallenge org slug title cat diff author tags desc scoring flgs conn creator)"
  unfolding CreateLibraryChallenge_def
  by (intro play_db.transaction play_db.tx_try play_keeps_library play_keeps_revision preserves_ret)

lemma sound_library [sound_intros]:
  "preserves (\<lambda>U. sound rs) (CreateLibraryChallenge org slug title cat diff author tags desc scoring flgs conn creator)"
  "preserves (\<lambda>U. sound rs) (NewRevision cid desc scoring flgs conn creator)"
  "preserves (\<lambda>U. sound rs) (CloneChallenge cid slug title creator)"
proof -
  show create: "preserves (\<lambda>U. sound rs)
      (CreateLibraryChallenge org slug title cat diff author tags desc scoring flgs conn creator)" for org slug title
      cat diff author tags desc scoring flgs conn creator
    by (rule revs_and_play [OF CreateLibraryChallenge_grow play_CreateLibraryChallenge])
  have "preserves (\<lambda>U. play_ok) (NewRevision cid desc scoring flgs conn creator)"
    unfolding NewRevision_def
    by (intro play_db.transaction play_db.tx_try play_keeps_bump play_keeps_revision preserves_option preserves_ret)
  with NewRevision_grow show "preserves (\<lambda>U. sound rs) (NewRevision cid desc scoring flgs conn creator)"
    by (rule revs_and_play)
  show "preserves (\<lambda>U. sound rs) (CloneChallenge cid slug title creator)"
    unfolding CloneChallenge_def
    by (intro preserves_bind preserves_sum preserves_ret sound_db.quiet quiet_library(1) quiet_GetRevision create)
qed

subsection \<open>Bulk actions\<close>

lemma instances_ok_filter:
  assumes "instances_ok d" and "instances d' = filter P (instances d)"
  shows "instances_ok d'"
proof -
  have "filter (\<lambda>i. i_status i = ''running'') (instances d') =
      filter P (filter (\<lambda>i. i_status i = ''running'') (instances d))"
    by (simp add: assms(2) conj_commute)
  then have "active_unique d'"
    using assms(1) unfolding instances_ok_def active_unique_def by (simp only: distinct_map_filter)
  then show ?thesis using assms by (simp add: instances_ok_def)
qed

lemma sound_drop: "sound rs d \<Longrightarrow> sound rs (drop_challenges ids d)"
proof -
  assume ok: "sound rs d"
  let ?d = "drop_challenges ids d"
  have "books ?d"
    by (rule books_same [of d]) (use ok in \<open>auto simp: sound_def drop_challenges_def\<close>)
  moreover have "instances_ok ?d"
    by (rule instances_ok_filter [of d]) (use ok in \<open>auto simp: sound_def drop_challenges_def\<close>)
  moreover have "revs_ok ?d"
    by (rule revs_ok_same [of d]) (use ok in \<open>auto simp: sound_def drop_challenges_def\<close>)
  moreover have "filter sb_correct (submissions ?d) = filter (\<lambda>s. sb_ec s \<notin> set ids) (filter sb_correct (submissions d))"
    by (simp add: drop_challenges_def conj_commute)
  then have "solves_unique ?d"
    using ok unfolding sound_def solves_unique_def by (simp only: distinct_map_filter)
  ultimately show ?thesis using ok by (simp add: sound_def drop_challenges_def)
qed

text \<open>
  What a bulk action keeps: any invariant of the core tables that survives the deletion of challenges.
\<close>

lemma bulk_change_keeps:
  assumes core: "\<And>d d'. core_rows d' = core_rows d \<Longrightarrow> I d \<Longrightarrow> I d'"
    and drop: "\<And>d ids. I d \<Longrightarrow> I (drop_challenges ids d)"
    and st: "bulk_change action params ecIDs = Some st"
  shows "stmt_keeps (\<lambda>U. I) st"
proof (rule stmt_keepsI)
  fix now u U d a d'
  assume ok: "I d" and run: "st now u d = Inr (a, d')"
  from bulk_change_cast [OF st run] obtain ids where "map uuid_in ecIDs = map Some ids" by blast
  from bulk_change_effect [OF st run this] consider "d' = drop_challenges ids d"
    | f where "\<And>c. c_id (f c) = c_id c"
        "d' = d\<lparr>challenges := update_where (\<lambda>c. c_id c \<in> set ids) f (challenges d)\<rparr>"
    by (auto split: if_splits)
  then show "I d'"
  proof cases
    case 1
    then show ?thesis using drop [OF ok] by simp
  next
    case 2
    then have "core_rows d' = core_rows d" by (simp add: core_rows_def core_update_where)
    then show ?thesis using ok by (rule core)
  qed
qed

lemma BulkApply_keeps:
  assumes core: "\<And>d d'. core_rows d' = core_rows d \<Longrightarrow> I d \<Longrightarrow> I d'"
    and drop: "\<And>d ids. I d \<Longrightarrow> I (drop_challenges ids d)"
  shows "preserves (\<lambda>U. I) (BulkApply ev actor action params ecIDs)"
proof -
  have inv: "db_invariant (\<lambda>U. I)" by unfold_locales
  note rules = db_invariant.tx_try [OF inv] db_invariant.transaction [OF inv]
  have finish: "preserves (\<lambda>U. I)
      (case bulk_change action params ecIDs of
          None \<Rightarrow> ret (Rollback (fail (Message ''unknown bulk action'')))
        | Some st \<Rightarrow>
            tx_try now st fail (\<lambda>affected.
            tx_try now (insert_job ev (nilIfEmpty actor) action affected undo) fail (\<lambda>jobID.
            tx_try now (insert_audit ev (nilIfEmpty actor) (''bulk:'' @ action) jobID
              (bulk_meta action affected ecIDs)) fail (\<lambda>_.
            ret (Commit (jobID, affected))))))" for now undo
  proof (cases "bulk_change action params ecIDs")
    case (Some st)
    have "framed_stmt (insert_job ev (nilIfEmpty actor) action affected undo)"
      "framed_stmt (insert_audit ev (nilIfEmpty actor) (''bulk:'' @ action) jobID (bulk_meta action affected ecIDs))"
      for affected jobID
      by (rule frames_stmtI; drule insert_job_Inr insert_audit_Inr; auto simp: core_rows_def)+
    then have "stmt_keeps (\<lambda>U. I) (insert_job ev (nilIfEmpty actor) action affected undo)"
      "stmt_keeps (\<lambda>U. I)
        (insert_audit ev (nilIfEmpty actor) (''bulk:'' @ action) jobID (bulk_meta action affected ecIDs))"
      for affected jobID
      using core unfolding frames_stmt_def stmt_keeps_def by blast+
    with Some show ?thesis
      by (auto intro!: rules bulk_change_keeps [of I, OF core drop Some] preserves_ret)
  qed (simp add: preserves_ret)
  have snap: "stmt_keeps (\<lambda>U. I) (snapshot ecIDs)"
    by (rule stmt_keepsI) (auto simp: snapshot_def cast_uuids_Inr)
  show ?thesis
    unfolding BulkApply_def with_snapshot_def
    by (intro preserves_if preserves_ret rules snap finish)
qed

lemma sound_BulkApply [sound_intros]: "preserves (\<lambda>U. sound rs) (BulkApply ev actor action params ecIDs)"
  by (rule BulkApply_keeps) (rule sound_core, assumption+, rule sound_drop)

subsection \<open>New challenges\<close>

lemma books_new_challenge:
  assumes ok: "books d" and new: "unused U d" and u: "c_id c \<in> U"
    and d': "d' = d\<lparr>challenges := challenges d @ [c]\<rparr>"
  shows "books d'"
proof -
  have old: "ec \<noteq> c_id c" if "s \<in> set (score_events d)" "refers s ec" for s ec
    using that new u by (auto simp: unused_def)
  have mono: "settled d' ec P" if "settled d ec P" "ec \<noteq> c_id c" for ec P
    using that by (auto simp: settled_def d')
  have "core_ref d' s" if s: "s \<in> set (score_events d)" for s
  proof -
    have "core_ref d s" using ok s by (simp add: books_def)
    moreover have "settled d' ec P" if "settled d ec P" "refers s ec" for ec P
      using mono [OF that(1)] old [OF s that(2)] by simp
    ultimately show ?thesis unfolding core_ref_def refers_def by blast
  qed
  moreover have "point_ledger.balanced d'"
    by (rule point_ledger.balanced_same [of d])
      (use ok in \<open>simp_all add: d' books_def shown_points_def recorded_points_def has_entry_def\<close>)
  moreover have "solve_ledger.balanced d'"
    by (rule solve_ledger.balanced_same [of d])
      (use ok in \<open>simp_all add: d' books_def shown_solves_def recorded_solves_def has_entry_def\<close>)
  ultimately show ?thesis using ok by (simp add: books_def keys_sound_def d')
qed

text \<open>On ids that are not used yet.\<close>

abbreviation fresh_sound :: "revision list \<Rightarrow> uuid set \<Rightarrow> database \<Rightarrow> bool" where
  "fresh_sound rs \<equiv> \<lambda>U d. sound rs d \<and> unused U d"

interpretation fresh: db_invariant "fresh_sound rs" for rs
  by unfold_locales (auto simp: unused_def)

lemma fresh_soundD: "holds (fresh_sound rs) w \<Longrightarrow> sound rs (db w)" "holds (\<lambda>U. sound rs) w \<Longrightarrow> sound rs (db w)"
  "holds (fresh_sound rs) w \<Longrightarrow> holds (\<lambda>U. sound rs) w"
  by (simp_all add: holds_def)

lemma fresh_core: "core_rows d' = core_rows d \<Longrightarrow> fresh_sound rs U d \<Longrightarrow> fresh_sound rs U d'"
  by (simp add: sound_core unused_core)

named_theorems fresh_intros \<open>operations that keep the invariant as long as new ids are unused\<close>

lemma framed_fresh: "framed m \<Longrightarrow> preserves (fresh_sound rs) m"
  by (erule frames_preserves) (erule (1) fresh_core, erule (1) fresh.fewer_ids)

lemma framed_stmt_fresh: "framed_stmt st \<Longrightarrow> stmt_keeps (fresh_sound rs) st"
  unfolding frames_stmt_def by (rule stmt_keepsI) (metis fresh_core)

lemma fresh_insert_challenge:
  assumes "fresh_sound rs U d" and "c_id c \<in> U" and "insert_challenge c d = Inr (a, d')"
  shows "fresh_sound rs U d'"
proof -
  from assms(3) have d': "d' = d\<lparr>challenges := challenges d @ [c]\<rparr>" by (auto simp: insert_challenge_def)
  have "books d'"
    by (rule books_new_challenge [OF _ _ _ d']) (use assms(1,2) in \<open>auto simp: sound_def\<close>)
  moreover have "rest_ok rs d'"
    by (rule rest_ok_other [of rs d]) (use assms(1) in \<open>auto simp: sound_books d'\<close>)
  ultimately show ?thesis using assms(1) by (simp add: sound_books unused_def d')
qed

lemma fresh_CreateChallenge [fresh_intros]:
  "preserves (fresh_sound rs) (CreateChallenge ev title cat desc scoring st)"
  unfolding CreateChallenge_def
  by (intro preserves_bind preserves_ret fresh.db_call stmt_keepsI)
     (auto elim!: fresh_insert_challenge [rotated 2] simp: new_challenge_def)

lemma fresh_insert_flags: "preserves (fresh_sound rs) k \<Longrightarrow> preserves (fresh_sound rs) (insert_flags now ec fs k)"
  by (induction now ec fs k rule: insert_flags.induct)
     (auto intro!: fresh.tx_try framed_stmt_fresh framed_insert_flag split: option.split)

lemma fresh_insert_hashed: "preserves (fresh_sound rs) k \<Longrightarrow> preserves (fresh_sound rs) (insert_hashed now ec fs k)"
  by (induction now ec fs k rule: insert_hashed.induct)
     (auto intro!: fresh.tx_try framed_stmt_fresh framed_insert_flag)

lemma fresh_CreateChallengeWithFlags [fresh_intros]:
  "preserves (fresh_sound rs) (CreateChallengeWithFlags ev title cat desc scoring st tags fs)"
  unfolding CreateChallengeWithFlags_def
  by (intro fresh.transaction fresh.tx_try fresh_insert_hashed preserves_ret stmt_keepsI)
     (auto elim!: fresh_insert_challenge [rotated 2] simp: new_challenge_def)

lemma fresh_EmbedFromLibrary [fresh_intros]: "preserves (fresh_sound rs) (EmbedFromLibrary ev cid rv)"
proof -
  have "stmt_keeps (fresh_sound rs) (insert_embedded ev cid n lib r)" for n lib r
    by (rule stmt_keepsI)
       (auto simp: insert_embedded_def new_challenge_def elim!: fresh_insert_challenge [rotated 2])
  then show ?thesis
    unfolding EmbedFromLibrary_def Let_def
    by (intro preserves_bind preserves_sum preserves_ret fresh.quiet quiet_library(1) quiet_GetRevision
        fresh.transaction fresh.tx_try fresh_insert_flags)
qed

end
