(* ===== verification/Serving.thy ===== *)
theory Serving
  imports Sound_Store
begin

text \<open>
  The server as a whole: requests of any kind, from anyone, one after another, while clock, network,
  randomness and rate limits do what they like. An invariant of the database that the operations of
  the store keep holds whatever is served.
\<close>

subsection \<open>Helpers that only read\<close>

lemma reads_cast_uuids [quiet_intros]:
  "(\<And>ids. reads (\<lambda>now u d. st ids now u d)) \<Longrightarrow> reads (\<lambda>now u d. cast_uuids ss (\<lambda>ids. st ids now u d))"
  by (auto simp: reads_def cast_uuids_Inr)

lemma quiet_lookups_more [quiet_intros]:
  "quiet (GetBlock blockID)" "quiet (ScoreboardSeries eventID n)" "quiet (TeamGateState eventID teamID)"
  "quiet (TeamChallengeAttempts ecID teamID)" "quiet (SolveCounts eventID)"
  "quiet (FindECByTitle eventID title)" "quiet (PluginByToken h)"
  unfolding SolveCounts_def FindECByTitle_def PluginByToken_def Let_def GetBlock_def ScoreboardSeries_def TeamGateState_def TeamChallengeAttempts_def
  by (intro quiet_intros)+

lemma quiet_ResolveSelector [quiet_intros]: "quiet (ResolveSelector eventID mode ids flt exclude)"
proof -
  have "reads (select_challenges eventID flt)"
    by (auto simp: reads_def select_challenges_def block_condition_def Let_def split: if_splits option.splits)
  then show ?thesis
    unfolding ResolveSelector_def Let_def by (intro quiet_intros)
qed

lemma quiet_submit_checks [quiet_intros]:
  "quiet (block_of c)" "quiet (lock_gate eventID teamID c b)" "quiet (submit_gate P eventID teamID c)"
  "quiet (check_team_flag P srv eventID teamID ecID sub)" "quiet (team_state_for u eventID now)"
  unfolding submit_gate_def block_of_def lock_gate_def check_team_flag_def team_state_for_def Let_def
  by (intro quiet_intros)+

lemma quiet_exported_files [quiet_intros]: "quiet (exported_files includeData ms)"
  by (induction includeData ms rule: exported_files.induct) (auto intro!: quiet_bind)

lemma quiet_export_challenges [quiet_intros]: "quiet (export_challenges includeData cs)"
  by (induction includeData cs rule: export_challenges.induct)
     (auto intro!: quiet_intros simp: export_challenge_def)

subsection \<open>What can happen\<close>

text \<open>
  What can happen between two states of the world: a request is served; the server adds its first
  administrator as it starts, or sends a tick to the plugins; or anything else happens that leaves
  the database alone. A request is served with ids no score event refers to: PostgreSQL's
  \<open>gen_random_uuid()\<close> does not hand out an id a second time, and the only ids that score events
  refer to are ids of challenges.
\<close>

inductive happens :: "platform \<Rightarrow> id_key \<Rightarrow> server \<Rightarrow> world \<Rightarrow> world \<Rightarrow> bool" for P K srv where
  Request: "unused (ids_left w) (db w) \<Longrightarrow> run_state (serve P K srv c header rq) w = (code, w') \<Longrightarrow>
    happens P K srv w w'"
| Start: "run_state (bootstrapAdmin P K email password) w = (a, w') \<Longrightarrow> happens P K srv w w'"
| Tick: "run_state (tick_round P fmt now) w = (a, w') \<Longrightarrow> happens P K srv w w'"
| Elsewhere: "db w' = db w \<Longrightarrow> happens P K srv w w'"

inductive_cases happensE: "happens P K srv w w'"

subsection \<open>An interface for invariants of the database\<close>

lemma preserves_check [preserves_intros]:
  "preserves I m \<Longrightarrow> preserves I n \<Longrightarrow> (\<And>b. preserves I (f b)) \<Longrightarrow>
   preserves I (case x of InvalidHash \<Rightarrow> m | Panics \<Rightarrow> n | Checked b \<Rightarrow> f b)"
  by (simp split: check.split)

lemma preserves_rate_allow: "preserves I (rate_allow key)"
  by (auto simp: preserves_def rate_allow_def wp_State holds_def ids_left_def split: prod.split)

lemma plugin_source_foreign: "plugin_source p \<noteq> ''core''"
  by (simp add: plugin_source_def)

named_theorems kept_intros \<open>code that keeps the invariant of the locale\<close>
named_theorems ids_intros \<open>code that keeps it as long as the ids to come are unused\<close>

text \<open>
  What an invariant has to provide: the operations of the store that write keep it; those that create
  a challenge, as long as the ids to come are unused.
\<close>

locale op_invariant =
  fixes I :: "database \<Rightarrow> bool"
  assumes CreateUser: "preserves (\<lambda>U. I) (CreateUser orgID email name pwhash role)"
    and CreateSession: "preserves (\<lambda>U. I) (CreateSession token userID t)"
    and DeleteSession: "preserves (\<lambda>U. I) (DeleteSession token)"
    and RegisterPlugin: "preserves (\<lambda>U. I) (RegisterPlugin pid name url secret token caps subs)"
    and CreateEvent: "preserves (\<lambda>U. I) (CreateEvent orgID slug name t1 t2 t3 bonus)"
    and SetEventState: "preserves (\<lambda>U. I) (SetEventState eventID st)"
    and CreateNotification: "preserves (\<lambda>U. I) (CreateNotification eventID title content)"
    and CreateBlock: "preserves (\<lambda>U. I) (CreateBlock eventID name pos color sched rl)"
    and CreateSavedView: "preserves (\<lambda>U. I) (CreateSavedView eventID userID name flt)"
    and SetBlockSchedule: "preserves (\<lambda>U. I) (SetBlockSchedule blockID sched)"
    and CreateTeam: "preserves (\<lambda>U. I) (CreateTeam orgID name code)"
    and AddTeamMember: "preserves (\<lambda>U. I) (AddTeamMember userID teamID role)"
    and AssignEventTeam: "preserves (\<lambda>U. I) (AssignEventTeam eventID teamID)"
    and UnassignEventTeam: "preserves (\<lambda>U. I) (UnassignEventTeam eventID teamID)"
    and SetChallengeState: "preserves (\<lambda>U. I) (SetChallengeState ecID st)"
    and SetChallengeSchedule: "preserves (\<lambda>U. I) (SetChallengeSchedule ecID doc)"
    and SetChallengeUnlock: "preserves (\<lambda>U. I) (SetChallengeUnlock ecID doc)"
    and SetInstanceSpec: "preserves (\<lambda>U. I) (SetInstanceSpec ecID doc)"
    and UpdateChallengeContent: "preserves (\<lambda>U. I) (UpdateChallengeContent ecID cat desc scoring st tags)"
    and AddFlag: "preserves (\<lambda>U. I) (AddFlag ecID h cs)"
    and ReplaceFlags: "preserves (\<lambda>U. I) (ReplaceFlags ecID fs)"
    and ReplaceChallengeFiles: "preserves (\<lambda>U. I) (ReplaceChallengeFiles ecID infiles)"
    and BulkUndo: "preserves (\<lambda>U. I) (BulkUndo jobID)"
    and RecordWrong: "preserves (\<lambda>U. I) (RecordWrong ev ec tm us h ip)"
    and RecordSolve: "preserves (\<lambda>U. I) (RecordSolve e ec tm us h ip pts)"
    and PluginAward: "source \<noteq> ''core'' \<Longrightarrow> preserves (\<lambda>U. I) (PluginAward ev tm source ref pts meta)"
    and DeletePluginAward: "source \<noteq> ''core'' \<Longrightarrow> preserves (\<lambda>U. I) (DeletePluginAward ev source ref)"
    and CreateInstance: "preserves (\<lambda>U. I) (CreateInstance ec tm host port t)"
    and ExtendInstance: "preserves (\<lambda>U. I) (ExtendInstance ec tm extra 2)"
    and DestroyInstance: "preserves (\<lambda>U. I) (DestroyInstance ec tm)"
    and CreateLibraryChallenge: "preserves (\<lambda>U. I)
      (CreateLibraryChallenge org slug title cat diff author tags desc scoring flgs conn creator)"
    and NewRevision: "preserves (\<lambda>U. I) (NewRevision cid desc scoring flgs conn creator)"
    and CloneChallenge: "preserves (\<lambda>U. I) (CloneChallenge cid slug title creator)"
    and BulkApply: "preserves (\<lambda>U. I) (BulkApply ev actor action params ecIDs)"
    and CreateChallenge: "preserves (\<lambda>U d. I d \<and> unused U d) (CreateChallenge ev title cat desc points_doc st)"
    and CreateChallengeWithFlags: "preserves (\<lambda>U d. I d \<and> unused U d)
      (CreateChallengeWithFlags ev title cat desc scoring st tags fs)"
    and EmbedFromLibrary: "preserves (\<lambda>U d. I d \<and> unused U d) (EmbedFromLibrary ev cid rv)"

sublocale op_invariant \<subseteq> db: db_invariant "\<lambda>U. I"
  by unfold_locales

sublocale op_invariant \<subseteq> ids: db_invariant "\<lambda>U d. I d \<and> unused U d"
  by unfold_locales (auto simp: unused_def)

text \<open>An invariant that looks only at the core tables: most operations leave these alone.\<close>

locale server_invariant =
  fixes I :: "database \<Rightarrow> bool"
  assumes core: "core_rows d' = core_rows d \<Longrightarrow> I d \<Longrightarrow> I d'"
    and RecordWrong: "preserves (\<lambda>U. I) (RecordWrong ev ec tm us h ip)"
    and RecordSolve: "preserves (\<lambda>U. I) (RecordSolve e ec tm us h ip pts)"
    and PluginAward: "source \<noteq> ''core'' \<Longrightarrow> preserves (\<lambda>U. I) (PluginAward ev tm source ref pts meta)"
    and DeletePluginAward: "source \<noteq> ''core'' \<Longrightarrow> preserves (\<lambda>U. I) (DeletePluginAward ev source ref)"
    and CreateInstance: "preserves (\<lambda>U. I) (CreateInstance ec tm host port t)"
    and ExtendInstance: "preserves (\<lambda>U. I) (ExtendInstance ec tm extra 2)"
    and DestroyInstance: "preserves (\<lambda>U. I) (DestroyInstance ec tm)"
    and CreateLibraryChallenge: "preserves (\<lambda>U. I)
      (CreateLibraryChallenge org slug title cat diff author tags desc scoring flgs conn creator)"
    and NewRevision: "preserves (\<lambda>U. I) (NewRevision cid desc scoring flgs conn creator)"
    and CloneChallenge: "preserves (\<lambda>U. I) (CloneChallenge cid slug title creator)"
    and BulkApply: "preserves (\<lambda>U. I) (BulkApply ev actor action params ecIDs)"
    and CreateChallenge: "preserves (\<lambda>U d. I d \<and> unused U d) (CreateChallenge ev title cat desc points_doc st)"
    and CreateChallengeWithFlags: "preserves (\<lambda>U d. I d \<and> unused U d)
      (CreateChallengeWithFlags ev title cat desc scoring st tags fs)"
    and EmbedFromLibrary: "preserves (\<lambda>U d. I d \<and> unused U d) (EmbedFromLibrary ev cid rv)"

context server_invariant
begin

lemma framed_keeps: "framed m \<Longrightarrow> preserves (\<lambda>U. I) m"
  by (erule frames_preserves) (rule core)

lemmas core_ops = RecordWrong RecordSolve PluginAward DeletePluginAward CreateInstance ExtendInstance DestroyInstance
  CreateLibraryChallenge NewRevision CloneChallenge BulkApply CreateChallenge CreateChallengeWithFlags EmbedFromLibrary

end

sublocale server_invariant \<subseteq> ops: op_invariant I
  by unfold_locales (rule framed_intros [THEN framed_keeps] core_ops; assumption?)+

text \<open>What is true at the end of every request, on ids that are not used yet at its start.\<close>

definition ends :: "(database \<Rightarrow> bool) \<Rightarrow> (world, 'a) action \<Rightarrow> bool" where
  "ends I m \<longleftrightarrow> (\<forall>w. I (db w) \<longrightarrow> unused (ids_left w) (db w) \<longrightarrow> wp m (\<lambda>_ w'. I (db w')) w)"

context op_invariant
begin

lemmas kept_ops [kept_intros] = RecordWrong RecordSolve CreateInstance ExtendInstance DestroyInstance
  CreateLibraryChallenge NewRevision CloneChallenge BulkApply BulkUndo CreateUser CreateSession DeleteSession
  RegisterPlugin CreateEvent SetEventState CreateNotification CreateBlock CreateSavedView SetBlockSchedule
  CreateTeam AddTeamMember AssignEventTeam UnassignEventTeam SetChallengeState SetChallengeSchedule
  SetChallengeUnlock SetInstanceSpec

lemmas awards = PluginAward [OF plugin_source_foreign] DeletePluginAward [OF plugin_source_foreign]

text \<open>What leaves the core tables alone uses no ids.\<close>

lemma also_unused: "preserves (\<lambda>U. I) m \<Longrightarrow> framed m \<Longrightarrow> preserves (\<lambda>U d. I d \<and> unused U d) m"
  by (rule preserves_conj, assumption, erule frames_preserves)
     (erule (1) unused_core, auto simp: unused_def)

lemmas ids_ops [ids_intros] = CreateChallenge CreateChallengeWithFlags EmbedFromLibrary
  also_unused [OF SetChallengeState framed_challenges(1)] also_unused [OF UpdateChallengeContent framed_challenges(5)]
  also_unused [OF AddFlag framed_AddFlag] also_unused [OF ReplaceFlags framed_ReplaceFlags]
  also_unused [OF ReplaceChallengeFiles framed_ReplaceChallengeFiles]

lemma kept_issueSession [kept_intros]: "preserves (\<lambda>U. I) (issueSession P srv u)"
  unfolding issueSession_def
  by (rule preserves_intros kept_intros | (rule db.quiet, rule quiet_intros))+

lemma kept_record_verdict [kept_intros]:
  "preserves (\<lambda>U. I) (record_verdict P srv u e eventID ecID teamID c sub ip correct)"
  unfolding record_verdict_def Let_def
  by (rule preserves_intros kept_intros | (rule db.quiet, rule quiet_intros))+

lemma kept_accounts [kept_intros]:
  "preserves (\<lambda>U. I) handleIndex"
  "preserves (\<lambda>U. I) handleHealth"
  "preserves (\<lambda>U. I) (handleRegister P K srv b)"
  "preserves (\<lambda>U. I) (handleLogin P K srv b)"
  "preserves (\<lambda>U. I) (handleLogout P c)"
  "preserves (\<lambda>U. I) (handleMe u)"
  unfolding handleIndex_def handleHealth_def Ping_def handleRegister_def handleLogin_def handleLogout_def
    handleMe_def with_body_def Let_def
  by (rule preserves_intros kept_intros | (rule db.quiet, rule quiet_intros))+

lemma kept_reads [kept_intros]:
  "preserves (\<lambda>U. I) (handleListEvents u)"
  "preserves (\<lambda>U. I) (handleGetEvent ev)"
  "preserves (\<lambda>U. I) (handleScoreboard srv ev limit cached)"
  "preserves (\<lambda>U. I) (handleScoreboardSeries ev best)"
  "preserves (\<lambda>U. I) (handleListChallenges P u ev)"
  "preserves (\<lambda>U. I) (handleGetChallenge u ec)"
  "preserves (\<lambda>U. I) (handleDownloadFile u ev ec f)"
  "preserves (\<lambda>U. I) (handleListBlocks ev)"
  "preserves (\<lambda>U. I) (handleListNotifications ev)"
  unfolding handleListEvents_def handleGetEvent_def handleScoreboard_def handleScoreboardSeries_def
    handleListChallenges_def handleGetChallenge_def handleDownloadFile_def handleListBlocks_def
    handleListNotifications_def with_body_def Let_def
  by (rule preserves_intros kept_intros | (rule db.quiet, rule quiet_intros))+

lemma kept_teams [kept_intros]:
  "preserves (\<lambda>U. I) (handleCreateTeam u b)"
  "preserves (\<lambda>U. I) (handleJoinTeam u b)"
  "preserves (\<lambda>U. I) (handleMyTeam u)"
  "preserves (\<lambda>U. I) (handleListTeams ev)"
  "preserves (\<lambda>U. I) (handleMyStatus u ev)"
  "preserves (\<lambda>U. I) (handleSubmit P srv u ev ec b ip)"
  "preserves (\<lambda>U. I) (handleMyAttempts u ev ec)"
  unfolding handleCreateTeam_def handleJoinTeam_def handleMyTeam_def handleListTeams_def handleMyStatus_def
    handleSubmit_def handleMyAttempts_def with_body_def Let_def submit_challenge_def
  by (rule preserves_intros kept_intros preserves_rate_allow | (rule db.quiet, rule quiet_intros))+

lemma kept_team_instances [kept_intros]:
  "preserves (\<lambda>U. I) (handleCreateInstance P srv u ev ec)"
  "preserves (\<lambda>U. I) (handleGetInstance P srv u ev ec)"
  "preserves (\<lambda>U. I) (handleExtendInstance P srv u ev ec)"
  "preserves (\<lambda>U. I) (handleDestroyInstance u ev ec)"
  unfolding handleCreateInstance_def handleGetInstance_def handleExtendInstance_def
    handleDestroyInstance_def with_body_def Let_def
  by (rule preserves_intros kept_intros | (rule db.quiet, rule quiet_intros))+

lemma kept_library_routes [kept_intros]:
  "preserves (\<lambda>U. I) (handleCreateLibraryChallenge P u b)"
  "preserves (\<lambda>U. I) (handleListLibrary u tag)"
  "preserves (\<lambda>U. I) (handleGetLibraryChallenge cid)"
  "preserves (\<lambda>U. I) (handleListRevisions cid)"
  "preserves (\<lambda>U. I) (handleNewRevision P u cid b)"
  "preserves (\<lambda>U. I) (handleCloneChallenge u cid b)"
  "preserves (\<lambda>U. I) (handleCreateBlock ev b)"
  "preserves (\<lambda>U. I) (handleBulk srv u ev b)"
  "preserves (\<lambda>U. I) (handleBulkUndo job)"
  "preserves (\<lambda>U. I) (handleCreateSavedView u ev b)"
  "preserves (\<lambda>U. I) (handleListSavedViews u ev)"
  unfolding handleCreateLibraryChallenge_def handleListLibrary_def handleGetLibraryChallenge_def
    handleListRevisions_def handleNewRevision_def handleCloneChallenge_def handleCreateBlock_def
    handleBulk_def handleBulkUndo_def handleCreateSavedView_def handleListSavedViews_def with_body_def
    Let_def
  by (rule preserves_intros kept_intros | (rule db.quiet, rule quiet_intros))+

lemma kept_updates [kept_intros]:
  "preserves (\<lambda>U. I) (handleSetEventState srv ev b)"
  "preserves (\<lambda>U. I) (handleSetChallengeState srv ev ec b)"
  "preserves (\<lambda>U. I) (handleSetChallengeSchedule srv ev ec b)"
  "preserves (\<lambda>U. I) (handleSetChallengeUnlock srv ev ec b)"
  "preserves (\<lambda>U. I) (handleSetBlockSchedule k b)"
  "preserves (\<lambda>U. I) (handleSetInstanceSpec ec b)"
  unfolding handleSetEventState_def handleSetChallengeState_def handleSetChallengeSchedule_def
    handleSetChallengeUnlock_def handleSetBlockSchedule_def handleSetInstanceSpec_def with_body_def Let_def
    announce_update_def
  by (rule preserves_intros kept_intros | (rule db.quiet, rule quiet_intros))+

lemma kept_administration [kept_intros]:
  "preserves (\<lambda>U. I) (handleCreateEvent u b)"
  "preserves (\<lambda>U. I) (handleExport ev fs)"
  "preserves (\<lambda>U. I) (handleRegisterPlugin P b)"
  "preserves (\<lambda>U. I) handleListPlugins"
  "preserves (\<lambda>U. I) (handleListOrgTeams u)"
  "preserves (\<lambda>U. I) (handleAssignEventTeam srv ev b)"
  "preserves (\<lambda>U. I) (handleUnassignEventTeam srv ev tm)"
  "preserves (\<lambda>U. I) (handleCreateNotification srv ev b)"
  "preserves (\<lambda>U. I) (handleListSubmissions ev limit)"
  "preserves (\<lambda>U. I) (handleStats ev)"
  unfolding handleCreateEvent_def handleExport_def handleRegisterPlugin_def handleListPlugins_def
    handleListOrgTeams_def handleAssignEventTeam_def handleUnassignEventTeam_def
    handleCreateNotification_def handleListSubmissions_def handleStats_def with_body_def Let_def
  by (rule preserves_intros kept_intros | (rule db.quiet, rule quiet_intros))+

lemma kept_plugin_routes [kept_intros]:
  "preserves (\<lambda>U. I) (handlePluginAward srv p b)"
  "preserves (\<lambda>U. I) (handleDeletePluginAward srv p ev r)"
  "preserves (\<lambda>U. I) (handlePluginTeams ev)"
  "preserves (\<lambda>U. I) (handlePluginAnnounce srv p b)"
  "preserves (\<lambda>U. I) (handlePluginConfig p)"
  unfolding handlePluginAward_def handleDeletePluginAward_def handlePluginTeams_def handlePluginAnnounce_def
    handlePluginConfig_def with_body_def Let_def
  by (rule preserves_intros awards | (rule db.quiet, rule quiet_intros))+

subsection \<open>Handlers that create challenges\<close>

lemma ids_add_each_flag [ids_intros]: "preserves (\<lambda>U d. I d \<and> unused U d) (add_each_flag P ecID fs)"
  by (induction P ecID fs rule: add_each_flag.induct) (auto intro!: preserves_intros ids_intros)

lemma ids_import_one [ids_intros]: "preserves (\<lambda>U d. I d \<and> unused U d) (import_one P eventID dryRun ch pl)"
  unfolding import_one_def import_new_def import_existing_def import_files_def Let_def
  by (rule preserves_intros ids_intros | (rule ids.quiet, rule quiet_intros))+

lemma ids_import_all [ids_intros]: "preserves (\<lambda>U d. I d \<and> unused U d) (import_all P eventID dryRun cs pl)"
  by (induction P eventID dryRun cs pl rule: import_all.induct) (auto intro!: preserves_intros ids_intros)

lemma ids_creations:
  "preserves (\<lambda>U d. I d \<and> unused U d) (handleCreateChallenge P ev b)"
  "preserves (\<lambda>U d. I d \<and> unused U d) (handleEmbed ev b)"
  "preserves (\<lambda>U d. I d \<and> unused U d) (handleImport P srv ev dry format b)"
  unfolding handleCreateChallenge_def handleEmbed_def handleImport_def with_body_def Let_def
  by (rule preserves_intros ids_intros | (rule ids.quiet, rule quiet_intros))+

subsection \<open>Every request\<close>

lemma preserves_code_of: "preserves J m \<Longrightarrow> preserves J (code_of m)"
  unfolding code_of_def by (intro preserves_intros)

lemma kept_serve_public: "preserves (\<lambda>U. I) (serve_public P K srv c u rq)"
  by (cases rq) (auto intro!: preserves_code_of preserves_ret kept_intros)

lemma kept_serve_player: "preserves (\<lambda>U. I) (serve_player P srv u rq)"
  by (cases rq) (auto intro!: preserves_code_of kept_intros)

lemma kept_serve_plugin: "preserves (\<lambda>U. I) (serve_plugin srv p rq)"
  by (cases rq) (auto intro!: preserves_code_of kept_intros)

lemma ends_ids: "preserves (\<lambda>U d. I d \<and> unused U d) m \<Longrightarrow> ends I m"
  unfolding ends_def by (auto dest!: preservesD simp: holds_def elim!: wp_mono)

lemma ends_kept: "preserves (\<lambda>U. I) m \<Longrightarrow> ends I m"
  unfolding ends_def by (auto dest!: preservesD simp: holds_def elim!: wp_mono)

lemma ends_after:
  assumes "quiet m" and "\<And>a. ends I (f a)"
  shows "ends I (m \<bind> f)"
  unfolding ends_def wp_bind
proof (intro allI impI)
  fix w assume "I (db w)" "unused (ids_left w) (db w)"
  then have "holds (\<lambda>U d. I d \<and> unused U d) w" by (simp add: holds_def)
  from preservesD [OF ids.quiet [OF assms(1)] this]
  show "wp m (\<lambda>a. wp (f a) (\<lambda>_ w'. I (db w'))) w"
    by (rule wp_mono) (use assms(2) in \<open>simp add: ends_def holds_def\<close>)
qed

lemma ends_admin: "ends I (serve_admin P srv u rq)"
  by (cases rq)
    (auto intro!: ends_ids [OF preserves_code_of, OF ids_creations(1)]
       ends_ids [OF preserves_code_of, OF ids_creations(2)]
       ends_ids [OF preserves_code_of, OF ids_creations(3)]
       ends_kept preserves_code_of kept_intros)

lemma ends_guards:
  "ends I (code_of (requireAuth u (\<lambda>us. do { n \<leftarrow> serve_player P srv us r; ret (Reply n ()) })))"
  "ends I (code_of (pluginAuth P header (\<lambda>p. do { n \<leftarrow> serve_plugin srv p q; ret (Reply n ()) })))"
  unfolding requireAuth_def pluginAuth_def
  by (intro ends_kept preserves_code_of preserves_option preserves_bind preserves_sum preserves_ret
      kept_serve_player kept_serve_plugin db.quiet quiet_lookups_more)+

lemma ends_bind_ret: "ends I m \<Longrightarrow> ends I (do { n \<leftarrow> m; ret (f n) })"
  unfolding ends_def wp_bind by (auto elim!: wp_mono)

lemma ends_ret: "ends I (ret a)"
  by (simp add: ends_def)

lemma ends_serve: "ends I (serve P K srv c header rq)"
  unfolding serve_def
proof (rule ends_after)
  show "quiet (sessionMiddleware P c)"
    unfolding sessionMiddleware_def by (intro quiet_intros)
  fix u
  have admin: "ends I (code_of (requireAuth u (\<lambda>us. requireAdmin u (do { n \<leftarrow> serve_admin P srv us r; ret (Reply n ()) }))))" for r
    unfolding requireAuth_def requireAdmin_def code_of_def
    by (intro ends_bind_ret) (auto intro!: ends_ret ends_bind_ret ends_admin split: option.split)
  show "ends I (case rq of
        Public r \<Rightarrow> serve_public P K srv c u r
      | Player r \<Rightarrow> code_of (requireAuth u (\<lambda>us. do { n \<leftarrow> serve_player P srv us r; ret (Reply n ()) }))
      | Admin r \<Rightarrow> code_of (requireAuth u (\<lambda>us. requireAdmin u (do { n \<leftarrow> serve_admin P srv us r; ret (Reply n ()) })))
      | Plugin r \<Rightarrow> code_of (pluginAuth P header (\<lambda>p. do { n \<leftarrow> serve_plugin srv p r; ret (Reply n ()) })))"
    by (cases rq) (simp_all add: admin ends_guards ends_kept [OF kept_serve_public])
qed

lemma kept_bootstrap: "preserves (\<lambda>U. I) (bootstrapAdmin P K email password)"
  unfolding bootstrapAdmin_def Let_def
  by (rule preserves_intros kept_intros | (rule db.quiet, rule quiet_intros))+

lemma happens_keeps:
  assumes "happens P K srv w w'" and "I (db w)"
  shows "I (db w')"
  using assms(1)
proof cases
  case (Request c header rq code)
  then show ?thesis using ends_serve [of P K srv c header rq] assms(2) by (auto simp: ends_def dest: wpD)
next
  case (Start email password a)
  then show ?thesis using preserves_run [OF kept_bootstrap _ Start] assms(2) by (simp add: holds_def)
next
  case (Tick fmt now a)
  have "quiet (tick_round P fmt now)" unfolding tick_round_def by (rule quiet_deliverWebhook)
  from preserves_run [OF db.quiet [OF this] _ Tick] assms(2) show ?thesis by (simp add: holds_def)
next
  case Elsewhere
  then show ?thesis using assms(2) by simp
qed

lemma run_keeps: "(happens P K srv)\<^sup>*\<^sup>* w w' \<Longrightarrow> I (db w) \<Longrightarrow> I (db w')"
  by (induction rule: rtranclp_induct) (auto intro: happens_keeps)

end

end
