(* ===== verification/People.thy ===== *)
theory People
  imports Serving
begin

text \<open>
  The tables of people: accounts, sessions, events, teams, members, and the teams of events. Whatever
  is served, they stay in order: nobody is on two teams, no e-mail address or name is taken twice, and
  nothing refers to a row that is not there.
\<close>

subsection \<open>The invariant\<close>

definition accounts_in_order :: "database \<Rightarrow> bool" where
  "accounts_in_order d \<longleftrightarrow>
     distinct (map u_id (users d)) \<and> distinct (map (\<lambda>u. (u_org u, u_email u)) (users d)) \<and>
     u_org ` set (users d) \<subseteq> o_id ` set (orgs d) \<and>
     distinct (map s_token (sessions d)) \<and> s_user ` set (sessions d) \<subseteq> u_id ` set (users d)"

definition teams_in_order :: "database \<Rightarrow> bool" where
  "teams_in_order d \<longleftrightarrow>
     distinct (map tm_id (teams d)) \<and> distinct (map tm_invite (teams d)) \<and>
     distinct (map (\<lambda>t. (tm_org t, tm_name t)) (teams d)) \<and>
     tm_org ` set (teams d) \<subseteq> o_id ` set (orgs d) \<and>
     distinct (map mb_user (members d)) \<and> mb_user ` set (members d) \<subseteq> u_id ` set (users d) \<and>
     mb_team ` set (members d) \<subseteq> tm_id ` set (teams d)"

definition events_in_order :: "database \<Rightarrow> bool" where
  "events_in_order d \<longleftrightarrow>
     distinct (map e_id (events d)) \<and> distinct (map (\<lambda>e. (e_org e, e_slug e)) (events d)) \<and>
     e_org ` set (events d) \<subseteq> o_id ` set (orgs d) \<and>
     distinct (map (\<lambda>x. (et_event x, et_team x)) (event_teams d)) \<and>
     et_event ` set (event_teams d) \<subseteq> e_id ` set (events d) \<and>
     et_team ` set (event_teams d) \<subseteq> tm_id ` set (teams d)"

definition people_ok :: "database \<Rightarrow> bool" where
  "people_ok d \<longleftrightarrow> accounts_in_order d \<and> teams_in_order d \<and> events_in_order d"

lemmas people_defs = people_ok_def accounts_in_order_def teams_in_order_def events_in_order_def

type_synonym people_rows =
  "org list \<times> user list \<times> session list \<times> event list \<times> team list \<times> member list \<times> event_team list"

definition people :: "database \<Rightarrow> people_rows" where
  "people d = (orgs d, users d, sessions d, events d, teams d, members d, event_teams d)"

lemma people_same: "people d' = people d \<Longrightarrow> people_ok d \<Longrightarrow> people_ok d'"
  by (simp add: people_def people_defs)

lemma bystander: "frames people m \<Longrightarrow> preserves (\<lambda>U. people_ok) m"
  by (erule frames_preserves) (rule people_same)

interpretation people_db: db_invariant "\<lambda>U. people_ok"
  by unfold_locales

subsection \<open>Operations on people\<close>

text \<open>New rows with keys that are not taken and references to rows that are there.\<close>

lemma people_insert:
  "people_ok d \<Longrightarrow> fresh_key u_id (u_id u) (users d) \<Longrightarrow> fresh_key (\<lambda>u. (u_org u, u_email u)) (u_org u, u_email u) (users d) \<Longrightarrow>
    exists_row o_id (u_org u) (orgs d) \<Longrightarrow> people_ok (d\<lparr>users := users d @ [u]\<rparr>)"
  "people_ok d \<Longrightarrow> fresh_key s_token (s_token s) (sessions d) \<Longrightarrow> exists_row u_id (s_user s) (users d) \<Longrightarrow>
    people_ok (d\<lparr>sessions := sessions d @ [s]\<rparr>)"
  "people_ok d \<Longrightarrow> fresh_key e_id (e_id e) (events d) \<Longrightarrow> fresh_key (\<lambda>e. (e_org e, e_slug e)) (e_org e, e_slug e) (events d) \<Longrightarrow>
    exists_row o_id (e_org e) (orgs d) \<Longrightarrow> people_ok (d\<lparr>events := events d @ [e]\<rparr>)"
  "people_ok d \<Longrightarrow> fresh_key tm_id (tm_id t) (teams d) \<Longrightarrow> fresh_key tm_invite (tm_invite t) (teams d) \<Longrightarrow>
    fresh_key (\<lambda>t. (tm_org t, tm_name t)) (tm_org t, tm_name t) (teams d) \<Longrightarrow> exists_row o_id (tm_org t) (orgs d) \<Longrightarrow>
    people_ok (d\<lparr>teams := teams d @ [t]\<rparr>)"
  "people_ok d \<Longrightarrow> fresh_key mb_user (mb_user m) (members d) \<Longrightarrow> exists_row u_id (mb_user m) (users d) \<Longrightarrow>
    exists_row tm_id (mb_team m) (teams d) \<Longrightarrow> people_ok (d\<lparr>members := members d @ [m]\<rparr>)"
  "people_ok d \<Longrightarrow> fresh_key (\<lambda>x. (et_event x, et_team x)) (et_event x, et_team x) (event_teams d) \<Longrightarrow>
    exists_row e_id (et_event x) (events d) \<Longrightarrow> exists_row tm_id (et_team x) (teams d) \<Longrightarrow>
    people_ok (d\<lparr>event_teams := event_teams d @ [x]\<rparr>)"
  by (simp_all add: people_defs fresh_key_iff exists_row_iff subset_insertI2)

lemma image_filter_subset: "f ` set xs \<subseteq> A \<Longrightarrow> f ` set (filter P xs) \<subseteq> A"
  by auto

lemma people_delete:
  "people_ok d \<Longrightarrow> people_ok (d\<lparr>sessions := filter P (sessions d)\<rparr>)"
  "people_ok d \<Longrightarrow> people_ok (d\<lparr>event_teams := filter Q (event_teams d)\<rparr>)"
  by (simp_all add: people_defs distinct_map_filter image_filter_subset del: set_filter)

lemma people_event_state:
  "people_ok d \<Longrightarrow> people_ok (d\<lparr>events := update_where P (\<lambda>e. e\<lparr>e_state := st\<rparr>) (events d)\<rparr>)"
  by (simp add: people_defs map_update_where flip: set_map)

lemma people_accounts:
  "preserves (\<lambda>U. people_ok) (CreateUser orgID email name pwhash role)"
  "preserves (\<lambda>U. people_ok) (CreateSession token userID t)"
  "preserves (\<lambda>U. people_ok) (DeleteSession token)"
  unfolding CreateUser_def CreateSession_def DeleteSession_def
  by (intro preserves_bind preserves_ret people_db.db_call stmt_keepsI;
      clarsimp simp: insert_user_def Let_def people_insert people_delete)+

lemma people_events:
  "preserves (\<lambda>U. people_ok) (CreateEvent orgID slug name t1 t2 t3 bonus)"
  "preserves (\<lambda>U. people_ok) (SetEventState eventID st)"
  "preserves (\<lambda>U. people_ok) (AssignEventTeam eventID teamID)"
  "preserves (\<lambda>U. people_ok) (UnassignEventTeam eventID teamID)"
  unfolding CreateEvent_def SetEventState_def AssignEventTeam_def UnassignEventTeam_def
  by (intro preserves_bind preserves_ret people_db.db_call stmt_keepsI;
      auto simp: Let_def people_insert people_delete people_event_state split: if_splits)+

lemma people_teams:
  "preserves (\<lambda>U. people_ok) (CreateTeam orgID name code)"
  "preserves (\<lambda>U. people_ok) (AddTeamMember userID teamID role)"
  unfolding CreateTeam_def AddTeamMember_def
  by (intro preserves_bind preserves_ret people_db.db_call stmt_keepsI; clarsimp simp: Let_def people_insert)+

subsection \<open>Operations on other tables\<close>

lemma people_challenges:
  "frames people (SetChallengeState ecID st)" "frames people (SetChallengeSchedule ecID doc)"
  "frames people (SetChallengeUnlock ecID doc)" "frames people (SetInstanceSpec ecID doc)"
  "frames people (UpdateChallengeContent ecID cat desc scoring st tags)"
  "frames people (SetBlockSchedule blockID sched)" "frames people (AddFlag ecID h cs)"
  unfolding SetChallengeState_def SetChallengeSchedule_def SetChallengeUnlock_def SetInstanceSpec_def
    UpdateChallengeContent_def SetBlockSchedule_def AddFlag_def
  by (intro frames_rules; auto simp: update_challenge_def insert_flag_def people_def)+

lemma people_organisation:
  "frames people (CreateNotification eventID title content)"
  "frames people (CreateBlock eventID name pos color sched rl)"
  "frames people (CreateSavedView eventID userID name flt)"
  "frames people (RegisterPlugin pid name url secret token caps subs)"
  unfolding CreateNotification_def CreateBlock_def CreateSavedView_def RegisterPlugin_def Let_def
  by (intro frames_rules; auto simp: people_def Let_def split: option.splits)+

lemma people_instances:
  "frames people (CreateInstance ec tm host port t)" "frames people (ExtendInstance ec tm extra k)"
  "frames people (DestroyInstance ec tm)"
  unfolding CreateInstance_def ExtendInstance_def DestroyInstance_def
  by (intro frames_rules; auto simp: insert_instance_def extend_stmt_def people_def Let_def)+

lemma people_score_stmts:
  "frames_stmt people (insert_submission ev ec tm us h correct ip)"
  "frames_stmt people (insert_score ev tm kind source ref pts meta)"
  "frames_stmt people (add_to_board ev tm pts k lst)" "frames_stmt people (count_solvers ec)"
  "frames_stmt people (delete_score ev source ref)" "frames_stmt people (charge_stmt s)"
proof -
  show "frames_stmt people (insert_submission ev ec tm us h correct ip)"
    by (rule frames_stmtI) (clarsimp simp: insert_submission_def people_def)
  show "frames_stmt people (insert_score ev tm kind source ref pts meta)"
    by (rule frames_stmtI) (auto simp: insert_score_Inr post_score_def people_def split: if_splits)
  show "frames_stmt people (add_to_board ev tm pts k lst)"
    by (rule frames_stmtI) (auto simp: add_to_board_Inr upsert_board_def people_def)
  show "frames_stmt people (count_solvers ec)" by (rule frames_stmtI) (auto simp: count_solvers_Inr)
  show "frames_stmt people (delete_score ev source ref)"
    by (rule frames_stmtI) (auto simp: delete_score_Inr drop_score_def people_def split: option.splits)
  show "frames_stmt people (charge_stmt s)"
    by (rule frames_stmtI) (auto simp: charge_stmt_def charge_board_def people_def Let_def)
qed

lemma people_scores:
  "frames people (RecordWrong ev ec tm us h ip)" "frames people (RecordSolve e ec tm us h ip pts)"
  "frames people (PluginAward ev tm source ref pts meta)" "frames people (DeletePluginAward ev source ref)"
  unfolding RecordWrong_def RecordSolve_def PluginAward_def DeletePluginAward_def Let_def
  by (intro frames_bind frames_db_call frames_transaction frames_tx_try frames_if frames_option frames_ret
      people_score_stmts)+

lemma people_library_stmts:
  "frames_stmt people (insert_library org slug title cat diff author tags)"
  "frames_stmt people (insert_revision cid rv desc scoring flgs conn creator)"
  "frames_stmt people (bump_rev cid)"
  by (rule frames_stmtI;
      auto simp: insert_library_def insert_revision_def bump_rev_def people_def Let_def cast_uuid_opt_Inr
        split: option.splits)+

lemma people_library:
  "frames people (CreateLibraryChallenge org slug title cat diff author tags desc scoring flgs conn creator)"
  "frames people (NewRevision cid desc scoring flgs conn creator)"
  "frames people (CloneChallenge cid slug title creator)"
  unfolding CloneChallenge_def CreateLibraryChallenge_def NewRevision_def
  by (intro frames_bind frames_sum frames_option frames_ret frames_transaction frames_tx_try people_library_stmts
      frames_quiet quiet_library(1) quiet_GetRevision)+

lemma people_bulk_change: "bulk_change action params ecIDs = Some st \<Longrightarrow> frames_stmt people st"
proof (rule frames_stmtI)
  fix now u d a d'
  assume st: "bulk_change action params ecIDs = Some st" and run: "st now u d = Inr (a, d')"
  from bulk_change_cast [OF st run] obtain ids where "map uuid_in ecIDs = map Some ids" by blast
  from bulk_change_effect [OF st run this] show "people d' = people d"
    by (auto simp: drop_challenges_def people_def split: if_splits)
qed

lemma people_bulk_stmts:
  "frames_stmt people (snapshot ecIDs)" "frames_stmt people (insert_job ev actor action n undo)"
  "frames_stmt people (insert_audit ev actor action target meta)" "frames_stmt people (restore_row r)"
  "frames_stmt people (mark_undone jobID)"
  by (rule frames_stmtI;
      auto simp: snapshot_def insert_job_def insert_audit_def restore_row_def mark_undone_def people_def Let_def
        cast_uuid_opt_Inr cast_uuids_Inr split: option.splits)+

lemma people_restore_rows: "(\<And>n. frames people (k n)) \<Longrightarrow> frames people (restore_rows now rows n k)"
  by (induction now rows n k rule: restore_rows.induct) (auto intro!: frames_tx_try people_bulk_stmts)

lemma people_BulkUndo: "frames people (BulkUndo jobID)"
  unfolding BulkUndo_def if_distrib [of "case_option _ _"]
  by (intro frames_bind frames_db_call frames_sum frames_option frames_prod frames_if frames_ret
      frames_transaction frames_tx_try people_restore_rows people_bulk_stmts frames_stmtI; (auto simp: people_def)?)

lemma people_BulkApply: "frames people (BulkApply ev actor action params ecIDs)"
proof -
  have "frames people
      (case bulk_change action params ecIDs of
          None \<Rightarrow> ret (Rollback (fail (Message ''unknown bulk action'')))
        | Some st \<Rightarrow>
            tx_try now st fail (\<lambda>affected.
            tx_try now (insert_job ev (nilIfEmpty actor) action affected undo) fail (\<lambda>jobID.
            tx_try now (insert_audit ev (nilIfEmpty actor) (''bulk:'' @ action) jobID
              (bulk_meta action affected ecIDs)) fail (\<lambda>_.
            ret (Commit (jobID, affected))))))" for now undo
    by (cases "bulk_change action params ecIDs")
       (auto intro!: frames_ret frames_tx_try people_bulk_change people_bulk_stmts)
  then show ?thesis
    unfolding BulkApply_def with_snapshot_def
    by (intro frames_if frames_ret frames_transaction frames_tx_try people_bulk_stmts)
qed

lemma people_contents:
  "frames people (ReplaceFlags ecID fs)" "frames people (ReplaceChallengeFiles ecID infiles)"
proof -
  have flag: "frames_stmt people (insert_flag ecID h cs)" for ecID h cs
    by (rule frames_stmtI) (auto simp: insert_flag_def people_def)
  have hashed: "frames people k \<Longrightarrow> frames people (insert_hashed now ecID fs k)" for now k
    by (induction now ecID fs k rule: insert_hashed.induct) (auto intro!: frames_tx_try flag)
  show "frames people (ReplaceFlags ecID fs)"
    unfolding ReplaceFlags_def
    by (intro frames_transaction frames_tx_try hashed frames_ret frames_stmtI) (auto simp: delete_flags_def people_def)
  have stored: "frames people k \<Longrightarrow> frames people (insert_files now ecID infiles k)" for now k
    by (induction now ecID infiles k rule: insert_files.induct)
       (auto intro!: frames_tx_try frames_stmtI simp: insert_file_def people_def)
  show "frames people (ReplaceChallengeFiles ecID infiles)"
    unfolding ReplaceChallengeFiles_def
    by (intro frames_transaction frames_tx_try stored frames_ret frames_stmtI) (auto simp: delete_files_def people_def)
qed

subsection \<open>New challenges\<close>

text \<open>They leave the people and the score events alone, and with these the ids that are not used.\<close>

definition people_scored :: "database \<Rightarrow> people_rows \<times> score_event list" where
  "people_scored d = (people d, score_events d)"

lemma people_scored_defs: "people_scored d' = people_scored d \<longleftrightarrow> people d' = people d \<and> score_events d' = score_events d"
  by (simp add: people_scored_def)

lemma people_unused: "frames people_scored m \<Longrightarrow> preserves (\<lambda>U d. people_ok d \<and> unused U d) m"
  by (erule frames_preserves) (auto simp: people_scored_defs unused_def intro: people_same)

lemma people_insert_challenge: "insert_challenge c d = Inr (a, d') \<Longrightarrow> people_scored d' = people_scored d"
  by (auto simp: insert_challenge_def people_scored_def people_def)

lemma people_insert_flag: "frames_stmt people_scored (insert_flag ecID h cs)"
  by (rule frames_stmtI) (auto simp: insert_flag_def people_scored_def people_def)

lemma people_insert_hashed: "frames people_scored k \<Longrightarrow> frames people_scored (insert_hashed now ec fs k)"
  by (induction now ec fs k rule: insert_hashed.induct) (auto intro!: frames_tx_try people_insert_flag)

lemma people_insert_flags: "frames people_scored k \<Longrightarrow> frames people_scored (insert_flags now ec fs k)"
  by (induction now ec fs k rule: insert_flags.induct)
     (auto intro!: frames_tx_try people_insert_flag split: option.split)

lemma people_creations:
  "frames people_scored (CreateChallenge ev title cat desc points_doc st)"
  "frames people_scored (CreateChallengeWithFlags ev title cat desc scoring st tags fs)"
  "frames people_scored (EmbedFromLibrary ev cid rv)"
proof -
  show "frames people_scored (CreateChallenge ev title cat desc points_doc st)"
    unfolding CreateChallenge_def by (intro frames_rules) (auto intro: people_insert_challenge)
  show "frames people_scored (CreateChallengeWithFlags ev title cat desc scoring st tags fs)"
    unfolding CreateChallengeWithFlags_def
    by (intro frames_transaction frames_tx_try people_insert_hashed frames_ret frames_stmtI)
       (auto intro: people_insert_challenge)
  have "frames_stmt people_scored (insert_embedded ev cid n lib r)" for n lib r
    by (rule frames_stmtI) (auto simp: insert_embedded_def intro: people_insert_challenge)
  then show "frames people_scored (EmbedFromLibrary ev cid rv)"
    unfolding EmbedFromLibrary_def Let_def
    by (intro frames_bind frames_sum frames_ret frames_quiet quiet_library(1) quiet_GetRevision
        frames_transaction frames_tx_try people_insert_flags)
qed

subsection \<open>Whatever is served\<close>

lemmas people_bystanders = people_challenges people_organisation people_instances people_scores people_library
  people_BulkApply people_BulkUndo people_contents

interpretation people_server: op_invariant people_ok
  by unfold_locales
     (rule people_accounts people_events people_teams people_bystanders [THEN bystander]
        people_creations [THEN people_unused])+

lemma people_run: "(happens P K srv)\<^sup>*\<^sup>* w w' \<Longrightarrow> people_ok (db w) \<Longrightarrow> people_ok (db w')"
  by (rule people_server.run_keeps)

text \<open>What the invariant is good for: rows are found by their keys, and a user has one team.\<close>

lemma people_team_of:
  assumes "people_ok d" and "m \<in> set (members d)"
  shows "\<exists>t \<in> set (teams d). tm_id t = mb_team m \<and> user_team (mb_user m) d = Some (t, mb_role m)"
proof -
  have "mb_team m \<in> tm_id ` set (teams d)" using assms by (auto simp: people_defs)
  then obtain t where t: "t \<in> set (teams d)" "tm_id t = mb_team m" by force
  have "find (\<lambda>x. mb_user x = mb_user m) (members d) = Some m"
    using assms by (intro find_key) (simp_all add: people_defs)
  moreover have "find (\<lambda>x. tm_id x = tm_id t) (teams d) = Some t"
    using assms t by (intro find_key) (simp_all add: people_defs)
  ultimately show ?thesis using t by (auto simp: user_team_def)
qed

lemma people_empty: "people_ok empty_db"
  by (simp add: people_defs empty_db_def)

end
