(* ===== verification/System.thy ===== *)
theory System
  imports People
begin

text \<open>
  The server keeps its accounts: the invariant of \<open>Sound_Store\<close> holds whatever is served.
\<close>

definition accounts_ok :: "database \<Rightarrow> bool" where
  "accounts_ok d \<longleftrightarrow> books d \<and> solves_unique d \<and> instances_ok d \<and> revs_ok d"

lemma accounts_sound: "accounts_ok d \<Longrightarrow> sound (revisions d) d"
  by (simp add: accounts_ok_def sound_def)

interpretation sound_server: server_invariant "sound rs" for rs
proof unfold_locales
  show "core_rows d' = core_rows d \<Longrightarrow> sound rs d \<Longrightarrow> sound rs d'" for d' d by (rule sound_core)
qed (rule sound_intros sound_PluginAward sound_DeletePluginAward fresh_intros; assumption?)+

text \<open>
  C1. The server keeps its accounts, as long as it serves one request after the other. Start from a
  database whose accounts are in order (\<open>accounts_ok\<close>), such as an empty one, and let any sequence of
  requests be served, to any route from anyone, with any contents, with any faults of the database
  connection, at any times. (Solves served at the same time can set the scoreboard apart from the
  journal: \<open>first_blood_twice\<close>.) Then at any moment between two requests the scoreboard shows of every
  team the sum of its score events and the number of its solves; no team
  has two correct submissions for a challenge; a team has at most one running instance of a challenge,
  extended at most twice; and the revisions of every library challenge are numbered from 1 to its
  current one without a gap, those there were at the start unchanged. And if accounts, teams and
  events were in order at the start (\<open>people_ok\<close>), they still are: nobody is on two teams, no address, name, invite code or session
  token is there twice, and no row refers to one that is not there.
\<close>

theorem server_keeps_accounts:
  assumes "(happens P K srv)\<^sup>*\<^sup>* w w'" and "accounts_ok (db w)"
  shows "accounts_ok (db w') \<and> totals_agree (db w') \<and> prefix (revisions (db w)) (revisions (db w')) \<and>
    (people_ok (db w) \<longrightarrow> people_ok (db w'))"
proof -
  have "sound (revisions (db w)) (db w')" using sound_server.ops.run_keeps assms accounts_sound by blast
  then show ?thesis using people_run [OF assms(1)] by (simp add: accounts_ok_def sound_def books_totals)
qed

lemma accounts_empty: "accounts_ok empty_db"
  by (simp add: accounts_ok_def books_empty solves_unique_def instances_ok_def active_unique_def revs_ok_def)
     (simp add: empty_db_def revs_of_def)

text \<open>A player submits the right flag, and an hour later somebody asks for the scoreboard.\<close>

definition scoring_request :: "(world, nat) action" where
  "scoring_request = serve demo_platform (\<lambda>_ _ _ _ _ _. []) demo_server (Some ''token'') []
     (Player (Submit_R (uuid_text 4) (uuid_text 5) (Some (JObj [(''flag'', JStr ''flag{a}'')])) ''1.2.3.4:5000''))"

definition scored_world :: world where
  "scored_world = snd (run_state scoring_request session_world)"

definition hour_later :: world where
  "hour_later = scored_world\<lparr>clock := (\<lambda>_. hour)\<rparr>"

lemma demo_day: "(happens demo_platform (\<lambda>_ _ _ _ _ _. []) demo_server)\<^sup>*\<^sup>* session_world hour_later"
proof -
  have "unused (ids_left session_world) (db session_world)"
    by (simp add: unused_def session_world_def demo_defs)
  then have "happens demo_platform (\<lambda>_ _ _ _ _ _. []) demo_server session_world scored_world"
    unfolding scored_world_def scoring_request_def by (rule happens.Request [OF _ prod.collapse [symmetric]])
  moreover have "happens demo_platform (\<lambda>_ _ _ _ _ _. []) demo_server scored_world hour_later"
    by (rule happens.Elsewhere) (simp add: hour_later_def)
  ultimately show ?thesis by (meson rtranclp.rtrancl_into_rtrancl rtranclp.rtrancl_refl)
qed

lemma accounts_session: "accounts_ok (db session_world)"
  by (simp add: accounts_ok_def books_no_scores solves_unique_def instances_ok_def active_unique_def
      revs_ok_def revs_of_def session_world_def demo_defs)

lemma people_session: "people_ok (db session_world)"
  by (simp add: people_defs session_world_def demo_defs)

theorem server_keeps_accounts_witness:
  "accounts_ok (db hour_later) \<and> totals_agree (db hour_later) \<and> people_ok (db hour_later)"
  using server_keeps_accounts [OF demo_day accounts_session] people_session by blast

end
