(* ===== verification/Game.thy ===== *)
theory Game
  imports System
begin

text \<open>
  The rules of the game, and that the server plays by them. A game is who has solved what, and a
  ledger of entries under keys of their own; the scoreboard, the statements and transactions behind
  it, requests and failures are not in it. Whatever the server does is a sequence of moves of the game.
\<close>

subsection \<open>The game\<close>

type_synonym entry_key = "uuid \<times> string \<times> string" \<comment> \<open>event, source and reference\<close>
type_synonym entry_value = "uuid \<times> string \<times> int" \<comment> \<open>team, kind and points\<close>

record game =
  g_solves :: "(uuid \<times> uuid) set" \<comment> \<open>challenge and team\<close>
  g_entries :: "entry_key \<rightharpoonup> entry_value"

text \<open>
  A team solves a challenge it has not solved before, for the points of the moment; if it is the first
  and there is a bonus, a second entry pays that. Anyone but the core may add an entry under a new key
  and take it back. Challenges may be deleted, with the record of who solved them, not the entries.
\<close>

definition solve_entry :: "uuid \<Rightarrow> string \<Rightarrow> string \<Rightarrow> entry_key" where
  "solve_entry ev x t = (ev, ''core'', ''solve:'' @ x @ '':'' @ t)"

definition blood_entry :: "uuid \<Rightarrow> string \<Rightarrow> entry_key" where
  "blood_entry ev x = (ev, ''core'', ''firstblood:'' @ x)"

inductive game_step :: "game \<Rightarrow> game \<Rightarrow> bool" where
  Solve: "(ec, tm) \<notin> g_solves g \<Longrightarrow> uuid_in x = Some ec \<Longrightarrow> uuid_in t = Some tm \<Longrightarrow>
    g_entries g (solve_entry ev x t) = None \<Longrightarrow> (bonus :: int) \<le> 0 \<or> ec \<in> fst ` g_solves g \<Longrightarrow>
    game_step g \<lparr>g_solves = insert (ec, tm) (g_solves g),
      g_entries = (g_entries g)(solve_entry ev x t \<mapsto> (tm, ''solve'', pts))\<rparr>"
| First_Blood: "ec \<notin> fst ` g_solves g \<Longrightarrow> uuid_in x = Some ec \<Longrightarrow> uuid_in t = Some tm \<Longrightarrow>
    g_entries g (solve_entry ev x t) = None \<Longrightarrow> g_entries g (blood_entry ev x) = None \<Longrightarrow> 0 < bonus \<Longrightarrow>
    game_step g \<lparr>g_solves = insert (ec, tm) (g_solves g),
      g_entries = (g_entries g)(solve_entry ev x t \<mapsto> (tm, ''solve'', pts),
        blood_entry ev x \<mapsto> (tm, ''award'', bonus))\<rparr>"
| Award: "source \<noteq> ''core'' \<Longrightarrow> g_entries g (ev, source, r) = None \<Longrightarrow>
    game_step g (g\<lparr>g_entries := (g_entries g)((ev, source, r) \<mapsto> (tm, ''award'', pts))\<rparr>)"
| Revoke: "source \<noteq> ''core'' \<Longrightarrow> g_entries g (ev, source, r) \<noteq> None \<Longrightarrow>
    game_step g (g\<lparr>g_entries := (g_entries g)((ev, source, r) := None)\<rparr>)"
| Delete: "game_step g (g\<lparr>g_solves := {p \<in> g_solves g. fst p \<notin> set gone}\<rparr>)"

inductive_cases game_stepE: "game_step g g'"

text \<open>What a team has in an event: the points of its entries, and the number of its solves.\<close>

definition g_sum :: "(entry_value \<Rightarrow> int) \<Rightarrow> game \<Rightarrow> uuid \<times> uuid \<Rightarrow> int" where
  "g_sum f g k = (\<Sum>x \<in> {x \<in> dom (g_entries g). (fst x, fst (the (g_entries g x))) = k}. f (the (g_entries g x)))"

definition g_points :: "game \<Rightarrow> uuid \<times> uuid \<Rightarrow> int" where
  "g_points = g_sum (\<lambda>(tm, kind, pts). pts)"

definition g_count :: "game \<Rightarrow> uuid \<times> uuid \<Rightarrow> int" where
  "g_count = g_sum (\<lambda>(tm, kind, pts). if kind = ''solve'' then 1 else 0)"

subsection \<open>The game in the database\<close>

definition entry_of :: "score_event \<Rightarrow> entry_key \<times> entry_value" where
  "entry_of s = (score_key s, (se_team s, se_kind s, se_points s))"

definition game_of :: "database \<Rightarrow> game" where
  "game_of d = \<lparr>g_solves = (\<lambda>s. (sb_ec s, sb_team s)) ` set (filter sb_correct (submissions d)),
     g_entries = map_of (map entry_of (score_events d))\<rparr>"

lemma game_of_other:
  "score_events d' = score_events d \<Longrightarrow> filter sb_correct (submissions d') = filter sb_correct (submissions d) \<Longrightarrow>
   game_of d' = game_of d"
  by (simp only: game_of_def)

lemma entry_None: "g_entries (game_of d) k = None \<longleftrightarrow> fresh_key score_key k (score_events d)"
  by (simp add: game_of_def map_of_eq_None_iff fresh_key_iff entry_of_def image_image)

lemma entries_post:
  assumes "fresh_key score_key (score_key s) (score_events d)"
  shows "g_entries (game_of (post_score s d)) = (g_entries (game_of d))(score_key s \<mapsto> (se_team s, se_kind s, se_points s))"
proof -
  have "map_of (map entry_of (score_events d)) (score_key s) = None"
    using assms entry_None [of d "score_key s"] by (simp add: game_of_def)
  then show ?thesis
    by (auto simp: game_of_def entry_of_def map_add_def fun_eq_iff split: option.split)
qed

lemma entries_drop: "g_entries (game_of (drop_score s d)) = (g_entries (game_of d))(score_key s := None)"
proof -
  have "map_of (map entry_of (filter (\<lambda>x. score_key x \<noteq> k) xs)) = (map_of (map entry_of xs))(k := None)" for k xs
    by (induction xs) (auto simp: entry_of_def fun_eq_iff)
  then show ?thesis by (simp add: game_of_def drop_score_def)
qed

lemma game_simps [simp]:
  "game_of (upsert_board b d) = game_of d" "game_of (charge_board s d) = game_of d"
  "g_solves (game_of (post_score s d)) = g_solves (game_of d)"
  "g_solves (game_of (drop_score s d)) = g_solves (game_of d)"
  by (simp_all add: game_of_def)

lemma game_post: "fresh_key score_key (score_key s) (score_events d) \<Longrightarrow> game_of (post_score s d) =
    (game_of d)\<lparr>g_entries := (g_entries (game_of d))(score_key s \<mapsto> (se_team s, se_kind s, se_points s))\<rparr>"
  by (simp add: entries_post)

lemma game_drop: "game_of (drop_score s d) =
    (game_of d)\<lparr>g_entries := (g_entries (game_of d))(score_key s := None)\<rparr>"
  by (simp add: entries_drop)

lemma game_with_entries: "g\<lparr>g_entries := e\<rparr> = \<lparr>g_solves = g_solves g, g_entries = e\<rparr>"
  by simp

text \<open>What the journal records is what the game counts.\<close>

lemma recorded_sum:
  assumes "keys_sound d"
  shows "(\<Sum>s \<leftarrow> filter (\<lambda>s. score_account s = k) (score_events d). f (se_team s, se_kind s, se_points s)) =
    g_sum f (game_of d) k"
proof -
  let ?xs = "score_events d" and ?m = "map_of (map entry_of (score_events d))"
  have keys: "distinct (map score_key ?xs)" using assms by (simp add: keys_sound_def)
  then have "distinct (map fst (map entry_of ?xs))" by (simp add: entry_of_def comp_def)
  then have val: "?m (score_key s) = Some (se_team s, se_kind s, se_points s)" if "s \<in> set ?xs" for s
    using that by (auto simp: entry_of_def intro!: map_of_is_SomeI)
  have inj: "inj_on score_key {s \<in> set ?xs. score_account s = k}"
    using keys by (auto simp: distinct_map inj_on_def)
  have dom: "dom ?m = score_key ` set ?xs" by (simp add: dom_map_of_conv_image_fst entry_of_def image_image)
  have acc: "(fst (score_key s), fst (the (?m (score_key s)))) = score_account s" if "s \<in> set ?xs" for s
    unfolding val [OF that] by (simp add: score_account_def score_key_def)
  have idx: "{x \<in> dom ?m. (fst x, fst (the (?m x))) = k} = score_key ` {s \<in> set ?xs. score_account s = k}"
    unfolding dom using acc by (intro set_eqI iffI; elim CollectE conjE imageE; hypsubst; simp)
  have "(\<Sum>s \<leftarrow> filter (\<lambda>s. score_account s = k) ?xs. f (se_team s, se_kind s, se_points s)) =
      (\<Sum>s \<in> {s \<in> set ?xs. score_account s = k}. f (se_team s, se_kind s, se_points s))"
    using keys by (simp add: sum_list_distinct_conv_sum_set distinct_map)
  also have "\<dots> = (\<Sum>s \<in> {s \<in> set ?xs. score_account s = k}. f (the (?m (score_key s))))"
    by (rule sum.cong) (simp_all add: val)
  also have "\<dots> = g_sum f (game_of d) k"
    unfolding g_sum_def by (simp add: game_of_def idx sum.reindex [OF inj])
  finally show ?thesis .
qed

lemma board_shows_game:
  assumes "books d"
  shows "shown_points d k = g_points (game_of d) k" and "shown_solves d k = g_count (game_of d) k"
proof -
  have keys: "keys_sound d" using assms by (simp add: books_def)
  have agree: "shown_points d k = recorded_points d k" "shown_solves d k = recorded_solves d k"
    using books_totals [OF assms] unfolding totals_agree_def by blast+
  show "shown_points d k = g_points (game_of d) k"
    using agree recorded_sum [OF keys, where f = "\<lambda>(tm, kind, pts). pts" and k = k]
    by (simp add: recorded_points_def g_points_def)
  show "shown_solves d k = g_count (game_of d) k"
    using agree recorded_sum [OF keys, where f = "\<lambda>(tm, kind, pts). if kind = ''solve'' then 1 else 0" and k = k]
    by (simp add: recorded_solves_def g_count_def solve_amount_def)
qed

subsection \<open>One step of the store\<close>

text \<open>The database has come from the game \<open>g\<close> by moves of the game.\<close>

definition played :: "game \<Rightarrow> database \<Rightarrow> bool" where
  "played g d \<longleftrightarrow> game_step\<^sup>*\<^sup>* g (game_of d)"

interpretation played_db: db_invariant "\<lambda>U. played g" for g
  by unfold_locales

lemma played_same: "played g d \<Longrightarrow> game_of d' = game_of d \<Longrightarrow> played g d'"
  by (simp add: played_def)

lemma played_step: "played g d \<Longrightarrow> game_step (game_of d) (game_of d') \<Longrightarrow> played g d'"
  by (simp add: played_def)

lemma played_core: "core_rows d' = core_rows d \<Longrightarrow> played g d \<Longrightarrow> played g d'"
  by (erule played_same) (simp add: game_of_def core_rows_def)

lemma played_framed: "framed_stmt st \<Longrightarrow> stmt_keeps (\<lambda>U. played g) st"
  by (rule stmt_keepsI) (auto simp: frames_stmt_def intro: played_core)

lemma played_drop: "played g d \<Longrightarrow> played g (drop_challenges ids d)"
proof (erule played_step)
  have "game_of (drop_challenges ids d) =
      (game_of d)\<lparr>g_solves := {p \<in> g_solves (game_of d). fst p \<notin> set ids}\<rparr>"
    by (auto simp: game_of_def drop_challenges_def)
  then show "game_step (game_of d) (game_of (drop_challenges ids d))"
    using game_step.Delete [of "game_of d" ids] by simp
qed

lemma game_step_award:
  assumes "source \<noteq> ''core''" and "fresh_key score_key (ev, source, r) (score_events d)"
    and "s = \<lparr>se_event = ev, se_team = tm, se_kind = ''award'', se_source = source, se_ref = r,
      se_points = pts, se_at = now, se_meta = m\<rparr>"
  shows "game_step (game_of d) (game_of (post_score s d))"
proof -
  have key: "score_key s = (ev, source, r)" by (simp add: assms(3) score_key_def)
  show ?thesis
    using game_step.Award [OF assms(1), of "game_of d" ev r tm pts] assms(2)
    by (simp add: game_post key entry_None) (simp add: assms(3))
qed

lemma game_step_revoke:
  assumes "se_source s \<noteq> ''core''" and "s \<in> set (score_events d)"
  shows "game_step (game_of d) (game_of (drop_score s d))"
proof -
  have "g_entries (game_of d) (se_event s, se_source s, se_ref s) \<noteq> None"
    unfolding entry_None fresh_key_iff using assms(2) by (auto simp: score_key_def)
  from game_step.Revoke [OF assms(1) this] show ?thesis by (simp add: game_drop score_key_def)
qed

lemma game_step_solve:
  assumes ok: "books d" and ids: "uuid_in ecID = Some ec" "uuid_in teamID = Some tm"
    and ec: "ec \<in> c_id ` set (challenges d)" and new: "tm \<notin> solved_by ec d"
    and res: "after_solve ev ecID teamID ec tm us h ip pts bonus now d = (fb, tot, d')"
  shows "game_step (game_of d) (game_of d')"
proof -
  let ?d1 = "d\<lparr>submissions := submissions d @ [\<lparr>sb_event = ev, sb_ec = ec, sb_team = tm,
                 sb_user = us, sb_hash = h, sb_correct = True, sb_at = now, sb_ip = ip\<rparr>]\<rparr>"
  let ?s = "solve_event ev ecID teamID tm pts now" and ?f = "firstblood_event ev ecID tm bonus now"
  have refs: "\<forall>s \<in> set (score_events d). core_ref d s" using ok by (simp add: books_def)
  have keys: "score_key ?s = solve_entry ev ecID teamID" "score_key ?f = blood_entry ev ecID"
    by (simp_all add: score_key_def solve_event_def firstblood_event_def solve_entry_def blood_entry_def)
  have d1: "g_solves (game_of ?d1) = insert (ec, tm) (g_solves (game_of d))"
    "g_entries (game_of ?d1) = g_entries (game_of d)"
    by (auto simp: game_of_def)
  have notyet: "(ec, tm) \<notin> g_solves (game_of d)" using new by (auto simp: game_of_def solved_by_def)
  have solved: "solved_by ec d = {} \<longleftrightarrow> ec \<notin> fst ` g_solves (game_of d)"
    by (auto simp: game_of_def solved_by_def image_image)
  have fresh: "fresh_key score_key (solve_entry ev ecID teamID) (score_events d)"
    unfolding solve_entry_def
    by (rule solve_key_fresh [OF refs ids ec]) (use new in \<open>auto simp: solved_by_def\<close>)
  have s: "game_of (post_score ?s ?d1) = (game_of ?d1)\<lparr>g_entries :=
      (g_entries (game_of d))(solve_entry ev ecID teamID \<mapsto> (tm, ''solve'', pts))\<rparr>"
    using game_post [of ?s ?d1] fresh by (simp add: keys d1) (simp add: solve_event_def)
  show ?thesis
  proof (cases "solved_by ec d = {} \<and> 0 < bonus")
    case True
    have "fresh_key score_key (blood_entry ev ecID) (score_events d)"
      unfolding blood_entry_def
      by (rule firstblood_key_fresh [OF refs ids(1) ec]) (use True in \<open>auto simp: solved_by_def\<close>)
    moreover from this have "fresh_key score_key (score_key ?f) (score_events (post_score ?s ?d1))"
      unfolding keys by (auto simp: fresh_key_iff keys(1) [symmetric]) (simp add: keys solve_entry_def blood_entry_def)
    then have "game_of (post_score ?f (post_score ?s ?d1)) = (game_of ?d1)\<lparr>g_entries :=
        (g_entries (game_of d))(solve_entry ev ecID teamID \<mapsto> (tm, ''solve'', pts),
          blood_entry ev ecID \<mapsto> (tm, ''award'', bonus))\<rparr>"
      by (simp add: game_post [of ?f] keys s) (simp add: firstblood_event_def)
    ultimately show ?thesis
      using game_step.First_Blood [of ec "game_of d" ecID teamID tm ev bonus pts] ids fresh solved True res d1(1)
      by (auto simp: after_solve_def Let_def entry_None game_with_entries)
  next
    case False
    then have "bonus \<le> 0 \<or> ec \<in> fst ` g_solves (game_of d)" using solved by (meson not_less)
    from game_step.Solve [OF notyet ids entry_None [THEN iffD2, OF fresh] this, of pts]
    have "game_step (game_of d) (game_of (post_score ?s ?d1))" by (simp only: s game_with_entries d1)
    moreover have "\<exists>b. d' = upsert_board b (post_score ?s ?d1)"
      using res False by (auto simp: after_solve_def Let_def split: if_splits)
    ultimately show ?thesis by auto
  qed
qed

subsection \<open>Every operation of the store\<close>

named_theorems played_intros \<open>operations that play by the rules\<close>

lemma played_stmt:
  "(\<And>now u d a d'. st now u d = Inr (a, d') \<Longrightarrow> game_of d' = game_of d) \<Longrightarrow> stmt_keeps (\<lambda>U. played g) st"
  by (rule stmt_keepsI) (auto intro: played_same)

lemma played_insert_score:
  assumes "source \<noteq> ''core''"
  shows "stmt_keeps (\<lambda>U. played g) (insert_score ev tm ''award'' source ref pts meta)"
proof (rule stmt_keepsI)
  fix now u U d a d'
  assume p: "played g d" and "insert_score ev tm ''award'' source ref pts meta now u d = Inr (a, d')"
  then consider "d' = d" | x y where "fresh_key score_key (x, source, ref) (score_events d)"
      "d' = post_score \<lparr>se_event = x, se_team = y, se_kind = ''award'', se_source = source,
        se_ref = ref, se_points = pts, se_at = now, se_meta = meta\<rparr> d"
    by (auto simp: insert_score_Inr split: if_splits)
  then show "played g d'"
    by cases (use p in simp, rule played_step [OF p], simp add: game_step_award [OF assms _ refl])
qed

lemma played_delete_score:
  assumes "source \<noteq> ''core''"
  shows "stmt_keeps (\<lambda>U. played g) (delete_score ev source ref)"
proof (rule stmt_keepsI)
  fix now u U d a d'
  assume p: "played g d" and run: "delete_score ev source ref now u d = Inr (a, d')"
  show "played g d'"
  proof (cases "d' = d")
    case False
    with run obtain x s where s: "find (\<lambda>s. score_key s = (x, source, ref)) (score_events d) = Some s"
      and d': "d' = drop_score s d"
      by (auto simp: delete_score_Inr eq_commute [of "Some x" for x] split: option.splits)
    have "s \<in> set (score_events d)" "se_source s = source"
      using find_SomeD [OF s] by (auto simp: score_key_def)
    with p assms show ?thesis unfolding d' by (intro played_step [OF p] game_step_revoke) simp_all
  qed (use p in simp)
qed

lemma played_board: "stmt_keeps (\<lambda>U. played g) (add_to_board ev tm pts k lst)"
  by (rule played_stmt) (auto simp: add_to_board_Inr)

lemma played_charge: "stmt_keeps (\<lambda>U. played g) (charge_stmt s)"
  by (rule played_stmt) (auto simp: charge_stmt_def Let_def)

lemma played_awards:
  assumes "source \<noteq> ''core''"
  shows "preserves (\<lambda>U. played g) (PluginAward ev tm source ref pts meta)"
    and "preserves (\<lambda>U. played g) (DeletePluginAward ev source ref)"
  unfolding PluginAward_def DeletePluginAward_def Let_def
  by (intro played_db.transaction played_db.tx_try played_insert_score [OF assms] played_board
      played_delete_score [OF assms] played_charge preserves_if preserves_option preserves_ret)+

lemma played_RecordWrong [played_intros]: "preserves (\<lambda>U. played g) (RecordWrong ev ec tm us h ip)"
  unfolding RecordWrong_def
  by (intro preserves_bind preserves_ret played_db.db_call played_stmt game_of_other)
     (auto simp: insert_submission_Inr)

lemma played_instances [played_intros]:
  "preserves (\<lambda>U. played g) (CreateInstance ec tm host port t)"
  "preserves (\<lambda>U. played g) (ExtendInstance ec tm extra n)"
  "preserves (\<lambda>U. played g) (DestroyInstance ec tm)"
  unfolding CreateInstance_def ExtendInstance_def DestroyInstance_def
  by (intro preserves_bind preserves_ret played_db.db_call played_stmt game_of_other;
      auto simp: insert_instance_def extend_stmt_def Let_def)+

lemma played_library_stmts:
  "stmt_keeps (\<lambda>U. played g) (insert_library org slug title cat diff author tags)"
  "stmt_keeps (\<lambda>U. played g) (insert_revision cid rv desc scoring flgs conn creator)"
  "stmt_keeps (\<lambda>U. played g) (bump_rev cid)"
  by (rule played_stmt; auto simp: game_of_def insert_library_def insert_revision_def bump_rev_def Let_def
      cast_uuid_opt_Inr split: option.splits)+

lemma played_CreateLibraryChallenge [played_intros]:
  "preserves (\<lambda>U. played g) (CreateLibraryChallenge org slug title cat diff author tags desc scoring flgs conn creator)"
  unfolding CreateLibraryChallenge_def
  by (intro played_db.transaction played_db.tx_try played_library_stmts preserves_ret)

lemma played_library [played_intros]:
  "preserves (\<lambda>U. played g) (NewRevision cid desc scoring flgs conn creator)"
  "preserves (\<lambda>U. played g) (CloneChallenge cid slug title creator)"
  unfolding NewRevision_def CloneChallenge_def
  by (intro played_db.transaction played_db.tx_try played_library_stmts preserves_option preserves_ret
      preserves_bind preserves_sum played_db.quiet quiet_library(1) quiet_GetRevision
      played_CreateLibraryChallenge)+

lemma played_BulkApply [played_intros]: "preserves (\<lambda>U. played g) (BulkApply ev actor action params ecIDs)"
  by (rule BulkApply_keeps) (rule played_core, assumption+, rule played_drop)

lemma game_insert_challenge: "insert_challenge c d = Inr (a, d') \<Longrightarrow> game_of d' = game_of d"
  by (auto simp: insert_challenge_def game_of_def)

lemma played_insert_flags:
  "preserves (\<lambda>U. played g) k \<Longrightarrow> preserves (\<lambda>U. played g) (insert_flags now ec fs k)"
  by (induction now ec fs k rule: insert_flags.induct)
     (auto intro!: played_db.tx_try played_framed framed_insert_flag split: option.split)

lemma played_insert_hashed:
  "preserves (\<lambda>U. played g) k \<Longrightarrow> preserves (\<lambda>U. played g) (insert_hashed now ec hs k)"
  by (induction now ec hs k rule: insert_hashed.induct)
     (auto intro!: played_db.tx_try played_framed framed_insert_flag)

lemma played_creations [played_intros]:
  "preserves (\<lambda>U. played g) (CreateChallenge ev title cat desc points_doc st)"
  "preserves (\<lambda>U. played g) (CreateChallengeWithFlags ev title cat desc scoring st tags fs)"
  "preserves (\<lambda>U. played g) (EmbedFromLibrary ev cid rv)"
proof -
  have "stmt_keeps (\<lambda>U. played g) (insert_embedded ev cid n lib r)" for n lib r
    by (rule played_stmt) (auto simp: insert_embedded_def dest: game_insert_challenge)
  then show "preserves (\<lambda>U. played g) (EmbedFromLibrary ev cid rv)"
    unfolding EmbedFromLibrary_def Let_def
    by (intro preserves_bind preserves_sum preserves_ret played_db.quiet quiet_library(1) quiet_GetRevision
        played_db.transaction played_db.tx_try played_insert_flags)
  show "preserves (\<lambda>U. played g) (CreateChallenge ev title cat desc points_doc st)"
    unfolding CreateChallenge_def
    by (intro preserves_bind preserves_ret played_db.db_call played_stmt)
       (auto dest: game_insert_challenge)
  show "preserves (\<lambda>U. played g) (CreateChallengeWithFlags ev title cat desc scoring st tags fs)"
    unfolding CreateChallengeWithFlags_def
    by (intro played_db.transaction played_db.tx_try played_insert_hashed preserves_ret played_stmt)
       (auto dest: game_insert_challenge)
qed

text \<open>The server plays, and keeps its accounts; only for a solve the one depends on the other.\<close>

definition fair :: "revision list \<Rightarrow> game \<Rightarrow> database \<Rightarrow> bool" where
  "fair rs g d \<longleftrightarrow> sound rs d \<and> played g d"

lemma fair_op: "preserves (\<lambda>U. sound rs) m \<Longrightarrow> preserves (\<lambda>U. played g) m \<Longrightarrow> preserves (\<lambda>U. fair rs g) m"
  using preserves_conj [of "\<lambda>U. sound rs" m "\<lambda>U. played g"] by (simp add: fair_def [abs_def])

lemma fair_fresh_op:
  assumes "preserves (fresh_sound rs) m" and "preserves (\<lambda>U. played g) m"
  shows "preserves (\<lambda>U d. fair rs g d \<and> unused U d) m"
proof -
  have "(\<lambda>U d. fair rs g d \<and> unused U d) = (\<lambda>U d. (sound rs d \<and> unused U d) \<and> played g d)"
    by (auto simp: fair_def fun_eq_iff)
  then show ?thesis using preserves_conj [OF assms] by simp
qed

lemma solve_moves:
  assumes "books d" and "played g d" and "solve_outcome e ec tm us h ip pts d r d'"
  shows "played g d'"
proof -
  have "played g d'" if "solve_applied e ec tm us h ip pts d fb tot d'" for fb tot
    using that game_step_solve [OF assms(1)] unfolding solve_applied_def
    by (elim exE conjE) (rule played_step [OF assms(2)])
  then show ?thesis using assms(2,3) by (auto simp: solve_outcome_def split: sum.splits if_splits)
qed

lemma fair_RecordSolve: "preserves (\<lambda>U. fair rs g) (RecordSolve e ec tm us h ip pts)"
proof (rule preservesI)
  fix w assume w: "holds (\<lambda>U. fair rs g) w"
  then have s: "holds (\<lambda>U. sound rs) w" and b: "books (db w)" and p: "played g (db w)"
    by (simp_all add: holds_def fair_def sound_def)
  show "wp (RecordSolve e ec tm us h ip pts) (\<lambda>_ w'. ids_left w' \<subseteq> ids_left w \<and> holds (\<lambda>U. fair rs g) w') w"
    by (rule wp_mono [OF wp_conj [OF preservesD [OF sound_RecordSolve s] RecordSolve_wp [OF b]]])
       (use solve_moves [OF b p] in \<open>auto simp: holds_def fair_def\<close>)
qed

interpretation fair_server: server_invariant "fair rs g" for rs g
proof unfold_locales
  show "core_rows d' = core_rows d \<Longrightarrow> fair rs g d \<Longrightarrow> fair rs g d'" for d' d
    by (simp add: fair_def sound_core played_core)
qed (rule fair_RecordSolve fair_op fair_fresh_op sound_intros sound_PluginAward sound_DeletePluginAward
    fresh_intros played_intros played_awards; assumption?)+

text \<open>
  C2. The server plays by the rules, as long as it serves one request after the other. Start from a
  database whose accounts are in order (\<open>accounts_ok\<close>) and let any sequence of requests be served, of
  any kind and from anyone, with failures of any statement or commit, and restarts. (With solves served
  at the same time it does not: \<open>first_blood_twice\<close>.) What has changed
  in the records of solves and in the journal of score events is a sequence of moves of the game: a
  first blood goes to the first team only, no solve is recorded or paid twice, plugins cannot touch
  the entries of the core. And the scoreboard shows of every team the points and the solves it has in
  the game.
\<close>

theorem server_refines_game:
  assumes "(happens P K srv)\<^sup>*\<^sup>* w w'" and "accounts_ok (db w)"
  shows "game_step\<^sup>*\<^sup>* (game_of (db w)) (game_of (db w')) \<and>
    shown_points (db w') team = g_points (game_of (db w')) team \<and>
    shown_solves (db w') team = g_count (game_of (db w')) team"
proof -
  have "fair (revisions (db w)) (game_of (db w)) (db w)"
    using accounts_sound [OF assms(2)] by (simp add: fair_def played_def)
  then have "fair (revisions (db w)) (game_of (db w)) (db w')"
    using fair_server.ops.run_keeps [OF assms(1)] by blast
  then show ?thesis by (simp add: fair_def played_def sound_def board_shows_game)
qed

theorem server_refines_game_witness:
  "game_step\<^sup>*\<^sup>* (game_of (db session_world)) (game_of (db hour_later)) \<and>
   shown_points (db hour_later) (4, 3) = g_points (game_of (db hour_later)) (4, 3)"
  using server_refines_game [OF demo_day accounts_session] by blast

end
