(* ===== verification/Races.thy ===== *)
theory Races
  imports Game
begin

text \<open>
  Solves at the same time. Elsewhere one request is served after the other; here the statements of
  several calls of \<open>RecordSolve\<close>, for one challenge, interleave as PostgreSQL lets them under READ
  COMMITTED. A statement sees what is committed and what its own transaction has written. What it
  writes stays with its transaction until that commits, and nothing is checked again then. Two open
  transactions never hold rows with the same key of a unique index: the second statement waits for the
  end of the first transaction.
\<close>

subsection \<open>Transactions side by side\<close>

text \<open>
  A call, how far it has come, and the rows its transaction has written and not yet committed.
  \<open>Over\<close> carries what the caller is told: whether it was first blood, or no solve.
\<close>

datatype stage =
    Started | Submitted | Counted nat | Scored nat | Totalled bool int | Booked bool
  | Over "bool option"

record call =
  cl_team :: string
  cl_user :: string
  cl_hash :: string
  cl_ip :: string
  cl_points :: int
  cl_now :: instant
  cl_stage :: stage
  cl_subs :: "submission list"
  cl_scores :: "score_event list"
  cl_board :: "entry list"

record race =
  rc_db :: database
  rc_calls :: "nat \<Rightarrow> call"

text \<open>
  The tables with the rows of a call: submissions and score events are inserted, a row of the
  scoreboard takes the place of the one under its key, if there is one.
\<close>

definition put_entry :: "entry \<Rightarrow> entry list \<Rightarrow> entry list" where
  "put_entry b bs =
     (if fresh_key board_key (board_key b) bs then bs @ [b]
      else update_where (\<lambda>x. board_key x = board_key b) (\<lambda>_. b) bs)"

definition with_rows :: "call \<Rightarrow> database \<Rightarrow> database" where
  "with_rows c d = d\<lparr>submissions := submissions d @ cl_subs c, score_events := score_events d @ cl_scores c,
     board := fold put_entry (cl_board c) (board d)\<rparr>"

definition view :: "race \<Rightarrow> nat \<Rightarrow> database" where
  "view r i = with_rows (rc_calls r i) (rc_db r)"

definition set_call :: "nat \<Rightarrow> call \<Rightarrow> race \<Rightarrow> race" where
  "set_call i c r = r\<lparr>rc_calls := (rc_calls r)(i := c)\<rparr>"

text \<open>The end of a transaction: nothing is pending any more. A rollback drops the rows, a commit keeps them.\<close>

definition ended :: "bool option \<Rightarrow> call \<Rightarrow> call" where
  "ended a c = c\<lparr>cl_stage := Over a, cl_subs := [], cl_scores := [], cl_board := []\<rparr>"

definition give_up :: "nat \<Rightarrow> race \<Rightarrow> race" where
  "give_up i r = set_call i (ended None (rc_calls r i)) r"

definition commit :: "nat \<Rightarrow> bool option \<Rightarrow> race \<Rightarrow> race" where
  "commit i a r = set_call i (ended a (rc_calls r i)) (r\<lparr>rc_db := view r i\<rparr>)"

text \<open>What a statement has written, going from one state of its view to the next.\<close>

definition new_rows :: "'r list \<Rightarrow> 'r list \<Rightarrow> 'r list" where
  "new_rows old new = drop (length old) new"

definition written :: "database \<Rightarrow> database \<Rightarrow> call \<Rightarrow> call" where
  "written d d' c = c\<lparr>cl_subs := cl_subs c @ new_rows (submissions d) (submissions d'),
     cl_scores := cl_scores c @ new_rows (score_events d) (score_events d'),
     cl_board := cl_board c @ filter (\<lambda>b. b \<notin> set (board d)) (board d')\<rparr>"

text \<open>
  Two transactions want the same key: of the correct submissions (one per challenge and team), of the
  score events, or of the scoreboard.
\<close>

definition solve_key :: "submission \<Rightarrow> uuid \<times> uuid" where
  "solve_key s = (sb_ec s, sb_team s)"

definition share :: "('r \<Rightarrow> 'k) \<Rightarrow> 'r list \<Rightarrow> 'r list \<Rightarrow> bool" where
  "share k xs ys \<longleftrightarrow> list_ex (\<lambda>x. list_ex (\<lambda>y. k x = k y) ys) xs"

definition clash :: "call \<Rightarrow> call \<Rightarrow> bool" where
  "clash c c' \<longleftrightarrow> share solve_key (filter sb_correct (cl_subs c)) (filter sb_correct (cl_subs c')) \<or>
     share score_key (cl_scores c) (cl_scores c') \<or> share board_key (cl_board c) (cl_board c')"

text \<open>
  One statement of a call among the calls \<open>0 ..< n\<close>. If it fails the transaction rolls back; if it
  would write under a key that another open transaction has written, it has to wait (\<open>None\<close>).
\<close>

definition issue :: "nat \<Rightarrow> 'a stmt \<Rightarrow> ('a \<Rightarrow> stage) \<Rightarrow> nat \<Rightarrow> race \<Rightarrow> race option" where
  "issue n st after i r =
     (let c = rc_calls r i
      in case st (cl_now c) 0 (view r i) of
           Inl _ \<Rightarrow> Some (give_up i r)
         | Inr (a, d') \<Rightarrow>
             let c' = written (view r i) d' c
             in if list_ex (\<lambda>j. j \<noteq> i \<and> clash c' (rc_calls r j)) [0..<n] then None
                else Some (set_call i (c'\<lparr>cl_stage := after a\<rparr>) r))"

text \<open>The next step of a call; \<open>None\<close> where it waits or has nothing left to do.\<close>

definition advance :: "event \<Rightarrow> string \<Rightarrow> nat \<Rightarrow> nat \<Rightarrow> race \<Rightarrow> race option" where
  "advance e x n i r =
     (let c = rc_calls r i; ev = uuid_text (e_id e)
      in case cl_stage c of
           Started \<Rightarrow>
             issue n (insert_submission ev x (cl_team c) (cl_user c) (cl_hash c) True (nilIfEmpty (cl_ip c)))
               (\<lambda>_. Submitted) i r
         | Submitted \<Rightarrow> issue n (count_solvers x) Counted i r
         | Counted k \<Rightarrow>
             issue n (insert_score ev (cl_team c) ''solve'' ''core''
               (''solve:'' @ x @ '':'' @ cl_team c) (cl_points c) (JObj [])) (\<lambda>_. Scored k) i r
         | Scored k \<Rightarrow>
             if k = 1 \<and> 0 < e_bonus e then
               issue n (insert_score ev (cl_team c) ''award'' ''core'' (''firstblood:'' @ x) (e_bonus e) (JObj []))
                 (\<lambda>_. Totalled True (cl_points c + e_bonus e)) i r
             else Some (set_call i (c\<lparr>cl_stage := Totalled (k = 1) (cl_points c)\<rparr>) r)
         | Totalled fb tot \<Rightarrow>
             issue n (add_to_board ev (cl_team c) tot 1 (Some (cl_now c))) (\<lambda>_. Booked fb) i r
         | Booked fb \<Rightarrow> Some (commit i (Some fb) r)
         | Over _ \<Rightarrow> None)"

text \<open>
  At any time a call may fail, and its transaction is rolled back; and the answer to a commit may be
  lost, so that the caller is told of a failure and the rows are there.
\<close>

inductive race_step :: "event \<Rightarrow> string \<Rightarrow> nat \<Rightarrow> race \<Rightarrow> race \<Rightarrow> bool" for e x n where
  Advance: "i < n \<Longrightarrow> advance e x n i r = Some r' \<Longrightarrow> race_step e x n r r'"
| Fails: "i < n \<Longrightarrow> (\<nexists>a. cl_stage (rc_calls r i) = Over a) \<Longrightarrow> race_step e x n r (give_up i r)"
| Answer_lost: "i < n \<Longrightarrow> cl_stage (rc_calls r i) = Booked fb \<Longrightarrow> race_step e x n r (commit i None r)"

inductive_cases race_stepE: "race_step e x n r r'"

lemma issueE:
  assumes "issue n st after i r = Some r'"
  obtains "r' = give_up i r"
  | a d' where "st (cl_now (rc_calls r i)) 0 (view r i) = Inr (a, d')"
      "r' = set_call i ((written (view r i) d' (rc_calls r i))\<lparr>cl_stage := after a\<rparr>) r"
      "\<And>j. j < n \<Longrightarrow> j \<noteq> i \<Longrightarrow> \<not> clash (written (view r i) d' (rc_calls r i)) (rc_calls r j)"
proof (cases "st (cl_now (rc_calls r i)) 0 (view r i)")
  case (Inl err)
  with assms show ?thesis by (intro that(1)) (simp add: issue_def)
next
  case (Inr res)
  then obtain a d' where run: "st (cl_now (rc_calls r i)) 0 (view r i) = Inr (a, d')" by (cases res) auto
  with assms show ?thesis
    by (intro that(2) [OF run]) (auto simp: issue_def Let_def list_ex_iff split: if_splits)
qed

lemma view_simps [simp]:
  "submissions (view r i) = submissions (rc_db r) @ cl_subs (rc_calls r i)"
  "score_events (view r i) = score_events (rc_db r) @ cl_scores (rc_calls r i)"
  "challenges (view r i) = challenges (rc_db r)"
  by (simp_all add: view_def with_rows_def)

lemma race_simps [simp]:
  "rc_db (set_call i c r) = rc_db r" "rc_calls (set_call i c r) j = (if j = i then c else rc_calls r j)"
  "rc_db (give_up i r) = rc_db r" "rc_db (commit i a r) = view r i"
  "rc_calls (give_up i r) j = (if j = i then ended None (rc_calls r i) else rc_calls r j)"
  "rc_calls (commit i a r) j = (if j = i then ended a (rc_calls r i) else rc_calls r j)"
  by (simp_all add: set_call_def give_up_def commit_def)

subsection \<open>No key twice\<close>

definition journal_ok :: "database \<Rightarrow> bool" where
  "journal_ok d \<longleftrightarrow> distinct (map score_key (score_events d)) \<and>
     distinct (map solve_key (filter sb_correct (submissions d)))"

definition idle :: "call \<Rightarrow> bool" where
  "idle c \<longleftrightarrow> cl_subs c = [] \<and> cl_scores c = [] \<and> cl_board c = []"

text \<open>What every transaction sees is in order, and no two hold rows of one key.\<close>

definition race_ok :: "nat \<Rightarrow> race \<Rightarrow> bool" where
  "race_ok n r \<longleftrightarrow> (\<forall>i. journal_ok (view r i)) \<and>
     (\<forall>i j. i \<noteq> j \<longrightarrow> \<not> clash (rc_calls r i) (rc_calls r j)) \<and> (\<forall>i \<ge> n. idle (rc_calls r i))"

definition appends :: "database \<Rightarrow> database \<Rightarrow> bool" where
  "appends d d' \<longleftrightarrow> (\<exists>xs. submissions d' = submissions d @ xs) \<and> (\<exists>ys. score_events d' = score_events d @ ys)"

definition keeps_journal :: "'a stmt \<Rightarrow> bool" where
  "keeps_journal st \<longleftrightarrow> (\<forall>now u d a d'. st now u d = Inr (a, d') \<longrightarrow>
     appends d d' \<and> (journal_ok d \<longrightarrow> journal_ok d'))"

lemma journal_statements:
  "keeps_journal (insert_submission ev ec tm us h True ip)" "keeps_journal (count_solvers ec)"
  "keeps_journal (insert_score ev tm kind source ref pts meta)" "keeps_journal (add_to_board ev tm pts k lst)"
  by (auto simp: keeps_journal_def appends_def journal_ok_def insert_submission_Inr count_solvers_Inr insert_score_Inr
      add_to_board_Inr solve_key_def fresh_key_iff score_key_def split: if_splits) blast

lemma share_sym: "share k xs ys \<longleftrightarrow> share k ys xs"
  unfolding share_def list_ex_iff by metis

lemma clash_sym: "clash c c' \<longleftrightarrow> clash c' c"
  by (simp add: clash_def share_sym)

lemma share_Nil [simp]: "\<not> share k [] ys" "\<not> share k xs []"
  by (simp_all add: share_def list_ex_iff)

lemma clash_idle [simp]: "idle c \<Longrightarrow> \<not> clash c c'" "idle c' \<Longrightarrow> \<not> clash c c'"
  by (auto simp: clash_def idle_def)

lemma idle_ended [simp]: "idle (ended a c)"
  by (simp add: idle_def ended_def)

lemma distinct_join:
  "distinct (map k (d @ xs)) \<Longrightarrow> distinct (map k (d @ ys)) \<Longrightarrow> \<not> share k xs ys \<Longrightarrow>
   distinct (map k ((d @ xs) @ ys))"
  by (auto simp: share_def list_ex_iff)

lemma journal_join:
  assumes "journal_ok (with_rows c d)" and "journal_ok (with_rows c' d)" and "\<not> clash c c'"
  shows "journal_ok (with_rows c' (with_rows c d))"
  using assms distinct_join [of score_key "score_events d" "cl_scores c" "cl_scores c'"]
    distinct_join [of solve_key "filter sb_correct (submissions d)" "filter sb_correct (cl_subs c)" "filter sb_correct (cl_subs c')"]
  by (auto simp: journal_ok_def with_rows_def clash_def)

lemma journal_idle: "idle c \<Longrightarrow> journal_ok (with_rows c d) = journal_ok d"
  by (simp add: idle_def with_rows_def journal_ok_def)

lemma journal_prefix: "journal_ok (with_rows c d) \<Longrightarrow> journal_ok d"
  by (simp add: with_rows_def journal_ok_def)

lemma journal_written:
  assumes "appends (view r i) d'" and "journal_ok d'"
  shows "journal_ok (with_rows (written (view r i) d' (rc_calls r i)) (rc_db r))"
proof -
  from assms(1) obtain xs ys where "submissions d' = submissions (view r i) @ xs"
    "score_events d' = score_events (view r i) @ ys" by (auto simp: appends_def)
  with assms(2) show ?thesis by (simp add: journal_ok_def with_rows_def written_def new_rows_def)
qed

lemma race_ok_give_up: "race_ok n r \<Longrightarrow> i < n \<Longrightarrow> race_ok n (give_up i r)"
  by (auto simp: race_ok_def view_def journal_idle intro: journal_prefix)

lemma race_ok_commit: "race_ok n r \<Longrightarrow> i < n \<Longrightarrow> race_ok n (commit i a r)"
  by (auto simp: race_ok_def view_def journal_idle intro!: journal_join)

lemma race_ok_issue:
  assumes "race_ok n r" and "i < n" and "keeps_journal st" and "issue n st after i r = Some r'"
  shows "race_ok n r'"
  using assms(4)
proof (cases rule: issueE)
  case 1
  then show ?thesis using assms(1,2) by (simp add: race_ok_give_up)
next
  case (2 a d')
  let ?c = "(written (view r i) d' (rc_calls r i))\<lparr>cl_stage := after a\<rparr>"
  have "appends (view r i) d'" "journal_ok d'"
    using assms(1,3) 2(1) by (auto simp: keeps_journal_def race_ok_def)
  from journal_written [OF this] have own: "journal_ok (with_rows ?c (rc_db r))"
    by (simp add: with_rows_def)
  have "\<not> clash ?c (rc_calls r j)" if "j \<noteq> i" for j
    using 2(3) [of j] that assms(1) by (cases "j < n") (auto simp: race_ok_def clash_def idle_def)
  then show ?thesis
    using assms(1,2) own clash_sym [of _ ?c] unfolding race_ok_def 2(2)
    by (auto simp: view_def)
qed

lemma race_step_ok: "race_step e x n r r' \<Longrightarrow> race_ok n r \<Longrightarrow> race_ok n r'"
proof (erule race_stepE)
  fix i assume ok: "race_ok n r" and i: "i < n" and go: "advance e x n i r = Some r'"
  have "race_ok n (set_call i ((rc_calls r i)\<lparr>cl_stage := s\<rparr>) r)" for s
    using ok i unfolding race_ok_def
    by (auto simp: view_def with_rows_def journal_ok_def clash_def idle_def)
  then show "race_ok n r'"
    using go unfolding advance_def Let_def
    by (auto split: stage.splits if_splits elim: race_ok_issue [OF ok i, rotated]
        intro: journal_statements race_ok_commit [OF ok i])
qed (simp_all add: race_ok_give_up race_ok_commit)

subsection \<open>What the transactions hold\<close>

definition solve_row :: "event \<Rightarrow> string \<Rightarrow> call \<Rightarrow> score_event" where
  "solve_row e x c = solve_event (e_id e) x (cl_team c) (the (uuid_in (cl_team c))) (cl_points c) (cl_now c)"

definition blood_row :: "event \<Rightarrow> string \<Rightarrow> call \<Rightarrow> score_event" where
  "blood_row e x c = firstblood_event (e_id e) x (the (uuid_in (cl_team c))) (e_bonus e) (cl_now c)"

definition blood_key :: "event \<Rightarrow> string \<Rightarrow> uuid \<times> string \<times> string" where
  "blood_key e x = (e_id e, ''core'', ''firstblood:'' @ x)"

definition blooded :: "event \<Rightarrow> string \<Rightarrow> database \<Rightarrow> bool" where
  "blooded e x d \<longleftrightarrow> blood_key e x \<in> score_key ` set (score_events d)"

text \<open>A call holds the submission of its team, and these score events.\<close>

definition holds :: "uuid \<Rightarrow> database \<Rightarrow> call \<Rightarrow> score_event list \<Rightarrow> bool" where
  "holds ec d c ses \<longleftrightarrow> (\<exists>s. uuid_in (cl_team c) = Some (sb_team s) \<and> cl_subs c = [s] \<and> sb_correct s \<and> sb_ec s = ec) \<and>
     cl_scores c = ses \<and> ec \<in> c_id ` set (challenges d)"

definition paid :: "event \<Rightarrow> string \<Rightarrow> uuid \<Rightarrow> bool \<Rightarrow> database \<Rightarrow> call \<Rightarrow> bool" where
  "paid e x ec due d c \<longleftrightarrow> (\<exists>ses. holds ec d c ses \<and> set ses \<subseteq> {solve_row e x c, blood_row e x c} \<and>
     solve_row e x c \<in> set ses \<and> (due \<longrightarrow> blooded e x d \<or> blood_row e x c \<in> set ses))"

definition solved_call :: "uuid \<Rightarrow> call \<Rightarrow> bool" where
  "solved_call tm c \<longleftrightarrow> (\<exists>fb. cl_stage c = Over (Some fb)) \<and> uuid_in (cl_team c) = Some tm"

text \<open>
  Stage by stage. \<open>due\<close>: there is a bonus, and nobody had solved the challenge at the start. Who has
  counted another solver finds the bonus paid; who goes to the scoreboard has paid it or found it so.
\<close>

definition stage_ok :: "event \<Rightarrow> string \<Rightarrow> uuid \<Rightarrow> bool \<Rightarrow> database \<Rightarrow> call \<Rightarrow> bool" where
  "stage_ok e x ec due d c \<longleftrightarrow>
     (case cl_stage c of
           Started \<Rightarrow> idle c
         | Submitted \<Rightarrow> holds ec d c []
         | Counted k \<Rightarrow> holds ec d c [] \<and> (due \<longrightarrow> k = 1 \<or> blooded e x d)
         | Scored k \<Rightarrow> holds ec d c [solve_row e x c] \<and> (due \<longrightarrow> k = 1 \<or> blooded e x d)
         | Totalled fb tot \<Rightarrow> paid e x ec due d c
         | Booked fb \<Rightarrow> paid e x ec due d c
         | Over a \<Rightarrow> idle c \<and> (a \<noteq> None \<longrightarrow> solve_row e x c \<in> set (score_events d) \<and>
             (\<exists>tm \<in> solved_by ec d. uuid_in (cl_team c) = Some tm)))"

definition blood_ok :: "event \<Rightarrow> string \<Rightarrow> uuid \<Rightarrow> bool \<Rightarrow> database \<Rightarrow> bool" where
  "blood_ok e x ec due d \<longleftrightarrow> (due \<longrightarrow>
     (solved_by ec d \<noteq> {} \<longrightarrow> ec \<in> c_id ` set (challenges d) \<and> blooded e x d) \<and>
     (ec \<in> c_id ` set (challenges d) \<longrightarrow> (\<forall>s \<in> set (score_events d). score_key s = blood_key e x \<longrightarrow>
        (\<exists>tm \<in> solved_by ec d. \<exists>t. s = firstblood_event (e_id e) x tm (e_bonus e) t))))"

definition race_inv :: "event \<Rightarrow> string \<Rightarrow> uuid \<Rightarrow> bool \<Rightarrow> race \<Rightarrow> bool" where
  "race_inv e x ec due r \<longleftrightarrow> (\<forall>i. stage_ok e x ec due (rc_db r) (rc_calls r i)) \<and>
     (\<forall>s \<in> set (score_events (rc_db r)). core_ref (rc_db r) s) \<and> blood_ok e x ec due (rc_db r) \<and>
     (\<forall>i j tm. i \<noteq> j \<longrightarrow> solved_call tm (rc_calls r i) \<longrightarrow> \<not> solved_call tm (rc_calls r j))"

text \<open>The rows are of the call's data, which no step changes.\<close>

lemma row_update [simp]:
  "solve_row e x (c\<lparr>cl_stage := s\<rparr>) = solve_row e x c" "blood_row e x (c\<lparr>cl_stage := s\<rparr>) = blood_row e x c"
  "solve_row e x (ended a c) = solve_row e x c" "blood_row e x (ended a c) = blood_row e x c"
  "solve_row e x (written d d' c) = solve_row e x c" "blood_row e x (written d d' c) = blood_row e x c"
  by (simp_all add: solve_row_def blood_row_def ended_def written_def)

subsection \<open>Statement by statement\<close>

lemma written_same [simp]: "written d d c = c"
  by (simp add: written_def new_rows_def)

lemma held_submission:
  assumes "insert_submission ev x (cl_team (rc_calls r i)) us h True ip now u (view r i) = Inr (a, d')"
    and "idle (rc_calls r i)" and "uuid_in x = Some ec"
  shows "holds ec (rc_db r) (written (view r i) d' (rc_calls r i)) []"
  using assms
  by (auto simp: insert_submission_Inr holds_def written_def new_rows_def idle_def)

lemma counted:
  assumes "holds ec (rc_db r) (rc_calls r i) []" and "uuid_in x = Some ec"
    and "count_solvers x now u (view r i) = Inr (k, d')" and "blood_ok e x ec due (rc_db r)"
  shows "d' = view r i" and "due \<Longrightarrow> k = 1 \<or> blooded e x (rc_db r)"
proof -
  from assms(1) obtain s where s: "cl_subs (rc_calls r i) = [s]" "sb_correct s" "sb_ec s = ec"
    by (auto simp: holds_def)
  show "d' = view r i" using assms(3) by (auto simp: count_solvers_Inr)
  have "k = 1 \<longleftrightarrow> solved_by ec (rc_db r) = {}"
    using assms(2,3) s count_first [of s ec "rc_db r"] by (auto simp: count_solvers_Inr)
  then show "k = 1 \<or> blooded e x (rc_db r)" if due
    using that assms(4) by (auto simp: blood_ok_def)
qed

text \<open>Two correct submissions of a team for the challenge are not seen together.\<close>

lemma first_of_team:
  assumes "holds ec (rc_db r) (rc_calls r i) ses" and "journal_ok (view r i)"
    and "uuid_in (cl_team (rc_calls r i)) = Some tm"
  shows "tm \<notin> solved_by ec (rc_db r)"
  using assms by (auto simp: holds_def journal_ok_def solved_by_def solve_key_def)

lemma held_solve:
  assumes "holds ec (rc_db r) (rc_calls r i) []" and "journal_ok (view r i)" and x: "uuid_in x = Some ec"
    and refs: "\<forall>s \<in> set (score_events (rc_db r)). core_ref (rc_db r) s"
    and ins: "insert_score (uuid_text (e_id e)) (cl_team (rc_calls r i)) ''solve'' ''core''
        (''solve:'' @ x @ '':'' @ cl_team (rc_calls r i)) (cl_points (rc_calls r i)) (JObj [])
        (cl_now (rc_calls r i)) u (view r i) = Inr (k, d')"
  shows "holds ec (rc_db r) (written (view r i) d' (rc_calls r i)) [solve_row e x (rc_calls r i)]"
proof -
  from assms(1) obtain tm where tm: "uuid_in (cl_team (rc_calls r i)) = Some tm"
    and ec: "ec \<in> c_id ` set (challenges (rc_db r))" and none: "cl_scores (rc_calls r i) = []"
    by (auto simp: holds_def)
  have "fresh_key score_key (e_id e, ''core'', ''solve:'' @ x @ '':'' @ cl_team (rc_calls r i)) (score_events (view r i))"
    using solve_key_fresh [OF refs x tm ec] first_of_team [OF assms(1,2) tm] none
    by (auto simp: solved_by_def)
  with ins tm have "d' = post_score (solve_row e x (rc_calls r i)) (view r i)"
    by (auto simp: insert_score_Inr uuid_in_text solve_row_def solve_event_def)
  with assms(1) show ?thesis
    by (auto simp: holds_def written_def new_rows_def)
qed

lemma solve_row_key: "score_key (solve_row e x c) \<noteq> blood_key e x'"
  by (simp add: solve_row_def solve_event_def score_key_def blood_key_def)

lemma blood_row_key: "score_key (blood_row e x c) = blood_key e x"
  by (simp add: blood_row_def firstblood_event_def score_key_def blood_key_def)

lemma held_blood:
  assumes "holds ec (rc_db r) (rc_calls r i) [solve_row e x (rc_calls r i)]"
    and ins: "insert_score (uuid_text (e_id e)) (cl_team (rc_calls r i)) ''award'' ''core''
        (''firstblood:'' @ x) (e_bonus e) (JObj []) (cl_now (rc_calls r i)) u (view r i) = Inr (k, d')"
  shows "paid e x ec due (rc_db r) (written (view r i) d' (rc_calls r i))"
proof (cases "fresh_key score_key (blood_key e x) (score_events (view r i))")
  case True
  with ins assms(1) have d': "d' = post_score (blood_row e x (rc_calls r i)) (view r i)"
    by (auto simp: insert_score_Inr uuid_in_text blood_row_def firstblood_event_def blood_key_def holds_def)
  with assms(1) have "holds ec (rc_db r) (written (view r i) d' (rc_calls r i))
      [solve_row e x (rc_calls r i), blood_row e x (rc_calls r i)]"
    by (auto simp: holds_def written_def new_rows_def)
  then show ?thesis unfolding paid_def by (intro exI) (auto simp: row_update)
next
  case False
  with ins have d': "d' = view r i" by (auto simp: insert_score_Inr uuid_in_text blood_key_def)
  have "blooded e x (rc_db r)"
    using False assms(1) solve_row_key [of e x "rc_calls r i" x]
    by (auto simp: fresh_key_iff blooded_def holds_def)
  with assms(1) show ?thesis unfolding d' written_same paid_def by (intro exI [of _ "[_]"]) auto
qed

lemma paid_board:
  assumes "paid e x ec due (rc_db r) (rc_calls r i)"
    and "add_to_board ev tm pts k lst now u (view r i) = Inr (a, d')"
  shows "paid e x ec due (rc_db r) (written (view r i) d' (rc_calls r i))"
proof -
  have "submissions d' = submissions (view r i)" "score_events d' = score_events (view r i)"
    using assms(2) by (auto simp: add_to_board_Inr)
  then have "holds ec d (written (view r i) d' (rc_calls r i)) ses = holds ec d (rc_calls r i) ses" for d ses
    by (simp add: holds_def written_def new_rows_def)
  then show ?thesis using assms(1) by (simp add: paid_def)
qed

lemma holds_stage [simp]: "holds ec d (c\<lparr>cl_stage := s\<rparr>) ses = holds ec d c ses"
  by (simp add: holds_def)

lemma paid_stage [simp]: "paid e x ec due d (c\<lparr>cl_stage := s\<rparr>) = paid e x ec due d c"
  by (simp add: paid_def)

subsection \<open>The invariant is kept\<close>

definition grows :: "database \<Rightarrow> database \<Rightarrow> bool" where
  "grows d d' \<longleftrightarrow> challenges d' = challenges d \<and> set (submissions d) \<subseteq> set (submissions d') \<and>
     set (score_events d) \<subseteq> set (score_events d')"

lemma grows_solved: "grows d d' \<Longrightarrow> solved_by ec d \<subseteq> solved_by ec d'"
  by (auto simp: grows_def solved_by_def)

lemma stage_ok_grows:
  assumes "grows d d'" and "stage_ok e x ec due d c"
  shows "stage_ok e x ec due d' c"
proof -
  have "holds ec d' c ses = holds ec d c ses" for ses using assms(1) by (simp add: grows_def holds_def)
  moreover have "blooded e x d \<Longrightarrow> blooded e x d'" using assms(1) by (auto simp: grows_def blooded_def)
  ultimately show ?thesis
    using assms(2) grows_solved [OF assms(1), of ec] assms(1)
    by (cases "cl_stage c") (auto simp: stage_ok_def paid_def grows_def)
qed

lemma race_inv_set:
  assumes "race_inv e x ec due r" and "stage_ok e x ec due (rc_db r) c" and "\<And>fb. cl_stage c \<noteq> Over (Some fb)"
  shows "race_inv e x ec due (set_call i c r)"
  using assms by (auto simp: race_inv_def solved_call_def)

lemma race_inv_give_up: "race_inv e x ec due r \<Longrightarrow> race_inv e x ec due (give_up i r)"
  unfolding give_up_def by (rule race_inv_set) (simp_all add: stage_ok_def ended_def idle_def)

lemma race_inv_issue:
  assumes "race_inv e x ec due r" and "issue n st after i r = Some r'"
    and "\<And>a d'. st (cl_now (rc_calls r i)) 0 (view r i) = Inr (a, d') \<Longrightarrow>
      stage_ok e x ec due (rc_db r) ((written (view r i) d' (rc_calls r i))\<lparr>cl_stage := after a\<rparr>)"
    and "\<And>a b. after a \<noteq> Over b"
  shows "race_inv e x ec due r'"
  using assms(2) by (cases rule: issueE) (use assms in \<open>auto intro: race_inv_give_up race_inv_set\<close>)

lemma core_ref_rows:
  assumes "uuid_in x = Some ec" and "uuid_in (cl_team c) = Some tm"
  shows "settled d ec (\<lambda>t. t = tm) \<Longrightarrow> core_ref d (solve_row e x c)"
    and "settled d ec (\<lambda>_. True) \<Longrightarrow> core_ref d (blood_row e x c)"
  unfolding core_ref_def using assms
  by (rule_tac conjI, intro impI exI [of _ x] exI [of _ ec] conjI disjI1 exI [of _ "cl_team c"] exI [of _ tm],
      simp_all add: solve_row_def solve_event_def)
     (rule_tac conjI, intro impI exI [of _ x] exI [of _ ec] conjI disjI2,
      simp_all add: blood_row_def firstblood_event_def)

lemma race_inv_commit:
  assumes inv: "race_inv e x ec due r" and ok: "race_ok n r" and x: "uuid_in x = Some ec"
    and booked: "cl_stage (rc_calls r i) = Booked fb"
  shows "race_inv e x ec due (commit i a r)"
proof -
  let ?c = "rc_calls r i" and ?d = "rc_db r" and ?d' = "view r i"
  from inv have "stage_ok e x ec due ?d ?c" by (simp add: race_inv_def)
  with booked have "paid e x ec due ?d ?c" by (simp add: stage_ok_def)
  then obtain ses where holds: "holds ec ?d ?c ses" and ses: "set ses \<subseteq> {solve_row e x ?c, blood_row e x ?c}"
    and solve: "solve_row e x ?c \<in> set ses" and due: "due \<longrightarrow> blooded e x ?d \<or> blood_row e x ?c \<in> set ses"
    unfolding paid_def by blast
  obtain s tm where s: "cl_subs ?c = [s]" "sb_correct s" "sb_ec s = ec" "sb_team s = tm"
    and tm: "uuid_in (cl_team ?c) = Some tm" and scores: "cl_scores ?c = ses"
    and ec: "ec \<in> c_id ` set (challenges ?d)"
    using holds by (auto simp: holds_def)
  have grows: "grows ?d ?d'" by (auto simp: grows_def)
  have solved: "tm \<in> solved_by ec ?d'" using s by (force simp: solved_by_def)
  have "tm \<notin> solved_by ec ?d"
    using first_of_team [OF holds _ tm] ok by (simp add: race_ok_def)
  then have others: "\<not> solved_call tm (rc_calls r j)" for j
    using inv by (auto simp: race_inv_def solved_call_def stage_ok_def dest!: spec [of _ j])
  have stages: "stage_ok e x ec due ?d' (rc_calls (commit i a r) j)" for j
  proof (cases "j = i")
    case True
    then show ?thesis
      using solve scores solved tm by (auto simp: stage_ok_def ended_def idle_def solve_row_def)
  next
    case False
    then show ?thesis using inv stage_ok_grows [OF grows] by (simp add: race_inv_def)
  qed
  have refs: "core_ref ?d' y" if "y \<in> set (score_events ?d')" for y
  proof (cases "y \<in> set (score_events ?d)")
    case True
    with inv have "core_ref ?d y" by (simp add: race_inv_def)
    then show ?thesis by (rule core_ref_mono) simp_all
  next
    case False
    then have y: "y = solve_row e x ?c \<or> y = blood_row e x ?c" using that scores ses by auto
    have "settled ?d' ec (\<lambda>t. t = tm)" "settled ?d' ec (\<lambda>_. True)" using s by (auto simp: settled_def)
    then show ?thesis using y core_ref_rows [OF x tm] by blast
  qed
  have blood: "blood_ok e x ec due ?d'"
    unfolding blood_ok_def
  proof (intro impI conjI ballI)
    assume due': due
    show "ec \<in> c_id ` set (challenges ?d')" using ec by simp
    show "blooded e x ?d'"
      using due due' scores by (auto simp: blooded_def blood_row_key [symmetric, of e x ?c])
    fix y assume y: "y \<in> set (score_events ?d')" "score_key y = blood_key e x"
    show "\<exists>tm \<in> solved_by ec ?d'. \<exists>t. y = firstblood_event (e_id e) x tm (e_bonus e) t"
    proof (cases "y \<in> set (score_events ?d)")
      case True
      then show ?thesis
        using inv due' ec y(2) grows_solved [OF grows, of ec] unfolding race_inv_def blood_ok_def by blast
    next
      case False
      then have "y = blood_row e x ?c" using y scores ses solve_row_key [of e x ?c x] by auto
      then show ?thesis using solved tm by (auto simp: blood_row_def)
    qed
  qed
  have "\<not> solved_call t (rc_calls (commit i a r) k)"
    if "j \<noteq> k" "solved_call t (rc_calls (commit i a r) j)" for j k t
    using that inv others tm by (auto simp: race_inv_def solved_call_def ended_def split: if_splits)
  with stages refs blood show ?thesis by (simp add: race_inv_def)
qed

lemma race_inv_step:
  assumes "race_step e x n r r'" and inv: "race_inv e x ec due r" and ok: "race_ok n r"
    and x: "uuid_in x = Some ec" and bonus: "due \<Longrightarrow> 0 < e_bonus e"
  shows "race_inv e x ec due r'"
  using assms(1)
proof (cases rule: race_step.cases)
  case (Advance i)
  let ?c = "rc_calls r i"
  have st: "stage_ok e x ec due (rc_db r) ?c" and refs: "\<forall>s \<in> set (score_events (rc_db r)). core_ref (rc_db r) s"
    and blood: "blood_ok e x ec due (rc_db r)" and journal: "journal_ok (view r i)"
    using inv ok by (auto simp: race_inv_def race_ok_def)
  show ?thesis
  proof (cases "cl_stage ?c")
    case Started
    with Advance(2) st show ?thesis
      by (auto simp: advance_def Let_def stage_ok_def intro!: race_inv_issue [OF inv] held_submission x)
  next
    case Submitted
    with st have held: "holds ec (rc_db r) ?c []" by (simp add: stage_ok_def)
    have "stage_ok e x ec due (rc_db r) ((written (view r i) d' ?c)\<lparr>cl_stage := Counted k\<rparr>)"
      if "count_solvers x (cl_now ?c) 0 (view r i) = Inr (k, d')" for k d'
      using counted [OF held x that blood] held by (auto simp: stage_ok_def)
    with Advance(2) Submitted show ?thesis
      by (auto simp: advance_def Let_def intro!: race_inv_issue [OF inv])
  next
    case (Counted k)
    with Advance(2) st show ?thesis
      by (auto simp: advance_def Let_def stage_ok_def intro!: race_inv_issue [OF inv]
          dest: held_solve [OF _ journal x refs])
  next
    case (Scored k)
    show ?thesis
    proof (cases "k = 1 \<and> 0 < e_bonus e")
      case True
      with Advance(2) st Scored show ?thesis
        by (auto simp: advance_def Let_def stage_ok_def intro!: race_inv_issue [OF inv] dest: held_blood)
    next
      case False
      with st Scored bonus have "paid e x ec due (rc_db r) ?c"
        unfolding stage_ok_def paid_def by (auto intro!: exI [of _ "[_]"])
      with False Advance(2) Scored show ?thesis
        by (auto simp: advance_def Let_def stage_ok_def intro!: race_inv_set [OF inv])
    qed
  next
    case (Totalled fb tot)
    with Advance(2) st show ?thesis
      by (auto simp: advance_def Let_def stage_ok_def intro!: race_inv_issue [OF inv] dest: paid_board)
  next
    case (Booked fb)
    with Advance(2) show ?thesis
      using race_inv_commit [OF inv ok x Booked, of "Some fb"] Booked by (simp add: advance_def Let_def)
  next
    case (Over a)
    with Advance(2) show ?thesis by (simp add: advance_def Let_def)
  qed
next
  case (Fails i)
  then show ?thesis using inv by (simp add: race_inv_give_up)
next
  case (Answer_lost i fb)
  then show ?thesis using race_inv_commit [OF inv ok x] by simp
qed

subsection \<open>An interleaving\<close>

text \<open>Two teams, and a call of each in the order of a schedule.\<close>

fun scheduled :: "event \<Rightarrow> string \<Rightarrow> nat \<Rightarrow> nat list \<Rightarrow> race \<Rightarrow> race option" where
  "scheduled e x n [] r = Some r"
| "scheduled e x n (i # is) r =
     (if n \<le> i then None
      else (case advance e x n i r of None \<Rightarrow> None | Some r' \<Rightarrow> scheduled e x n is r'))"

lemma scheduled_steps: "scheduled e x n is r = Some r' \<Longrightarrow> (race_step e x n)\<^sup>*\<^sup>* r r'"
proof (induction e x n "is" r rule: scheduled.induct)
  case (2 e x n i "is" r)
  then obtain r1 where "i < n" "advance e x n i r = Some r1" "scheduled e x n is r1 = Some r'"
    by (auto split: if_splits option.splits)
  then show ?case using 2 by (auto intro: converse_rtranclp_into_rtranclp race_step.Advance)
qed simp

definition race_db :: database where
  "race_db = demo_db\<lparr>
     users := [demo_user, demo_user\<lparr>u_id := 7, u_email := ''q@x''\<rparr>],
     teams := [\<lparr>tm_id = 3, tm_org = 1, tm_name = ''T'', tm_invite = ''code'', tm_created = 0\<rparr>,
       \<lparr>tm_id = 6, tm_org = 1, tm_name = ''U'', tm_invite = ''edoc'', tm_created = 0\<rparr>]\<rparr>"

definition race_start :: race where
  "race_start = \<lparr>rc_db = race_db,
     rc_calls = (\<lambda>i. \<lparr>cl_team = uuid_text (if i = 0 then 3 else 6), cl_user = uuid_text (if i = 0 then 2 else 7),
       cl_hash = ''h'', cl_ip = [], cl_points = 100, cl_now = 1000, cl_stage = Started, cl_subs = [], cl_scores = [], cl_board = []\<rparr>)\<rparr>"

lemmas race_defs = advance_def issue_def view_def set_call_def commit_def ended_def
  written_def new_rows_def clash_def share_def

text \<open>Both submit before either counts; the second pays itself after the first has committed.\<close>

definition overlap :: "nat list" where
  "overlap = [0, 1, 0, 1, 0, 0, 0, 0, 1, 1, 1, 1]"

text \<open>What the statements of the two calls see, one after the other.\<close>

definition race_submission :: "uuid \<Rightarrow> uuid \<Rightarrow> submission" where
  "race_submission tm us = \<lparr>sb_event = 4, sb_ec = 5, sb_team = tm, sb_user = us, sb_hash = ''h'',
     sb_correct = True, sb_at = 1000, sb_ip = None\<rparr>"

definition race_entry :: "uuid \<Rightarrow> entry" where
  "race_entry tm = \<lparr>b_event = 4, b_team = tm, b_points = 150, b_solves = 1, b_last = Some 1000\<rparr>"

definition race_view :: "submission list \<Rightarrow> score_event list \<Rightarrow> entry list \<Rightarrow> database" where
  "race_view sbs ses bs = race_db\<lparr>submissions := sbs, score_events := ses, board := bs\<rparr>"

abbreviation "sub3 \<equiv> race_submission 3 2"
abbreviation "sub6 \<equiv> race_submission 6 7"
abbreviation "solve3 \<equiv> solve_event 4 (uuid_text 5) (uuid_text 3) 3 100 1000"
abbreviation "solve6 \<equiv> solve_event 4 (uuid_text 5) (uuid_text 6) 6 100 1000"
abbreviation "blood3 \<equiv> firstblood_event 4 (uuid_text 5) 3 50 1000"

lemma race_db_view: "race_db = race_view [] [] []"
  by (simp add: race_view_def race_db_def demo_defs)

lemmas row_defs = race_view_def race_db_def race_submission_def race_entry_def solve_event_def firstblood_event_def
  demo_defs call_defs score_defs score_key_def add_entry_def update_where_def Let_def

text \<open>What the checks for common keys look at.\<close>

lemma race_view_fields [simp]:
  "submissions (race_view sbs ses bs) = sbs" "score_events (race_view sbs ses bs) = ses"
  "board (race_view sbs ses bs) = bs"
  by (simp_all add: race_view_def)

lemma race_with_rows:
  "with_rows c (race_view sbs ses bs) =
     race_view (sbs @ cl_subs c) (ses @ cl_scores c) (fold put_entry (cl_board c) bs)"
  by (simp add: with_rows_def race_view_def)

lemma race_rows:
  "solve_key (race_submission tm us) = (5, tm)" "sb_correct (race_submission tm us)"
  "board_key (race_entry tm) = (4, tm)" "race_entry tm = race_entry tm' \<longleftrightarrow> tm = tm'"
  "score_key solve3 \<noteq> score_key solve6" "score_key solve3 \<noteq> score_key blood3"
  "put_entry (race_entry tm) [] = [race_entry tm]"
  "put_entry (race_entry 6) [race_entry 3] = [race_entry 3, race_entry 6]"
  by (simp_all add: solve_key_def race_submission_def race_entry_def board_key_def score_key_def solve_event_def
      firstblood_event_def uuid_text_eq put_entry_def fresh_key_def)

lemma two_calls: "[0..<2] = [0, 1]"
  by (simp add: upt_rec)

lemmas row_lists = append_Cons [where ?'a = submission] append_Cons [where ?'a = score_event]
  append_Cons [where ?'a = entry]

lemma race_submissions:
  "insert_submission (uuid_text 4) (uuid_text 5) (uuid_text 3) (uuid_text 2) ''h'' True None 1000 0 (race_view [] [] []) =
     Inr ((), race_view [sub3] [] [])"
  "insert_submission (uuid_text 4) (uuid_text 5) (uuid_text 6) (uuid_text 7) ''h'' True None 1000 0 (race_view [] [] []) =
     Inr ((), race_view [sub6] [] [])"
  "insert_submission (uuid_text 4) (uuid_text 5) (uuid_text 6) (uuid_text 7) ''h'' True None 1000 0
     (race_view [sub3] ses bs) = Inr ((), race_view [sub3, sub6] ses bs)"
  by (simp_all add: row_defs)

lemma race_counts:
  "count_solvers (uuid_text 5) 1000 0 (race_view sbs ses bs) =
     Inr (count_where (\<lambda>s. sb_ec s = 5 \<and> sb_correct s) sbs, race_view sbs ses bs)"
  "count_where (\<lambda>s. sb_ec s = 5 \<and> sb_correct s) [race_submission tm us] = Suc 0"
  by (simp_all add: row_defs)

lemma race_scores:
  "insert_score (uuid_text 4) (uuid_text 3) ''solve'' ''core'' (''solve:'' @ uuid_text 5 @ '':'' @ uuid_text 3) 100
     (JObj []) 1000 0 (race_view sbs [] bs) = Inr (1, race_view sbs [solve3] bs)"
  "insert_score (uuid_text 4) (uuid_text 3) ''award'' ''core'' (''firstblood:'' @ uuid_text 5) 50
     (JObj []) 1000 0 (race_view sbs [solve3] bs) = Inr (1, race_view sbs [solve3, blood3] bs)"
  "insert_score (uuid_text 4) (uuid_text 6) ''solve'' ''core'' (''solve:'' @ uuid_text 5 @ '':'' @ uuid_text 6) 100
     (JObj []) 1000 0 (race_view sbs [solve3, blood3] bs) = Inr (1, race_view sbs [solve3, blood3, solve6] bs)"
  "insert_score (uuid_text 4) (uuid_text 6) ''award'' ''core'' (''firstblood:'' @ uuid_text 5) 50
     (JObj []) 1000 0 (race_view sbs [solve3, blood3, solve6] bs) = Inr (0, race_view sbs [solve3, blood3, solve6] bs)"
  by (simp_all add: row_defs uuid_text_eq)

lemma race_boards:
  "add_to_board (uuid_text 4) (uuid_text 3) 150 1 (Some 1000) 1000 0 (race_view sbs ses []) =
     Inr ((), race_view sbs ses [race_entry 3])"
  "add_to_board (uuid_text 4) (uuid_text 6) 150 1 (Some 1000) 1000 0 (race_view sbs ses [race_entry 3]) =
     Inr ((), race_view sbs ses [race_entry 3, race_entry 6])"
  by (simp_all add: row_defs)

definition raced :: race where
  "raced = \<lparr>rc_db = race_view [sub3, sub6] [solve3, blood3, solve6] [race_entry 3, race_entry 6],
     rc_calls = (\<lambda>i. (rc_calls race_start i)\<lparr>cl_stage := if i < 2 then Over (Some True) else Started\<rparr>)\<rparr>"

lemma raced_run: "scheduled demo_event (uuid_text 5) 2 overlap race_start = Some raced"
  unfolding overlap_def race_start_def raced_def race_db_view
  by (simp add: race_defs Let_def race_submissions race_counts race_scores race_boards race_with_rows race_rows two_calls
      row_lists demo_event_def nilIfEmpty_def fun_eq_iff del: append_Cons)

lemma raced_end:
  "cl_stage (rc_calls raced 0) = Over (Some True)" "cl_stage (rc_calls raced 1) = Over (Some True)"
  "shown_points (rc_db raced) (4, 3) = 150" "shown_points (rc_db raced) (4, 6) = 150"
  "recorded_points (rc_db raced) (4, 3) = 150" "recorded_points (rc_db raced) (4, 6) = 100"
  by (simp_all add: raced_def row_defs shown_points_def recorded_points_def score_account_def)

text \<open>
  C8. First blood is paid twice. Two teams send the right flag of a challenge at the same time, and
  both submissions are in before either call counts the solvers. Under READ COMMITTED each counts
  one, its own. Both calls answer that they were first, and the scoreboard has the bonus for both,
  while the journal of score events has it for one.
\<close>

theorem first_blood_twice:
  "\<exists>r. (race_step demo_event (uuid_text 5) 2)\<^sup>*\<^sup>* race_start r \<and>
     cl_stage (rc_calls r 0) = Over (Some True) \<and> cl_stage (rc_calls r 1) = Over (Some True) \<and>
     recorded_points (rc_db r) (4, 3) = 150 \<and> shown_points (rc_db r) (4, 3) = 150 \<and>
     recorded_points (rc_db r) (4, 6) = 100 \<and> shown_points (rc_db r) (4, 6) = 150"
  using scheduled_steps [OF raced_run] raced_end by blast

subsection \<open>What is left when the calls are over\<close>

definition is_over :: "call \<Rightarrow> bool" where
  "is_over c \<longleftrightarrow> (\<exists>a. cl_stage c = Over a)"

text \<open>The rows that were not there at the start (\<open>d0\<close>) are those of calls that are over.\<close>

definition added :: "event \<Rightarrow> string \<Rightarrow> nat \<Rightarrow> database \<Rightarrow> race \<Rightarrow> bool" where
  "added e x n d0 r \<longleftrightarrow> (\<exists>new. score_events (rc_db r) = score_events d0 @ new \<and>
     (\<forall>s \<in> set new. \<exists>i < n. is_over (rc_calls r i) \<and>
        s \<in> {solve_row e x (rc_calls r i), blood_row e x (rc_calls r i)}))"

definition same_call :: "call \<Rightarrow> call \<Rightarrow> bool" where
  "same_call c c' \<longleftrightarrow> cl_team c' = cl_team c \<and> cl_points c' = cl_points c \<and> cl_now c' = cl_now c"

lemma same_rows:
  "same_call c c' \<Longrightarrow> solve_row e x c' = solve_row e x c \<and> blood_row e x c' = blood_row e x c"
  by (simp add: same_call_def solve_row_def blood_row_def)

lemma same_call_step: "race_step e x n r r' \<Longrightarrow> same_call (rc_calls r j) (rc_calls r' j)"
  by (erule race_stepE)
     (auto simp: advance_def Let_def same_call_def ended_def written_def split: stage.splits if_splits elim!: issueE)

lemma same_call_steps: "(race_step e x n)\<^sup>*\<^sup>* r r' \<Longrightarrow> same_call (rc_calls r j) (rc_calls r' j)"
  by (induction rule: rtranclp_induct) (use same_call_step in \<open>fastforce simp: same_call_def\<close>)+

lemma step_db:
  assumes "race_step e x n r r'"
  shows "rc_db r' = rc_db r \<and> (\<forall>j. is_over (rc_calls r j) \<longrightarrow> is_over (rc_calls r' j)) \<or>
    (\<exists>i a fb. i < n \<and> cl_stage (rc_calls r i) = Booked fb \<and> r' = commit i a r)"
  using assms
  by (cases rule: race_step.cases)
     (auto simp: advance_def Let_def is_over_def ended_def split: stage.splits if_splits elim!: issueE)

lemma added_step:
  assumes step: "race_step e x n r r'" and "added e x n d0 r" and inv: "race_inv e x ec due r"
  shows "added e x n d0 r'"
proof -
  obtain new where new: "score_events (rc_db r) = score_events d0 @ new"
    and old: "\<And>s. s \<in> set new \<Longrightarrow> \<exists>i < n. is_over (rc_calls r i) \<and>
        s \<in> {solve_row e x (rc_calls r i), blood_row e x (rc_calls r i)}"
    using assms(2) by (auto simp: added_def)
  note rows = same_rows [OF same_call_step [OF step]]
  from step_db [OF step] show ?thesis
  proof
    assume "rc_db r' = rc_db r \<and> (\<forall>j. is_over (rc_calls r j) \<longrightarrow> is_over (rc_calls r' j))"
    then have same: "rc_db r' = rc_db r" and over: "is_over (rc_calls r j) \<Longrightarrow> is_over (rc_calls r' j)" for j by auto
    have "\<exists>i < n. is_over (rc_calls r' i) \<and> s \<in> {solve_row e x (rc_calls r' i), blood_row e x (rc_calls r' i)}"
      if "s \<in> set new" for s
      using old [OF that] over rows by auto
    then show ?thesis unfolding added_def same new by blast
  next
    assume "\<exists>i a fb. i < n \<and> cl_stage (rc_calls r i) = Booked fb \<and> r' = commit i a r"
    then obtain i a fb where i: "i < n" "cl_stage (rc_calls r i) = Booked fb" "r' = commit i a r" by blast
    then have "paid e x ec due (rc_db r) (rc_calls r i)"
      using inv by (auto simp: race_inv_def stage_ok_def dest!: spec [of _ i])
    then have own: "set (cl_scores (rc_calls r i)) \<subseteq> {solve_row e x (rc_calls r i), blood_row e x (rc_calls r i)}"
      by (auto simp: paid_def holds_def)
    have over: "is_over (rc_calls r' i)" "is_over (rc_calls r j) \<Longrightarrow> is_over (rc_calls r' j)" for j
      by (auto simp: i(3) is_over_def ended_def)
    have "\<exists>i < n. is_over (rc_calls r' i) \<and> s \<in> {solve_row e x (rc_calls r' i), blood_row e x (rc_calls r' i)}"
      if "s \<in> set (new @ cl_scores (rc_calls r i))" for s
      using that old [of s] over own i(1) rows by auto
    moreover have "score_events (rc_db r') = score_events d0 @ (new @ cl_scores (rc_calls r i))"
      by (simp add: i(3) new)
    ultimately show ?thesis unfolding added_def by blast
  qed
qed

lemma race_start_ok:
  assumes "books (rc_db r)" and "solves_unique (rc_db r)"
    and calls: "\<And>i. cl_stage (rc_calls r i) = Started \<and> idle (rc_calls r i)" and x: "uuid_in x = Some ec"
  shows "race_ok n r \<and> race_inv e x ec (0 < e_bonus e \<and> solved_by ec (rc_db r) = {}) r \<and> added e x n (rc_db r) r"
proof -
  have "journal_ok (rc_db r)"
    using assms(1,2) by (simp add: journal_ok_def books_def keys_sound_def solves_unique_def solve_key_def [abs_def])
  then have "race_ok n r" using calls by (simp add: race_ok_def view_def journal_idle)
  moreover have refs: "\<forall>s \<in> set (score_events (rc_db r)). core_ref (rc_db r) s" using assms(1) by (simp add: books_def)
  have "blood_ok e x ec (0 < e_bonus e \<and> solved_by ec (rc_db r) = {}) (rc_db r)"
    using firstblood_key_fresh [OF refs x, of "e_id e"]
    by (simp add: blood_ok_def solved_by_def fresh_key_iff blood_key_def image_iff) metis
  with refs have "race_inv e x ec (0 < e_bonus e \<and> solved_by ec (rc_db r) = {}) r"
    using calls by (simp add: race_inv_def stage_ok_def solved_call_def)
  ultimately show ?thesis by (simp add: added_def)
qed

lemma filter_single:
  assumes "distinct (map k xs)" and "x \<in> set xs"
  shows "filter (\<lambda>y. k y = k x) xs = [x]"
  using assms by (induction xs) (auto simp: filter_empty_conv image_iff)

lemma first_blood_once:
  assumes "blood_ok e x ec True d" and "journal_ok d" and "solved_by ec d \<noteq> {}"
  shows "\<exists>tm \<in> solved_by ec d. \<exists>t.
    filter (\<lambda>s. score_key s = (e_id e, ''core'', ''firstblood:'' @ x)) (score_events d) =
      [firstblood_event (e_id e) x tm (e_bonus e) t]"
proof -
  from assms(1,3) have "blooded e x d" and ec: "ec \<in> c_id ` set (challenges d)" by (simp_all add: blood_ok_def)
  then obtain s where s: "s \<in> set (score_events d)" "score_key s = blood_key e x"
    unfolding blooded_def by (metis imageE)
  with assms(1) ec obtain tm t where "tm \<in> solved_by ec d" "s = firstblood_event (e_id e) x tm (e_bonus e) t"
    unfolding blood_ok_def by blast
  moreover have "filter (\<lambda>y. score_key y = score_key s) (score_events d) = [s]"
    using assms(2) s(1) by (intro filter_single) (simp add: journal_ok_def)
  ultimately show ?thesis using s(2) by (auto simp: blood_key_def)
qed

text \<open>
  C7. The journal stands up to races. Take a database whose books balance, and any number of calls of
  \<open>RecordSolve\<close> for one challenge. However their statements interleave, and whichever of them fail or
  lose their answer: the journal of score events gets the rows of these calls and no other, no key is
  there twice, and no team has two correct submissions for the challenge. A call that has answered with
  a solve has its solve in the journal with its points, and no other call of the same team has. And if
  there is a bonus, nobody had solved the challenge and now somebody has, then the first blood is in the
  journal exactly once, paid to a team that has solved it.
\<close>

theorem race_journal:
  assumes "(race_step e x n)\<^sup>*\<^sup>* r r'" and "books (rc_db r)" and "solves_unique (rc_db r)"
    and "\<And>i. cl_stage (rc_calls r i) = Started \<and> idle (rc_calls r i)" and "uuid_in x = Some ec"
  shows "distinct (map score_key (score_events (rc_db r'))) \<and>
    distinct (map (\<lambda>s. (sb_ec s, sb_team s)) (filter sb_correct (submissions (rc_db r')))) \<and>
    (\<exists>new. score_events (rc_db r') = score_events (rc_db r) @ new \<and>
      (\<forall>s \<in> set new. \<exists>i < n. s \<in> {solve_row e x (rc_calls r i), blood_row e x (rc_calls r i)})) \<and>
    (\<forall>i fb. cl_stage (rc_calls r' i) = Over (Some fb) \<longrightarrow>
      solve_row e x (rc_calls r i) \<in> set (score_events (rc_db r')) \<and>
      (\<exists>tm \<in> solved_by ec (rc_db r'). uuid_in (cl_team (rc_calls r i)) = Some tm)) \<and>
    (\<forall>i j fb fb'. i \<noteq> j \<longrightarrow> cl_stage (rc_calls r' i) = Over (Some fb) \<longrightarrow> cl_stage (rc_calls r' j) = Over (Some fb') \<longrightarrow>
      uuid_in (cl_team (rc_calls r i)) \<noteq> uuid_in (cl_team (rc_calls r j))) \<and>
    (0 < e_bonus e \<longrightarrow> solved_by ec (rc_db r) = {} \<longrightarrow> solved_by ec (rc_db r') \<noteq> {} \<longrightarrow>
      (\<exists>tm \<in> solved_by ec (rc_db r'). \<exists>t.
        filter (\<lambda>s. score_key s = (e_id e, ''core'', ''firstblood:'' @ x)) (score_events (rc_db r')) =
          [firstblood_event (e_id e) x tm (e_bonus e) t]))"
proof -
  let ?due = "0 < e_bonus e \<and> solved_by ec (rc_db r) = {}"
  have "race_ok n r \<and> race_inv e x ec ?due r \<and> added e x n (rc_db r) r"
    using race_start_ok [OF assms(2-5)] by simp
  with assms(1) have "race_ok n r' \<and> race_inv e x ec ?due r' \<and> added e x n (rc_db r) r'"
  proof (induction rule: rtranclp_induct)
    case (step y z)
    then show ?case
      using race_step_ok [OF step(2)] race_inv_step [OF step(2) _ _ assms(5), where due = ?due]
        added_step [OF step(2), where due = ?due] by blast
  qed simp
  then have ok: "journal_ok (rc_db r')" and inv: "race_inv e x ec ?due r'" and added: "added e x n (rc_db r) r'"
    using journal_prefix by (auto simp: race_ok_def view_def)
  note same = same_call_steps [OF assms(1)]
  note rows = same_rows [OF same]
  have team: "cl_team (rc_calls r' i) = cl_team (rc_calls r i)" for i using same by (simp add: same_call_def)
  have "distinct (map score_key (score_events (rc_db r')))"
    "distinct (map (\<lambda>s. (sb_ec s, sb_team s)) (filter sb_correct (submissions (rc_db r'))))"
    using ok by (simp_all add: journal_ok_def solve_key_def [abs_def])
  moreover have "\<exists>new. score_events (rc_db r') = score_events (rc_db r) @ new \<and>
      (\<forall>s \<in> set new. \<exists>i < n. s \<in> {solve_row e x (rc_calls r i), blood_row e x (rc_calls r i)})"
    using added rows unfolding added_def by fastforce
  moreover have "solve_row e x (rc_calls r i) \<in> set (score_events (rc_db r')) \<and>
      (\<exists>tm \<in> solved_by ec (rc_db r'). uuid_in (cl_team (rc_calls r i)) = Some tm)"
    if "cl_stage (rc_calls r' i) = Over (Some fb)" for i fb
  proof -
    have "stage_ok e x ec ?due (rc_db r') (rc_calls r' i)" using inv by (simp add: race_inv_def)
    with that show ?thesis by (simp add: stage_ok_def rows team)
  qed
  note success = this
  moreover have "uuid_in (cl_team (rc_calls r i)) \<noteq> uuid_in (cl_team (rc_calls r j))"
    if "i \<noteq> j" "cl_stage (rc_calls r' i) = Over (Some fb)" "cl_stage (rc_calls r' j) = Over (Some fb')" for i j fb fb'
  proof
    assume same: "uuid_in (cl_team (rc_calls r i)) = uuid_in (cl_team (rc_calls r j))"
    from success [OF that(2)] obtain tm where "uuid_in (cl_team (rc_calls r i)) = Some tm" by blast
    with same that(2,3) have "solved_call tm (rc_calls r' i)" "solved_call tm (rc_calls r' j)"
      by (auto simp: solved_call_def team)
    with inv that(1) show False unfolding race_inv_def by blast
  qed
  moreover have "\<exists>tm \<in> solved_by ec (rc_db r'). \<exists>t.
        filter (\<lambda>s. score_key s = (e_id e, ''core'', ''firstblood:'' @ x)) (score_events (rc_db r')) =
          [firstblood_event (e_id e) x tm (e_bonus e) t]"
    if "0 < e_bonus e" "solved_by ec (rc_db r) = {}" "solved_by ec (rc_db r') \<noteq> {}"
    by (rule first_blood_once) (use inv ok that in \<open>auto simp: race_inv_def\<close>)
  ultimately show ?thesis by blast
qed

theorem race_journal_witness:
  "distinct (map score_key (score_events (rc_db raced))) \<and>
   filter (\<lambda>s. score_key s = (4, ''core'', ''firstblood:'' @ uuid_text 5)) (score_events (rc_db raced)) = [blood3]"
proof -
  have books: "books (rc_db race_start)"
    by (rule books_no_scores) (simp_all add: race_start_def race_db_def demo_defs)
  have unique: "solves_unique (rc_db race_start)" and nobody: "solved_by 5 (rc_db race_start) = {}"
    by (simp_all add: solves_unique_def solved_by_def race_start_def race_db_def demo_defs)
  have calls: "cl_stage (rc_calls race_start i) = Started \<and> idle (rc_calls race_start i)" for i
    by (simp add: race_start_def idle_def)
  have "sub3 \<in> set (submissions (rc_db raced))" "sb_correct sub3" "sb_ec sub3 = 5"
    by (simp_all add: raced_def race_submission_def)
  then have now: "solved_by 5 (rc_db raced) \<noteq> {}" by (auto simp: solved_by_def)
  have bonus: "0 < e_bonus demo_event" "e_id demo_event = 4" by (simp_all add: demo_event_def)
  note result = race_journal [OF scheduled_steps [OF raced_run] books unique calls uuid_in_text]
  then obtain tm t where "filter (\<lambda>s. score_key s = (4, ''core'', ''firstblood:'' @ uuid_text 5)) (score_events (rc_db raced)) =
      [firstblood_event 4 (uuid_text 5) tm (e_bonus demo_event) t]"
    using bonus nobody now by auto
  moreover have "blood3 \<in> set (score_events (rc_db raced))"
    "score_key blood3 = (4, ''core'', ''firstblood:'' @ uuid_text 5)"
    by (simp_all add: raced_def race_view_def firstblood_event_def score_key_def)
  then have "blood3 \<in> set (filter (\<lambda>s. score_key s = (4, ''core'', ''firstblood:'' @ uuid_text 5)) (score_events (rc_db raced)))"
    by simp
  ultimately have "filter (\<lambda>s. score_key s = (4, ''core'', ''firstblood:'' @ uuid_text 5)) (score_events (rc_db raced)) = [blood3]"
    by auto
  with result show ?thesis by blast
qed

end
