(* ===== verification/Rush.thy ===== *)
theory Rush
  imports Races
begin

text \<open>
  Instances requested at the same time. \<open>handleCreateInstance\<close> looks for a running instance, counts
  all running ones and inserts a row, in statements of their own; other requests come in between. A
  number of slots serve such requests, one after the other each, and their steps interleave with
  everything else that happens to the instances. However they do, a team has at most one running
  instance of a challenge, and on a network without faults the global maximum is exceeded by less
  than there are slots; it can be exceeded.
\<close>

subsection \<open>The steps of a request\<close>

datatype create_stage =
    Entered string string ispec \<comment> \<open>challenge, team, specification\<close>
  | Missing string string ispec
  | Allowed string string ispec
  | Conflicting string string ispec
  | Answered nat

definition create_next :: "server \<Rightarrow> create_stage \<Rightarrow> (world, create_stage) action" where
  "create_next srv s =
     (case s of
        Entered ecID teamID sp \<Rightarrow> do {
          active \<leftarrow> GetActiveInstance ecID teamID;
          ret (case active of Inr _ \<Rightarrow> Answered 200 | Inl _ \<Rightarrow> Missing ecID teamID sp)
        }
      | Missing ecID teamID sp \<Rightarrow> do {
          cnt \<leftarrow> CountRunningInstances;
          ret (if (case cnt of Inl _ \<Rightarrow> 0 | Inr n \<Rightarrow> int n) \<ge> sv_instance_max srv then Answered 429
               else Allowed ecID teamID sp)
        }
      | Allowed ecID teamID sp \<Rightarrow> do {
          hp \<leftarrow> provisionMock sp;
          now \<leftarrow> time_now;
          made \<leftarrow> CreateInstance ecID teamID (fst hp) (snd hp) (now + sv_instance_ttl srv);
          ret (case made of
                 Inl Conflict \<Rightarrow> Conflicting ecID teamID sp
               | Inl _ \<Rightarrow> Answered 500
               | Inr _ \<Rightarrow> Answered 201)
        }
      | Conflicting ecID teamID sp \<Rightarrow> do {
          existing \<leftarrow> GetActiveInstance ecID teamID;
          ret (Answered 200)
        }
      | Answered n \<Rightarrow> ret (Answered n))"

fun run_create :: "server \<Rightarrow> nat \<Rightarrow> create_stage \<Rightarrow> (world, create_stage) action" where
  "run_create srv 0 s = ret s"
| "run_create srv (Suc k) s = do { s' \<leftarrow> create_next srv s; run_create srv k s' }"

text \<open>Alone, the steps are the handler: after at most four of them it has answered.\<close>

lemma action_eqI: "(\<And>w. run_state m w = run_state m' w) \<Longrightarrow> m = m'"
  by (cases m; cases m') (auto simp: fun_eq_iff)

theorem handleCreateInstance_steps:
  "do { r \<leftarrow> handleCreateInstance P srv u eventID ecID; ret (Answered (status r)) } =
   do { ctx \<leftarrow> instanceContext u eventID ecID;
        (case ctx of
           Inl p \<Rightarrow> ret (Answered (status (p :: instance_reply)))
         | Inr (teamID, sp) \<Rightarrow> run_create srv 4 (Entered ecID teamID sp)) }"
  by (rule action_eqI)
     (simp add: handleCreateInstance_def create_next_def numeral_eq_Suc split: sum.split prod.split store_error.split)

subsection \<open>Requests side by side\<close>

text \<open>
  A slot that has answered takes the next request, for any challenge and team. Besides, instances are
  extended and destroyed, and anything else happens that leaves the other instances as they are or
  deletes some of them (with their challenge or team). Without faults every step finds the network in order.
\<close>

type_synonym rush = "world \<times> (nat \<Rightarrow> create_stage)"

inductive rush_step :: "server \<Rightarrow> nat \<Rightarrow> bool \<Rightarrow> rush \<Rightarrow> rush \<Rightarrow> bool" for srv n faults where
  Arrive: "i < n \<Longrightarrow> st i = Answered code \<Longrightarrow> rush_step srv n faults (w, st) (w, st(i := Entered ec tm sp))"
| Next: "i < n \<Longrightarrow> faults \<or> reliable w \<Longrightarrow> run_state (create_next srv (st i)) w = (s, w') \<Longrightarrow>
    rush_step srv n faults (w, st) (w', st(i := s))"
| Extend: "run_state (ExtendInstance ec tm extra 2) w = (r, w') \<Longrightarrow> rush_step srv n faults (w, st) (w', st)"
| Destroy: "run_state (DestroyInstance ec tm) w = (b, w') \<Longrightarrow> rush_step srv n faults (w, st) (w', st)"
| Elsewhere: "instances (db w') = filter keep (instances (db w)) \<Longrightarrow> rush_step srv n faults (w, st) (w', st)"

inductive_cases rush_stepE: "rush_step srv n faults (w, st) (w', st')"

subsection \<open>What they keep\<close>

lemma create_next_ok: "keeps (\<lambda>w. instances_ok (db w)) (create_next srv s)"
  unfolding create_next_def
  by (cases s; simp only: create_stage.case; (rule keeps_intros CreateInstance_ok | (rule keeps_quiet, rule quiet_intros))+)

lemma rush_step_ok: "rush_step srv n faults (w, st) (w', st') \<Longrightarrow> instances_ok (db w) \<Longrightarrow> instances_ok (db w')"
  by (erule rush_stepE)
     (auto intro: instances_ok_filter keepsD [OF create_next_ok] keepsD [OF ExtendInstance_ok] keepsD [OF DestroyInstance_ok])

text \<open>
  The maximum. Running instances and requests that have been let past the count are together less
  than the number of slots above it, or no more than there were running at first.
\<close>

definition let_past :: "create_stage \<Rightarrow> bool" where
  "let_past s \<longleftrightarrow> (case s of Allowed _ _ _ \<Rightarrow> True | _ \<Rightarrow> False)"

lemma let_past_simps [simp]:
  "let_past (Allowed ec tm sp)" "\<not> let_past (Entered ec tm sp)" "\<not> let_past (Missing ec tm sp)"
  "\<not> let_past (Conflicting ec tm sp)" "\<not> let_past (Answered code)"
  by (simp_all add: let_past_def)

definition pending :: "nat \<Rightarrow> (nat \<Rightarrow> create_stage) \<Rightarrow> nat" where
  "pending n st = card {i. i < n \<and> let_past (st i)}"

lemma pending_le: "pending n st \<le> n"
proof -
  have "pending n st \<le> card {..<n}" unfolding pending_def by (rule card_mono) auto
  then show ?thesis by simp
qed

lemma pending_split:
  assumes "i < n"
  shows "pending n st = card {j. j < n \<and> j \<noteq> i \<and> let_past (st j)} + of_bool (let_past (st i))"
proof -
  have "{j. j < n \<and> let_past (st j)} =
      {j. j < n \<and> j \<noteq> i \<and> let_past (st j)} \<union> (if let_past (st i) then {i} else {})"
    using assms by auto
  then show ?thesis by (simp add: pending_def)
qed

lemma pending_upd:
  assumes "i < n"
  shows "pending n (st(i := s)) + of_bool (let_past (st i)) = pending n st + of_bool (let_past s)"
proof -
  have "{j. j < n \<and> j \<noteq> i \<and> let_past ((st(i := s)) j)} = {j. j < n \<and> j \<noteq> i \<and> let_past (st j)}"
    by auto
  then show ?thesis using pending_split [OF assms, of st] pending_split [OF assms, of "st(i := s)"] by simp
qed

definition under_cap :: "server \<Rightarrow> nat \<Rightarrow> int \<Rightarrow> rush \<Rightarrow> bool" where
  "under_cap srv n k r \<longleftrightarrow> (case r of (w, st) \<Rightarrow>
     int (count_running (db w)) + int (pending n st) \<le> max k (sv_instance_max srv + int n - 1))"

lemma count_filter_le: "count_where P (filter keep xs) \<le> count_where P xs"
  by (induction xs) (auto simp: count_where_def)

lemma count_update_le:
  "(\<And>r. Q (f r) \<Longrightarrow> Q r) \<Longrightarrow> count_where Q (update_where P f rows) \<le> count_where Q rows"
  by (induction rows) (auto simp: count_where_def update_where_def)

text \<open>What a step of a request does to the two.\<close>

lemma create_next_counts:
  assumes "reliable w" and "run_state (create_next srv s) w = (s', w')"
  shows "count_running (db w') + of_bool (let_past s')
      \<le> count_running (db w) + of_bool (let_past s) \<or>
    db w' = db w \<and> int (count_running (db w)) < sv_instance_max srv"
proof -
  let ?post = "\<lambda>s' w'. count_running (db w') + of_bool (let_past s')
      \<le> count_running (db w) + of_bool (let_past s) \<or>
    db w' = db w \<and> int (count_running (db w)) < sv_instance_max srv"
  have "wp (create_next srv s) ?post w"
  proof (cases s)
    case (Entered ec tm sp)
    then show ?thesis
      by (simp add: create_next_def) (rule quiet_wp, rule quiet_instances, simp split: sum.split)
  next
    case (Missing ec tm sp)
    then show ?thesis
      unfolding create_next_def CountRunningInstances_def
      by simp (rule wp_query_reliable [OF assms(1)], simp add: failed_def)
  next
    case (Allowed ec tm sp)
    then show ?thesis
      unfolding create_next_def CreateInstance_def
      apply simp
      apply (rule quiet_wp, rule quiet_provisionMock)
      apply simp
      apply (rule wp_db_call_reliable)
        apply (simp_all add: assms(1))
       apply (auto simp: conflict_if_unique_def dest: insert_instance_count)
      done
  next
    case (Conflicting ec tm sp)
    then show ?thesis
      by (simp add: create_next_def) (rule quiet_wp, rule quiet_instances, simp)
  qed (simp add: create_next_def)
  then show ?thesis using assms(2) by (rule wpD)
qed

lemma extend_count: "keeps (\<lambda>w. count_running (db w) \<le> k) (ExtendInstance ec tm extra 2)"
  unfolding ExtendInstance_def
  by (intro keeps_bind keeps_db_call keeps_ret)
     (auto simp: extend_stmt_def Let_def count_running_def extend_row_def intro!: order.trans [OF count_update_le])

lemma destroy_count: "keeps (\<lambda>w. count_running (db w) \<le> k) (DestroyInstance ec tm)"
  unfolding DestroyInstance_def
  by (intro keeps_bind keeps_db_call keeps_ret)
     (auto simp: count_running_def intro!: order.trans [OF count_update_le])

lemma under_cap_less: "under_cap srv n k (w, st) \<Longrightarrow> count_running (db w') \<le> count_running (db w) \<Longrightarrow> under_cap srv n k (w', st)"
  by (simp add: under_cap_def)

lemma rush_step_cap:
  "rush_step srv n False (w, st) (w', st') \<Longrightarrow> under_cap srv n k (w, st) \<Longrightarrow> under_cap srv n k (w', st')"
proof (erule rush_stepE)
  fix i ec tm sp code
  assume "i < n" "st i = Answered code" "w' = w" "st' = st(i := Entered ec tm sp)" "under_cap srv n k (w, st)"
  then show "under_cap srv n k (w', st')"
    using pending_upd [of i n st "Entered ec tm sp"] by (simp add: under_cap_def)
next
  fix i s
  assume cap: "under_cap srv n k (w, st)" and i: "i < n" and "False \<or> reliable w"
    and go: "run_state (create_next srv (st i)) w = (s, w')" and st': "st' = st(i := s)"
  then have "reliable w" by simp
  from create_next_counts [OF this go] consider
      "count_running (db w') + of_bool (let_past s)
        \<le> count_running (db w) + of_bool (let_past (st i))"
    | "db w' = db w" "int (count_running (db w)) < sv_instance_max srv" by blast
  then show "under_cap srv n k (w', st')"
  proof cases
    case 1
    then show ?thesis using cap pending_upd [OF i, of st s] by (simp add: under_cap_def st')
  next
    case 2
    then show ?thesis using pending_le [of n st'] by (simp add: under_cap_def)
  qed
next
  fix ec tm extra r
  assume "run_state (ExtendInstance ec tm extra 2) w = (r, w')" "st' = st" "under_cap srv n k (w, st)"
  then show "under_cap srv n k (w', st')" using keepsD [OF extend_count order.refl] under_cap_less by blast
next
  fix ec tm b
  assume "run_state (DestroyInstance ec tm) w = (b, w')" "st' = st" "under_cap srv n k (w, st)"
  then show "under_cap srv n k (w', st')" using keepsD [OF destroy_count order.refl] under_cap_less by blast
next
  fix keep
  assume "instances (db w') = filter keep (instances (db w))" "st' = st" "under_cap srv n k (w, st)"
  then show "under_cap srv n k (w', st')"
    using under_cap_less [of srv n k w st w'] by (simp add: count_running_def count_filter_le)
qed

lemma rush_ok: "(rush_step srv n faults)\<^sup>*\<^sup>* r r' \<Longrightarrow> instances_ok (db (fst r)) \<Longrightarrow> instances_ok (db (fst r'))"
  by (induction rule: rtranclp_induct) (auto dest: rush_step_ok)

lemma rush_cap: "(rush_step srv n False)\<^sup>*\<^sup>* r r' \<Longrightarrow> under_cap srv n k r \<Longrightarrow> under_cap srv n k r'"
  by (induction rule: rtranclp_induct) (auto dest: rush_step_cap)

subsection \<open>The maximum is exceeded\<close>

text \<open>Two teams ask at the same time when one instance is allowed: both count none, and both get one.\<close>

fun rush_run :: "server \<Rightarrow> nat list \<Rightarrow> rush \<Rightarrow> rush" where
  "rush_run srv [] r = r"
| "rush_run srv (i # is) (w, st) =
     (case run_state (create_next srv (st i)) w of (s, w') \<Rightarrow> rush_run srv is (w', st(i := s)))"

lemma reliable_quiet: "quiet m \<Longrightarrow> keeps reliable m"
  by (simp add: keeps_def quiet_def still_def)

lemma reliable_db_call: "keeps reliable (db_call st)"
  by (simp add: keeps_def db_call_def reliable_tick reliable_def tick_def split: sum.split prod.split)

lemma reliable_create_next: "keeps reliable (create_next srv s)"
  unfolding create_next_def CreateInstance_def
  by (cases s; simp only: create_stage.case;
      (rule keeps_bind keeps_ret reliable_db_call | (rule reliable_quiet, rule quiet_intros))+)

lemma rush_run_steps:
  "reliable w \<Longrightarrow> set is \<subseteq> {..<n} \<Longrightarrow> (rush_step srv n False)\<^sup>*\<^sup>* (w, st) (rush_run srv is (w, st))"
proof (induction srv "is" "(w, st)" arbitrary: w st rule: rush_run.induct)
  case (2 srv i "is" w st)
  obtain s w' where go: "run_state (create_next srv (st i)) w = (s, w')" by fastforce
  then have "rush_step srv n False (w, st) (w', st(i := s))"
    using 2(2,3) by (intro rush_step.Next) auto
  moreover have "reliable w'" using keepsD [OF reliable_create_next 2(2) go] .
  ultimately show ?case using 2(1) [OF go [symmetric]] 2(3) go by (auto intro: converse_rtranclp_into_rtranclp)
qed simp

definition rush_server :: server where
  "rush_server = demo_server\<lparr>sv_instance_max := 1\<rparr>"

text \<open>The world in which \<open>k\<close> is the next id.\<close>

definition rush_ids :: "uuid \<Rightarrow> nat \<Rightarrow> uuid" where
  "rush_ids k n = k + of_nat n"

lemma rush_ids_simps: "rush_ids k 0 = k" "(\<lambda>n. rush_ids k (Suc n)) = rush_ids (k + 1)"
  by (simp_all add: rush_ids_def fun_eq_iff)

definition rush_view :: "uuid \<Rightarrow> running list \<Rightarrow> world" where
  "rush_view k rows = demo_world\<lparr>db := race_db\<lparr>instances := rows\<rparr>, uuids := rush_ids k\<rparr>"

definition rush_row :: "uuid \<Rightarrow> uuid \<Rightarrow> running" where
  "rush_row k tm = \<lparr>i_id = k, i_ec = 5, i_team = tm, i_host = ''10.13.37.'' @ itoa 9, i_port = 30007,
     i_status = ''running'', i_extends = 0, i_expires = 1000 + sv_instance_ttl demo_server, i_created = 1000\<rparr>"

definition rush_start :: "nat \<Rightarrow> create_stage" where
  "rush_start i = Entered (uuid_text 5) (uuid_text (if i = 0 then 3 else 6)) zero_ispec"

lemmas rush_defs = create_next_def rush_view_def rush_row_def rush_server_def race_db_def demo_world_def demo_db_def
  empty_db_def call_defs rush_ids_simps exists_row_def

lemma rush_entered: "run_state (create_next rush_server (Entered (uuid_text ec) (uuid_text tm) sp)) (rush_view k []) =
    (Missing (uuid_text ec) (uuid_text tm) sp, rush_view (k + 1) [])"
  by (simp add: rush_defs GetActiveInstance_def run_simps)

lemma rush_missing: "run_state (create_next rush_server (Missing ec tm sp)) (rush_view k []) =
    (Allowed ec tm sp, rush_view (k + 1) [])"
  by (simp add: rush_defs CountRunningInstances_def query_def run_simps count_running_def count_where_def)

lemma rush_allowed:
  assumes "tm \<in> {3, 6}" and "fresh_key i_id k rows" and "\<not> list_ex (is_running 5 tm) rows"
  shows "run_state (create_next rush_server (Allowed (uuid_text 5) (uuid_text tm) zero_ispec)) (rush_view k rows) =
    (Answered 201, rush_view (k + 1) (rows @ [rush_row k tm]))"
  using assms
  by (auto simp: rush_defs CreateInstance_def insert_instance_def provisionMock_def intn_def run_simps
      conflict_if_unique_def zero_ispec_def int4_ok_def demo_challenge_def new_challenge_def demo_server_def Let_def)

lemma rush_exceeds:
  "rush_run rush_server [0, 0, 1, 1, 0, 1] (rush_view 100 [], rush_start) =
     (rush_view 106 [rush_row 104 3, rush_row 105 6], rush_start(0 := Answered 201, 1 := Answered 201))"
proof -
  have "fresh_key i_id 105 [rush_row 104 3]" "\<not> list_ex (is_running 5 6) [rush_row 104 3]"
    by (simp_all add: fresh_key_def rush_row_def is_running_def)
  from rush_allowed [OF _ this]
  have second: "run_state (create_next rush_server (Allowed (uuid_text 5) (uuid_text 6) zero_ispec)) (rush_view 105 [rush_row 104 3]) =
      (Answered 201, rush_view 106 [rush_row 104 3, rush_row 105 6])" by simp
  have first: "run_state (create_next rush_server (Allowed (uuid_text 5) (uuid_text 3) zero_ispec)) (rush_view 104 []) =
      (Answered 201, rush_view 105 [rush_row 104 3])"
    using rush_allowed [of 3 104 "[]"] by (simp add: fresh_key_def)
  show ?thesis
    by (simp add: rush_start_def rush_entered rush_missing first second fun_upd_twist)
qed

theorem instance_cap_exceeded:
  "\<exists>w' st'. (rush_step rush_server 2 False)\<^sup>*\<^sup>* (rush_view 100 [], rush_start) (w', st') \<and>
     sv_instance_max rush_server = 1 \<and> count_running (db w') = 2"
proof -
  have "reliable (rush_view 100 [])" by (simp add: rush_view_def reliable_def demo_world_def)
  then have "(rush_step rush_server 2 False)\<^sup>*\<^sup>* (rush_view 100 [], rush_start)
      (rush_view 106 [rush_row 104 3, rush_row 105 6], rush_start(0 := Answered 201, 1 := Answered 201))"
    unfolding rush_exceeds [symmetric] by (rule rush_run_steps) auto
  moreover have "count_running (db (rush_view 106 [rush_row 104 3, rush_row 105 6])) = 2"
    by (simp add: rush_view_def rush_row_def count_running_def count_where_def)
  moreover have "sv_instance_max rush_server = 1" by (simp add: rush_server_def)
  ultimately show ?thesis by blast
qed

text \<open>
  C16. Instances under load. However the steps of simultaneous requests for instances interleave with
  each other and with whatever else happens to the instances, and whatever fails: a team has at most
  one running instance of a challenge, and none is extended more than twice. As long as nothing
  fails, the maximum is exceeded by less than the number of requests served at a time (unless more
  were running at first).
\<close>

theorem instances_race:
  assumes "(rush_step srv n faults)\<^sup>*\<^sup>* (w, st) (w', st')"
    and "instances_ok (db w)" and "\<forall>i. \<not> let_past (st i)"
  shows "instances_ok (db w') \<and>
    (\<not> faults \<longrightarrow> int (count_running (db w')) \<le>
       max (int (count_running (db w))) (sv_instance_max srv + int n - 1))"
proof -
  have "pending n st = 0" using assms(3) by (simp add: pending_def)
  then have "under_cap srv n (int (count_running (db w))) (w, st)" by (simp add: under_cap_def)
  then have "under_cap srv n (int (count_running (db w))) (w', st')" if "\<not> faults"
    using rush_cap [of srv n "(w, st)" "(w', st')"] assms(1) that by simp
  then show ?thesis using rush_ok [OF assms(1)] assms(2) by (auto simp: under_cap_def)
qed

theorem instances_race_witness:
  "\<exists>w' :: world. instances_ok (db w') \<and> count_running (db w') = 2 \<and> int 2 \<le> sv_instance_max rush_server + int 2 - 1"
proof -
  obtain w' st' where run: "(rush_step rush_server 2 False)\<^sup>*\<^sup>* (rush_view 100 [], rush_start) (w', st')"
    and count: "count_running (db w') = 2"
    using instance_cap_exceeded by blast
  have start: "instances_ok (db (rush_view 100 []))" "count_running (db (rush_view 100 [])) = 0"
    by (simp_all add: rush_view_def instances_ok_def active_unique_def count_running_def count_where_def)
  have "\<forall>i. \<not> let_past (rush_start i)" by (simp add: rush_start_def)
  from instances_race [OF run start(1) this] have "instances_ok (db w')"
    "int (count_running (db w')) \<le> max 0 (sv_instance_max rush_server + int 2 - 1)"
    by (simp_all add: start(2))
  with count have "instances_ok (db w') \<and> count_running (db w') = 2 \<and> int 2 \<le> sv_instance_max rush_server + int 2 - 1"
    by simp
  then show ?thesis by blast
qed

end
