(* ===== verification/Koth.thy ===== *)
theory Koth
  imports Startup
begin

text \<open>
  The process around the King of the Hill plugin (\<open>cmd/koth-plugin/main.go\<close>): its settings from the
  environment, its routes and its manifest. The handler of \<open>/hooks\<close> and the award it sends are in
  \<open>Plugin_Api\<close>. The lemmas say that the process and the operator's check agree on the secret when
  nothing is configured, and that a plugin registered with the manifest hears the ticks.
\<close>

subsection \<open>Settings\<close>

text \<open>\<open>os.Getenv\<close>: a variable that is not set has the empty string.\<close>

definition getenv :: "environment \<Rightarrow> string \<Rightarrow> string" where
  "getenv e k = (case e k of None \<Rightarrow> [] | Some v \<Rightarrow> v)"

definition koth_env :: "environment \<Rightarrow> string \<Rightarrow> string \<Rightarrow> string" where
  "koth_env e k d = (if getenv e k \<noteq> [] then getenv e k else d)"

definition koth_of :: "environment \<Rightarrow> koth" where
  "koth_of e =
     \<lparr>kh_secret = koth_env e ''KOTH_WEBHOOK_SECRET'' ''test-secret'',
      kh_core_url = koth_env e ''KOTH_CORE_URL'' [],
      kh_token = koth_env e ''KOTH_PLUGIN_TOKEN'' [],
      kh_event = koth_env e ''KOTH_EVENT_ID'' [],
      kh_holder = koth_env e ''KOTH_HOLDER_TEAM'' [],
      kh_target = koth_env e ''KOTH_TARGET'' ''target-1''\<rparr>"

text \<open>The configuration of the server reads its variables in the same way.\<close>

lemma koth_env_env: "koth_env e k d = env e k d"
  by (simp add: koth_env_def getenv_def env_def split: option.split)

subsection \<open>Routes\<close>

definition manifest_events :: json where
  "manifest_events = JArr [JStr ''tick.minute'', JStr ''solve.created'']"

definition manifest :: json where
  "manifest = JObj
     [(''id'', JStr ''koth''), (''name'', JStr ''King of the Hill''), (''version'', JStr ''1.0.0''),
      (''capabilities'', JArr [JStr ''score_awards'', JStr ''challenge_type'', JStr ''ui_slots'']),
      (''events'', manifest_events),
      (''ui'', JObj [(''slots'', JArr [JStr ''scoreboard.side''])])]"

text \<open>
  The multiplexer goes by the path alone, which is taken to be clean (it redirects other paths): the
  status, the document of the manifest, the award that is sent off, and the delivery ids seen.
\<close>

definition koth_mux ::
  "platform \<Rightarrow> koth \<Rightarrow> string list \<Rightarrow> string \<Rightarrow> hook \<Rightarrow> nat \<times> json option \<times> json option \<times> string list"
where
  "koth_mux P k seen path h =
     (if path = ''/manifest'' then (200, Some manifest, None, seen)
      else if path = ''/hooks'' then (case hooks P k seen h of (code, award, seen') \<Rightarrow> (code, None, award, seen'))
      else if path = ''/healthz'' then (200, None, None, seen)
      else (404, None, None, seen))"

text \<open>The process as a server under the operator's check.\<close>

definition koth_serve :: "platform \<Rightarrow> environment \<Rightarrow> string list \<Rightarrow> hook \<Rightarrow> nat option \<times> string list" where
  "koth_serve P e seen h = (case koth_mux P (koth_of e) seen ''/hooks'' h of (code, _, _, seen') \<Rightarrow> (Some code, seen'))"

subsection \<open>Out of the box\<close>

text \<open>
  With no secret configured on either side the check passes; it fails when the plugin was given
  another secret whose signatures differ from those under the default one.
\<close>

lemma koth_serve_hooks:
  "koth_serve P e seen h = (case hooks P (koth_of e) seen h of (code, _, seen') \<Rightarrow> (Some code, seen'))"
  by (simp add: koth_serve_def koth_mux_def split: prod.split)

lemma cli_args_plain: "cli_args [''plugin'', ''verify'', url] = Some (url, ''test-secret'')"
  by (simp add: cli_args_def)

theorem koth_default_verified:
  assumes "getenv e ''KOTH_WEBHOOK_SECRET'' = []" and "\<forall>m. length (hmac P ''test-secret'' m) \<noteq> 4"
  shows "cli_main P now (\<lambda>_. koth_serve P e) seen [''plugin'', ''verify'', url] = 0"
proof -
  have secret: "kh_secret (koth_of e) = ''test-secret''"
    by (simp add: koth_of_def koth_env_def assms(1))
  have "koth_serve P e = (\<lambda>seen h. case hooks P (koth_of e) seen h of (code, _, seen') \<Rightarrow> (Some code, seen'))"
    by (intro ext koth_serve_hooks)
  then show ?thesis
    using koth_passes_verify [of P "koth_of e" now seen] assms(2)
    by (simp add: cli_main_def cli_args_plain secret)
qed

lemma cli_needs_2xx: "cli_verify P secret now srv s = 0 \<Longrightarrow>
    in_hundreds (fst (srv s (probe ''delivery-1'' (itoa (now div second)) (sign P secret (itoa (now div second)) probe_body) probe_body))) 2"
  by (simp add: cli_verify_def Let_def split_beta split: if_splits)

theorem koth_other_secret:
  assumes "sign P ''test-secret'' (itoa (now div second)) probe_body \<noteq>
      sign P (kh_secret (koth_of e)) (itoa (now div second)) probe_body"
  shows "cli_main P now (\<lambda>_. koth_serve P e) seen [''plugin'', ''verify'', url] = 1"
proof -
  let ?h = "probe ''delivery-1'' (itoa (now div second)) (sign P ''test-secret'' (itoa (now div second)) probe_body) probe_body"
  have "length (hk_body ?h) \<le> 2 ^ 20"
  proof -
    have "length probe_body = 50" by code_simp
    then show ?thesis by (simp add: probe_def)
  qed
  then have "fst (hooks P (koth_of e) seen ?h) = 401"
    using assms by (simp add: hooks_accepts_iff) (simp add: probe_def)
  then have "\<not> in_hundreds (fst (koth_serve P e seen ?h)) 2"
    by (simp add: koth_serve_hooks split_beta in_hundreds_def)
  then have "cli_verify P ''test-secret'' now (koth_serve P e) seen \<noteq> 0"
    by (rule contrapos_nn) (rule cli_needs_2xx)
  moreover have "cli_verify P ''test-secret'' now (koth_serve P e) seen \<in> {0, 1}"
    by (simp add: cli_verify_def Let_def split_beta)
  ultimately show ?thesis by (simp add: cli_main_def cli_args_plain)
qed

text \<open>A plugin with the events of the manifest is subscribed to the ticks, and to no event it does not name.\<close>

lemma manifest_subscribed:
  "subscribed manifest_events typ \<longleftrightarrow> typ = ''tick.minute'' \<or> typ = ''solve.created''"
  by (auto simp: manifest_events_def subscribed_def string_list_def)

end
